(* ===== verification/Prelude.thy ===== *)
theory Prelude
  imports Main "HOL-Library.Word"
begin

text \<open>
  Shared vocabulary of the development: the machine integers of the crate as words, the
  outcome of a Rust function (a value, an \<open>Err\<close>, or a panic), slice and index accesses, reading
  and writing, that panic out of range, byte-order conversions, the \<open>for _ in 0..n\<close> loop, and the interfaces
  (locales) that the wire codecs of the components implement.

  Conventions.  A Rust item \<open>Type::item\<close> is the constant \<open>Type_item\<close>; a variant \<open>Enum::Variant\<close>
  of an enum other than \<open>Error\<close> is the constructor \<open>Enum_Variant\<close>.  \<open>usize\<close> values are lengths
  of and offsets into in-memory buffers and are modelled as natural numbers: no sum the crate
  forms comes near \<open>2 ^ 64\<close>.  The fixed-width types \<open>u8\<close>, \<open>u16\<close> and \<open>u32\<close> are words.
\<close>

unbundle bit_operations_syntax

section \<open>Machine integers and byte strings\<close>

type_synonym u8 = "8 word"
type_synonym u16 = "16 word"
type_synonym u32 = "32 word"
type_synonym u128 = "128 word"
type_synonym bytes = "u8 list"

text \<open>The array type \<open>[u8; 4]\<close>.\<close>

type_synonym u8x4 = "u8 \<times> u8 \<times> u8 \<times> u8"

named_theorems wire_simps "unfolding of encoders and of byte-order conversions"

definition u16_to_le_bytes :: "u16 \<Rightarrow> bytes" where
  "u16_to_le_bytes w = [ucast w, ucast (drop_bit 8 w)]"

definition u16_to_be_bytes :: "u16 \<Rightarrow> bytes" where
  "u16_to_be_bytes w = rev (u16_to_le_bytes w)"

definition u16_from_le_bytes :: "u8 \<Rightarrow> u8 \<Rightarrow> u16" where
  "u16_from_le_bytes a b = ucast a OR push_bit 8 (ucast b)"

definition u16_from_be_bytes :: "u8 \<Rightarrow> u8 \<Rightarrow> u16" where
  "u16_from_be_bytes a b = u16_from_le_bytes b a"

definition u32_to_le_bytes :: "u32 \<Rightarrow> bytes" where
  "u32_to_le_bytes w =
     [ucast w, ucast (drop_bit 8 w), ucast (drop_bit 16 w), ucast (drop_bit 24 w)]"

definition u32_to_be_bytes :: "u32 \<Rightarrow> bytes" where
  "u32_to_be_bytes w = rev (u32_to_le_bytes w)"

definition u32_from_le_bytes :: "u8 \<Rightarrow> u8 \<Rightarrow> u8 \<Rightarrow> u8 \<Rightarrow> u32" where
  "u32_from_le_bytes a b c d =
     ucast a OR push_bit 8 (ucast b) OR push_bit 16 (ucast c) OR push_bit 24 (ucast d)"

definition u32_from_be_bytes :: "u8 \<Rightarrow> u8 \<Rightarrow> u8 \<Rightarrow> u8 \<Rightarrow> u32" where
  "u32_from_be_bytes a b c d = u32_from_le_bytes d c b a"

lemma u16_from_to_le [simp]: "u16_from_le_bytes (ucast w) (ucast (drop_bit 8 w)) = w"
  by (rule bit_word_eqI) (auto simp: u16_from_le_bytes_def bit_simps)

lemma u16_to_from_le [simp]: "u16_to_le_bytes (u16_from_le_bytes a b) = [a, b]"
  by (auto simp: u16_from_le_bytes_def u16_to_le_bytes_def intro!: bit_word_eqI)
    (auto simp: bit_simps dest: bit_imp_le_length)

lemma u32_from_to_le [simp]:
  "u32_from_le_bytes (ucast w) (ucast (drop_bit 8 w)) (ucast (drop_bit 16 w))
     (ucast (drop_bit 24 w)) = w"
  by (rule bit_word_eqI)
    (auto simp: u32_from_le_bytes_def bit_simps le_diff_conv2 not_less less_diff_conv2,
     rule ccontr, simp)

lemma u32_to_from_le [simp]: "u32_to_le_bytes (u32_from_le_bytes a b c d) = [a, b, c, d]"
  by (auto simp: u32_from_le_bytes_def u32_to_le_bytes_def intro!: bit_word_eqI)
    (auto simp: bit_simps dest: bit_imp_le_length)

lemma length_u16_bytes [simp]:
  "length (u16_to_le_bytes w) = 2" "length (u16_to_be_bytes w) = 2"
  by (simp_all add: u16_to_le_bytes_def u16_to_be_bytes_def)

lemma length_u32_bytes [simp]:
  "length (u32_to_le_bytes w) = 4" "length (u32_to_be_bytes w) = 4"
  by (simp_all add: u32_to_le_bytes_def u32_to_be_bytes_def)

lemmas byte_defs = u16_to_le_bytes_def u16_to_be_bytes_def u32_to_le_bytes_def
  u32_to_be_bytes_def u16_from_be_bytes_def u32_from_be_bytes_def

lemma unat_of_nat_u16: "n < 65536 \<Longrightarrow> unat (of_nat n :: u16) = n"
  by (simp add: unat_of_nat)

lemma unat_of_nat_u8: "n < 256 \<Longrightarrow> unat (of_nat n :: u8) = n"
  by (simp add: unat_of_nat)

lemma unat_u16_less [simp]: "unat (w :: u16) < 65536"
  using unsigned_less [of w] by simp

lemma unat_u8_less [simp]: "unat (w :: u8) < 256"
  using unsigned_less [of w] by simp

section \<open>Outcomes of Rust functions\<close>

text \<open>
  \<open>Ok\<close> and \<open>Err\<close> are Rust's \<open>Result\<close>; \<open>Panic\<close> is the unwinding caused by an access out of
  range, a failed \<open>expect\<close> or an arithmetic overflow (in a build with overflow checks).
  \<open>and_then\<close> is sequencing with the \<open>?\<close> operator: the first error or panic ends the function.
\<close>

datatype ('a, 'e) result = Ok 'a | Err 'e | Panic

primrec and_then :: "('a, 'e) result \<Rightarrow> ('a \<Rightarrow> ('b, 'e) result) \<Rightarrow> ('b, 'e) result" where
  "and_then (Ok x) f = f x"
| "and_then (Err e) f = Err e"
| "and_then Panic f = Panic"

primrec map_err :: "('e \<Rightarrow> 'f) \<Rightarrow> ('a, 'e) result \<Rightarrow> ('a, 'f) result" where
  "map_err f (Ok x) = Ok x"
| "map_err f (Err e) = Err (f e)"
| "map_err f Panic = Panic"

primrec ok_or :: "'a option \<Rightarrow> 'e \<Rightarrow> ('a, 'e) result" where
  "ok_or None e = Err e"
| "ok_or (Some x) e = Ok x"

text \<open>The result of an external function that returns (a \<open>Result\<close>, never a panic).\<close>

primrec of_sum :: "('e \<Rightarrow> 'f) \<Rightarrow> 'e + 'a \<Rightarrow> ('a, 'f) result" where
  "of_sum f (Inl e) = Err (f e)"
| "of_sum f (Inr x) = Ok x"

lemma and_then_eq_Ok: "and_then r f = Ok y \<longleftrightarrow> (\<exists>x. r = Ok x \<and> f x = Ok y)"
  by (cases r) auto

lemma and_then_eq_Err: "and_then r f = Err e \<longleftrightarrow> r = Err e \<or> (\<exists>x. r = Ok x \<and> f x = Err e)"
  by (cases r) auto

lemma and_then_eq_Panic: "and_then r f = Panic \<longleftrightarrow> r = Panic \<or> (\<exists>x. r = Ok x \<and> f x = Panic)"
  by (cases r) auto

lemma map_err_eq_Ok [simp]: "map_err f r = Ok x \<longleftrightarrow> r = Ok x"
  by (cases r) auto

lemma map_err_eq_Panic [simp]: "map_err f r = Panic \<longleftrightarrow> r = Panic"
  by (cases r) auto

lemma ok_or_eq_Ok [simp]: "ok_or x e = Ok y \<longleftrightarrow> x = Some y"
  by (cases x) auto

lemma map_err_eq_Err: "map_err f r = Err e \<longleftrightarrow> (\<exists>e'. r = Err e' \<and> e = f e')"
  by (cases r) auto

lemma ok_or_eq_Err: "ok_or x e = Err e' \<longleftrightarrow> x = None \<and> e' = e"
  by (cases x) auto

lemma ok_or_neq_Panic [simp]: "ok_or x e \<noteq> Panic"
  by (cases x) auto

lemma of_sum_eq_Ok [simp]: "of_sum f s = Ok x \<longleftrightarrow> s = Inr x"
  by (cases s) auto

lemma of_sum_neq_Panic [simp]: "of_sum f s \<noteq> Panic"
  by (cases s) auto

lemma and_then_assoc: "and_then (and_then r f) g = and_then r (\<lambda>x. and_then (f x) g)"
  by (cases r) auto

lemma and_then_cong [fundef_cong]:
  "r = r' \<Longrightarrow> (\<And>x. r' = Ok x \<Longrightarrow> f x = f' x) \<Longrightarrow> and_then r f = and_then r' f'"
  by (cases r) auto

text \<open>Freedom from panics, compositionally.\<close>

lemma and_then_safe:
  "r \<noteq> Panic \<Longrightarrow> (\<And>x. r = Ok x \<Longrightarrow> f x \<noteq> Panic) \<Longrightarrow> and_then r f \<noteq> Panic"
  by (cases r) auto

text \<open>
  Sequencing of calls that also change a state \<open>'s\<close> (a transport, a pipe, a provider, a client): a
  call on \<open>&mut self\<close> returns its result and the new state, and the state reached when an error
  or a panic ends the function is kept.
\<close>

definition and_then_st ::
    "('a, 'e) result \<times> 's \<Rightarrow> ('a \<Rightarrow> 's \<Rightarrow> ('b, 'e) result \<times> 's) \<Rightarrow> ('b, 'e) result \<times> 's" where
  "and_then_st m f =
     (case m of (Ok x, s) \<Rightarrow> f x s | (Err e, s) \<Rightarrow> (Err e, s) | (Panic, s) \<Rightarrow> (Panic, s))"

lemma and_then_st_simps [simp]:
  "and_then_st (Ok x, s) f = f x s"
  "and_then_st (Err e, s) f = (Err e, s)"
  "and_then_st (Panic, s) f = (Panic, s)"
  by (simp_all add: and_then_st_def)

lemma and_then_st_eq_Ok:
  "and_then_st m f = (Ok y, s') \<longleftrightarrow> (\<exists>x s. m = (Ok x, s) \<and> f x s = (Ok y, s'))"
  by (auto simp: and_then_st_def split: prod.splits result.splits)

lemma fst_and_then_st_eq_Ok:
  "fst (and_then_st m f) = Ok y \<longleftrightarrow> (\<exists>x s. m = (Ok x, s) \<and> fst (f x s) = Ok y)"
  by (auto simp: and_then_st_def split: prod.splits result.splits)

lemma fst_and_then_st_eq_Panic:
  "fst (and_then_st m f) = Panic \<longleftrightarrow> fst m = Panic \<or> (\<exists>x s. m = (Ok x, s) \<and> fst (f x s) = Panic)"
  by (auto simp: and_then_st_def split: prod.splits result.splits)

lemma and_then_st_cong [fundef_cong]:
  "m = m' \<Longrightarrow> (\<And>x s. m' = (Ok x, s) \<Longrightarrow> f x s = f' x s) \<Longrightarrow> and_then_st m f = and_then_st m' f'"
  by (auto simp: and_then_st_def split: prod.splits result.splits)

lemma and_then_st_assoc:
  "and_then_st (and_then_st m f) g = and_then_st m (\<lambda>x s. and_then_st (f x s) g)"
  by (auto simp: and_then_st_def split: prod.splits result.splits)

text \<open>
  The same for computations that may not return: \<open>None\<close> stands for a loop that runs forever.
\<close>

definition and_then_run ::
    "(('a, 'e) result \<times> 's) option \<Rightarrow> ('a \<Rightarrow> 's \<Rightarrow> (('b, 'e) result \<times> 's) option)
       \<Rightarrow> (('b, 'e) result \<times> 's) option" where
  "and_then_run m f =
     (case m of
        None \<Rightarrow> None
      | Some (Ok x, s) \<Rightarrow> f x s
      | Some (Err e, s) \<Rightarrow> Some (Err e, s)
      | Some (Panic, s) \<Rightarrow> Some (Panic, s))"

lemma and_then_run_simps [simp]:
  "and_then_run None f = None"
  "and_then_run (Some (Ok x, s)) f = f x s"
  "and_then_run (Some (Err e, s)) f = Some (Err e, s)"
  "and_then_run (Some (Panic, s)) f = Some (Panic, s)"
  by (simp_all add: and_then_run_def)

section \<open>Indexing, slicing and checked arithmetic\<close>

definition idx :: "'a list \<Rightarrow> nat \<Rightarrow> ('a, 'e) result" where
  "idx xs i = (if i < length xs then Ok (xs ! i) else Panic)"

definition slice :: "'a list \<Rightarrow> nat \<Rightarrow> nat \<Rightarrow> ('a list, 'e) result" where
  "slice xs a b = (if a \<le> b \<and> b \<le> length xs then Ok (take (b - a) (drop a xs)) else Panic)"

definition slice_from :: "'a list \<Rightarrow> nat \<Rightarrow> ('a list, 'e) result" where
  "slice_from xs a = (if a \<le> length xs then Ok (drop a xs) else Panic)"

text \<open>
  Writing: an element at an index, \<open>copy_from_slice\<close>, which requires equal lengths, and an update of a
  part of an array through a mutable slice of it.
\<close>

definition set_idx :: "'a list \<Rightarrow> nat \<Rightarrow> 'a \<Rightarrow> ('a list, 'e) result" where
  "set_idx xs i v = (if i < length xs then Ok (xs[i := v]) else Panic)"

definition copy_from_slice :: "'a list \<Rightarrow> 'a list \<Rightarrow> ('a list, 'e) result" where
  "copy_from_slice dst src = (if length dst = length src then Ok src else Panic)"

definition on_slice :: "'a list \<Rightarrow> nat \<Rightarrow> nat \<Rightarrow> ('a list \<Rightarrow> ('a list, 'e) result) \<Rightarrow> ('a list, 'e) result" where
  "on_slice xs a b f = and_then (slice xs a b) (\<lambda>s. and_then (f s) (\<lambda>s'. Ok (take a xs @ s' @ drop b xs)))"

definition checked_sub :: "nat \<Rightarrow> nat \<Rightarrow> nat option" where
  "checked_sub a b = (if b \<le> a then Some (a - b) else None)"

text \<open>\<open>u16\<close> addition in a build with overflow checks.\<close>

definition u16_add :: "u16 \<Rightarrow> u16 \<Rightarrow> (u16, 'e) result" where
  "u16_add a b = (if unat a + unat b < 65536 then Ok (a + b) else Panic)"

definition le16_at :: "bytes \<Rightarrow> nat \<Rightarrow> (u16, 'e) result" where
  "le16_at bs i =
     and_then (idx bs i) (\<lambda>a. and_then (idx bs (i + 1)) (\<lambda>b. Ok (u16_from_le_bytes a b)))"

definition le32_at :: "bytes \<Rightarrow> nat \<Rightarrow> (u32, 'e) result" where
  "le32_at bs i =
     and_then (idx bs i) (\<lambda>a. and_then (idx bs (i + 1)) (\<lambda>b.
     and_then (idx bs (i + 2)) (\<lambda>c. and_then (idx bs (i + 3)) (\<lambda>d.
       Ok (u32_from_le_bytes a b c d)))))"

lemma idx_in [simp]: "i < length xs \<Longrightarrow> idx xs i = Ok (xs ! i)"
  by (simp add: idx_def)

lemma slice_in [simp]:
  "a \<le> b \<Longrightarrow> b \<le> length xs \<Longrightarrow> slice xs a b = Ok (take (b - a) (drop a xs))"
  by (simp add: slice_def)

lemma slice_from_in [simp]: "a \<le> length xs \<Longrightarrow> slice_from xs a = Ok (drop a xs)"
  by (simp add: slice_from_def)

lemma le16_at_in [simp]:
  "i + 1 < length bs \<Longrightarrow> le16_at bs i = Ok (u16_from_le_bytes (bs ! i) (bs ! (i + 1)))"
  by (simp add: le16_at_def)

lemma le32_at_in [simp]:
  "i + 3 < length bs \<Longrightarrow>
     le32_at bs i = Ok (u32_from_le_bytes (bs ! i) (bs ! (i + 1)) (bs ! (i + 2)) (bs ! (i + 3)))"
  by (simp add: le32_at_def)

lemma checked_sub_eq_Some [simp]: "checked_sub a b = Some c \<longleftrightarrow> b \<le> a \<and> c = a - b"
  by (auto simp: checked_sub_def)

lemma checked_sub_eq_None [simp]: "checked_sub a b = None \<longleftrightarrow> a < b"
  by (auto simp: checked_sub_def)

lemma u16_add_in: "unat a + unat b < 65536 \<Longrightarrow> u16_add a b = Ok (a + b)"
  by (simp add: u16_add_def)

text \<open>Where an access panics; with \<open>and_then_eq_Panic\<close> these decide the safety of a decoder.\<close>

lemma idx_eq_Panic: "idx xs i = Panic \<longleftrightarrow> length xs \<le> i"
  by (simp add: idx_def)

lemma slice_eq_Panic: "slice xs a b = Panic \<longleftrightarrow> \<not> (a \<le> b \<and> b \<le> length xs)"
  by (simp add: slice_def)

lemma slice_from_eq_Panic: "slice_from xs a = Panic \<longleftrightarrow> length xs < a"
  by (simp add: slice_from_def not_le)

lemma le16_at_eq_Panic: "le16_at bs i = Panic \<longleftrightarrow> length bs \<le> i + 1"
  by (auto simp: le16_at_def and_then_eq_Panic idx_def)

lemma le32_at_eq_Panic: "le32_at bs i = Panic \<longleftrightarrow> length bs \<le> i + 3"
  by (auto simp: le32_at_def and_then_eq_Panic idx_def)

lemmas panic_simps = and_then_eq_Panic idx_eq_Panic slice_eq_Panic slice_from_eq_Panic
  le16_at_eq_Panic le32_at_eq_Panic

text \<open>A byte string split at a known position.\<close>

lemma take_drop_split:
  "a \<le> b \<Longrightarrow> b \<le> length xs \<Longrightarrow> take (b - a) (drop a xs) @ drop b xs = drop a xs"
  by (metis append_take_drop_id drop_drop le_add_diff_inverse2)

lemma length_ge_split:
  assumes "n \<le> length xs"
  obtains ys zs where "xs = ys @ zs" "length ys = n"
  by (metis append_take_drop_id assms length_take min.absorb2)

section \<open>Counted loops\<close>

text \<open>\<open>for _ in 0..n { body }\<close> over the mutable variables of the loop; the body may return early.\<close>

primrec for_loop :: "nat \<Rightarrow> ('s \<Rightarrow> ('s, 'e) result) \<Rightarrow> 's \<Rightarrow> ('s, 'e) result" where
  "for_loop 0 f s = Ok s"
| "for_loop (Suc n) f s = and_then (f s) (for_loop n f)"

lemma for_loop_rule:
  assumes "I n s"
    and "\<And>k s. I (Suc k) s \<Longrightarrow> f s \<noteq> Panic"
    and "\<And>k s s'. I (Suc k) s \<Longrightarrow> f s = Ok s' \<Longrightarrow> I k s'"
  shows "for_loop n f s \<noteq> Panic \<and> (\<forall>s'. for_loop n f s = Ok s' \<longrightarrow> I 0 s')"
  using assms(1)
proof (induction n arbitrary: s)
  case 0
  then show ?case by simp
next
  case (Suc n)
  show ?case
  proof (cases "f s")
    case (Ok s')
    with Suc.prems have "I n s'" by (rule assms(3))
    with Ok show ?thesis by (simp add: Suc.IH)
  next
    case (Err e)
    then show ?thesis by simp
  next
    case Panic
    with assms(2) [OF Suc.prems] show ?thesis by simp
  qed
qed

section \<open>String patterns\<close>

text \<open>
  \<open>str::strip_prefix\<close> and \<open>str::split_once\<close>.  A \<open>str\<close> is the list of its UTF-8 bytes; the patterns
  the crate uses are ASCII, and an ASCII byte occurs in UTF-8 only as that character.
\<close>

fun strip_prefix :: "'a list \<Rightarrow> 'a list \<Rightarrow> 'a list option" where
  "strip_prefix [] s = Some s"
| "strip_prefix (p # ps) [] = None"
| "strip_prefix (p # ps) (c # cs) = (if p = c then strip_prefix ps cs else None)"

fun split_once :: "'a \<Rightarrow> 'a list \<Rightarrow> ('a list \<times> 'a list) option" where
  "split_once d [] = None"
| "split_once d (c # cs) =
     (if c = d then Some ([], cs)
      else case split_once d cs of Some (a, b) \<Rightarrow> Some (c # a, b) | None \<Rightarrow> None)"

lemma strip_prefix_eq_Some: "strip_prefix p s = Some r \<longleftrightarrow> s = p @ r"
  by (induction p s rule: strip_prefix.induct) auto

lemma split_once_eq_Some: "split_once d s = Some (a, b) \<longleftrightarrow> s = a @ d # b \<and> d \<notin> set a"
proof (induction s arbitrary: a)
  case (Cons c cs)
  show ?case
  proof (cases a)
    case Nil
    then show ?thesis by (cases "split_once d cs") auto
  next
    case (Cons x a')
    with Cons.IH [of a'] show ?thesis by (cases "split_once d cs") auto
  qed
qed simp

lemma split_once_eq_None: "split_once d s = None \<longleftrightarrow> d \<notin> set s"
  by (induction s) (auto split: option.splits)

section \<open>Text formatting\<close>

text \<open>
  The parts of \<open>std::fmt\<close> the crate uses: upper-case hexadecimal (\<open>{:X}\<close>) and decimal digits,
  and padding with zeros to a minimal width (\<open>{:02X}\<close>, \<open>{:08X}\<close>).
\<close>

definition digit_char :: "nat \<Rightarrow> char" where
  "digit_char n = ''0123456789ABCDEF'' ! n"

fun digits :: "nat \<Rightarrow> nat \<Rightarrow> string" where
  "digits b n = (if n < b \<or> b < 2 then [digit_char n] else digits b (n div b) @ [digit_char (n mod b)])"

declare digits.simps [simp del]

definition fmt_dec :: "nat \<Rightarrow> string" where
  "fmt_dec n = digits 10 n"

definition fmt_hex :: "nat \<Rightarrow> nat \<Rightarrow> string" where
  "fmt_hex w n = (let s = digits 16 n in replicate (w - length s) (CHR ''0'') @ s)"

section \<open>Interfaces of the wire codecs\<close>

text \<open>
  A fieldless \<open>#[repr]\<close> enum: the cast to its discriminant and the \<open>TryFrom\<close> that reads it back.
\<close>

locale wire_enum =
  fixes as_num :: "'a \<Rightarrow> 'n" and try_from :: "'n \<Rightarrow> ('a, 'e) result"
  assumes try_from_as_num: "try_from (as_num x) = Ok x"
    and as_num_try_from: "try_from v = Ok x \<Longrightarrow> as_num x = v"
    and try_from_safe: "try_from v \<noteq> Panic"
begin

lemma try_from_Ok_iff: "try_from v = Ok x \<longleftrightarrow> v = as_num x"
  using try_from_as_num as_num_try_from by auto

lemma as_num_inj: "as_num x = as_num y \<longleftrightarrow> x = y"
  by (metis result.inject(1) try_from_as_num)

lemma try_from_reject: "v \<notin> range as_num \<longleftrightarrow> (\<exists>e. try_from v = Err e)"
  using try_from_safe [of v] by (cases "try_from v") (auto simp: try_from_Ok_iff try_from_as_num)

end

text \<open>
  A decoder that inverts an encoder on the valid values and never panics, whatever the bytes.
\<close>

locale wire_codec =
  fixes enc :: "'a \<Rightarrow> bytes" and dec :: "bytes \<Rightarrow> ('a, 'e) result" and valid :: "'a \<Rightarrow> bool"
  assumes dec_enc: "valid x \<Longrightarrow> dec (enc x) = Ok x"
    and dec_safe: "dec bs \<noteq> Panic"
begin

lemma enc_inj:
  assumes "valid x" "valid y" "enc x = enc y"
  shows "x = y"
  by (metis assms dec_enc result.inject(1))

lemma dec_outcome: "(\<exists>x. dec bs = Ok x) \<or> (\<exists>e. dec bs = Err e)"
  using dec_safe [of bs] by (cases "dec bs") auto

end

text \<open>
  A codec without redundancy: the decoder accepts exactly the images of the encoder.
\<close>

locale exact_codec = wire_codec +
  assumes enc_dec: "dec bs = Ok x \<Longrightarrow> valid x \<and> enc x = bs"
begin

lemma dec_Ok_iff: "dec bs = Ok x \<longleftrightarrow> valid x \<and> bs = enc x"
  by (metis dec_enc enc_dec)

lemma dec_inj: "dec bs = Ok x \<Longrightarrow> dec bs' = Ok x \<Longrightarrow> bs = bs'"
  by (simp add: dec_Ok_iff)

end

text \<open>
  A decoder of a fixed-width field at the head of a buffer, which ignores what follows.
\<close>

locale fixed_codec =
  fixes enc :: "'a \<Rightarrow> bytes" and dec :: "bytes \<Rightarrow> ('a, 'e) result" and valid :: "'a \<Rightarrow> bool"
    and width :: nat
  assumes width_enc: "valid x \<Longrightarrow> length (enc x) = width"
    and dec_prefix: "valid x \<Longrightarrow> dec (enc x @ rest) = Ok x"
    and prefix_safe: "dec bs \<noteq> Panic"

sublocale fixed_codec \<subseteq> wire_codec enc dec valid
  using dec_prefix [where rest = "[]"] prefix_safe by unfold_locales auto

text \<open>
  A decoding loop over consecutive elements: \<open>step bs (offset, acc)\<close> reads the element at
  \<open>offset\<close> and appends it to \<open>acc\<close>.
\<close>

locale element_loop =
  fixes step :: "bytes \<Rightarrow> nat \<times> 'a list \<Rightarrow> (nat \<times> 'a list, 'e) result"
    and enc :: "'a \<Rightarrow> bytes" and valid :: "'a \<Rightarrow> bool"
  assumes step_enc: "valid x \<Longrightarrow> off \<le> length bs \<Longrightarrow> drop off bs = enc x @ rest \<Longrightarrow>
     step bs (off, acc) = Ok (off + length (enc x), acc @ [x])"
begin

lemma loop_enc:
  assumes "list_all valid xs" "off \<le> length bs" "drop off bs = concat (map enc xs) @ rest"
  shows "for_loop (length xs) (step bs) (off, acc) =
     Ok (off + length (concat (map enc xs)), acc @ xs)"
  using assms
proof (induction xs arbitrary: off acc)
  case Nil
  then show ?case by simp
next
  case (Cons x xs)
  let ?off = "off + length (enc x)"
  from Cons.prems have v: "valid x" and d: "drop off bs = enc x @ (concat (map enc xs) @ rest)"
    by auto
  have s: "step bs (off, acc) = Ok (?off, acc @ [x])"
    using v Cons.prems(2) d by (rule step_enc)
  have "length (drop off bs) = length (enc x @ (concat (map enc xs) @ rest))"
    by (simp only: d)
  then have le: "?off \<le> length bs"
    using Cons.prems(2) by simp
  have "drop ?off bs = drop (length (enc x)) (drop off bs)"
    by (simp add: add.commute)
  then have dd: "drop ?off bs = concat (map enc xs) @ rest"
    by (simp add: d)
  from Cons.prems(1) have "list_all valid xs" by simp
  then show ?case
    using Cons.IH [OF _ le dd, of "acc @ [x]"] by (simp add: s ac_simps)
qed

end

text \<open>
  The same loop when each step checks its bounds itself, so that it is safe on arbitrary bytes.
\<close>

locale guarded_loop = element_loop +
  assumes step_safe: "off \<le> length bs \<Longrightarrow> step bs (off, acc) \<noteq> Panic"
    and step_bound: "off \<le> length bs \<Longrightarrow> step bs (off, acc) = Ok (off', acc') \<Longrightarrow>
       off \<le> off' \<and> off' \<le> length bs \<and> length acc' = Suc (length acc)"
begin

lemma loop_safe:
  assumes "off \<le> length bs"
  shows "for_loop n (step bs) (off, acc) \<noteq> Panic"
    and "for_loop n (step bs) (off, acc) = Ok (off', acc') \<Longrightarrow>
      off' \<le> length bs \<and> length acc' = length acc + n"
proof -
  let ?I = "\<lambda>k (o', a). o' \<le> length bs \<and> length a + k = length acc + n"
  have "for_loop n (step bs) (off, acc) \<noteq> Panic \<and>
      (\<forall>s'. for_loop n (step bs) (off, acc) = Ok s' \<longrightarrow> ?I 0 s')"
    by (rule for_loop_rule [where I = ?I])
      (use assms in \<open>auto dest: step_bound simp: step_safe\<close>)
  then show "for_loop n (step bs) (off, acc) \<noteq> Panic"
    and "for_loop n (step bs) (off, acc) = Ok (off', acc') \<Longrightarrow>
      off' \<le> length bs \<and> length acc' = length acc + n"
    by auto
qed

end

text \<open>
  A guarded loop whose steps accept encodings only (under a condition \<open>ok\<close> on external code): it
  accepts exactly the concatenations of encodings.
\<close>

locale exact_loop = guarded_loop +
  fixes ok :: bool
  assumes step_exact: "ok \<Longrightarrow> off \<le> length bs \<Longrightarrow> step bs (off, acc) = Ok (off', acc') \<Longrightarrow>
     \<exists>x. valid x \<and> acc' = acc @ [x] \<and> drop off bs = enc x @ drop off' bs"
begin

lemma loop_exact:
  assumes "ok" "off \<le> length bs" "for_loop n (step bs) (off, acc) = Ok (off', acc')"
  shows "\<exists>xs. acc' = acc @ xs \<and> length xs = n \<and> list_all valid xs \<and>
     drop off bs = concat (map enc xs) @ drop off' bs"
  using assms(2,3)
proof (induction n arbitrary: off acc)
  case 0
  then show ?case by simp
next
  case (Suc n)
  then obtain off1 acc1 where s: "step bs (off, acc) = Ok (off1, acc1)"
    and l: "for_loop n (step bs) (off1, acc1) = Ok (off', acc')"
    by (auto simp: and_then_eq_Ok)
  from step_exact [OF assms(1) Suc.prems(1) s] obtain x where
    x: "valid x" "acc1 = acc @ [x]" "drop off bs = enc x @ drop off1 bs"
    by blast
  have "off1 \<le> length bs"
    using step_bound [OF Suc.prems(1) s] by simp
  from Suc.IH [OF this l] obtain xs where
    "acc' = acc1 @ xs" "length xs = n" "list_all valid xs"
    "drop off1 bs = concat (map enc xs) @ drop off' bs"
    by blast
  with x show ?case
    by (intro exI [of _ "x # xs"]) simp
qed

end

section \<open>Reading formatted numbers back\<close>

definition digit_val :: "char \<Rightarrow> nat" where
  "digit_val c = length (takeWhile (\<lambda>d. d \<noteq> c) ''0123456789ABCDEF'')"

definition num_val :: "nat \<Rightarrow> string \<Rightarrow> nat" where
  "num_val b s = foldl (\<lambda>a c. a * b + digit_val c) 0 s"

lemma all_digits: "(\<forall>d<16. P d) \<longleftrightarrow> P 0 \<and> P 1 \<and> P 2 \<and> P 3 \<and> P 4 \<and> P 5 \<and> P 6 \<and> P 7 \<and> P 8 \<and> P 9 \<and>
   P 10 \<and> P 11 \<and> P 12 \<and> P 13 \<and> P 14 \<and> P (15 :: nat)"
  by (simp add: eval_nat_numeral All_less_Suc2 conj_ac)

lemma digit_val_char [simp]: "d < 16 \<Longrightarrow> digit_val (digit_char d) = d"
proof -
  have "\<forall>d<16. digit_val (digit_char d) = d"
    unfolding all_digits by (simp add: digit_val_def digit_char_def)
  then show "d < 16 \<Longrightarrow> digit_val (digit_char d) = d" by blast
qed

lemma digit_char_hex: "d < 16 \<Longrightarrow> digit_char d \<in> set ''0123456789ABCDEF''"
  unfolding digit_char_def by (rule nth_mem) simp

lemma num_val_snoc [simp]: "num_val b (s @ [c]) = num_val b s * b + digit_val c" "num_val b [] = 0"
  by (simp_all add: num_val_def)

lemma num_val_digits [simp]: "2 \<le> b \<Longrightarrow> b \<le> 16 \<Longrightarrow> num_val b (digits b n) = n"
proof (induction b n rule: digits.induct)
  case (1 b n)
  show ?case
  proof (cases "n < b")
    case True
    with 1 show ?thesis by (simp add: digits.simps [of b n] num_val_def)
  next
    case False
    have "n mod b < 16" using 1(2,3) mod_less_divisor [of b n] by linarith
    with False 1 show ?thesis by (simp add: digits.simps [of b n])
  qed
qed

lemma num_val_zeros [simp]: "num_val b (replicate k (CHR ''0'') @ s) = num_val b s"
proof -
  have "foldl (\<lambda>a c. a * b + digit_val c) 0 (replicate k (CHR ''0'')) = 0"
    by (induction k) (simp_all add: digit_val_def)
  then show ?thesis by (simp add: num_val_def)
qed

lemma num_val_fmt [simp]: "num_val 16 (fmt_hex w n) = n" "num_val 10 (fmt_dec n) = n"
  by (simp_all add: fmt_hex_def fmt_dec_def Let_def)

lemma length_digits: "2 \<le> b \<Longrightarrow> n < b ^ k \<Longrightarrow> 0 < k \<Longrightarrow> length (digits b n) \<le> k"
proof (induction k arbitrary: n)
  case (Suc k)
  show ?case
  proof (cases "n < b")
    case False
    then have "n div b < b ^ k" using Suc.prems by (simp add: less_mult_imp_div_less mult.commute)
    moreover from this False Suc.prems have "0 < k" by (cases k) auto
    ultimately show ?thesis using Suc False by (simp add: digits.simps [of b n])
  qed (simp add: digits.simps [of b n])
qed simp

lemma length_fmt_hex: "n < 16 ^ w \<Longrightarrow> 0 < w \<Longrightarrow> length (fmt_hex w n) = w"
  using length_digits [of 16 n w] by (simp add: fmt_hex_def Let_def)

lemma digits_hex: "2 \<le> b \<Longrightarrow> b \<le> 16 \<Longrightarrow> set (digits b n) \<subseteq> set ''0123456789ABCDEF''"
proof (induction b n rule: digits.induct)
  case (1 b n)
  have "n mod b < 16" using 1(2,3) mod_less_divisor [of b n] by linarith
  with 1 show ?case
    using digit_char_hex [of n] digit_char_hex [of "n mod b"] by (auto simp: digits.simps [of b n])
qed

lemma fmt_hex_chars: "set (fmt_hex w n) \<subseteq> set ''0123456789ABCDEF''"
  using digits_hex [of 16 n] by (auto simp: fmt_hex_def Let_def)

end
