(* ===== verification/Rpc_Error.thy ===== *)
theory Rpc_Error
  imports Prelude
begin

text \<open>
  The error type of the crate (\<^verbatim>\<open>src/error.rs\<close>) with its \<open>Display\<close> text, the names of the fault
  status codes and the conversions into it.  The three enums an \<open>Error\<close> carries, and the error of
  the authentication layer (\<^verbatim>\<open>src/auth.rs\<close>) that is converted into it, are declared here because
  the Rust modules refer to one another.
\<close>

section \<open>Enums carried by an error\<close>

datatype RejectReason =
    RejectReason_ReasonNotSpecified
  | RejectReason_AbstractSyntaxNotSupported
  | RejectReason_ProposedTransferSyntaxNotSupported
  | RejectReason_LocalLimitExceeded
  | RejectReason_ProtocolVersionNotSpecified
  | RejectReason_AuthenticationTypeNotRecognized
  | RejectReason_InvalidChecksum

datatype PresentationResultCode =
    PresentationResultCode_Acceptance
  | PresentationResultCode_UserRejection
  | PresentationResultCode_ProviderRejection
  | PresentationResultCode_NegotiateAck

datatype PresentationRejectReason =
    PresentationRejectReason_ReasonNotSpecified
  | PresentationRejectReason_AbstractSyntaxNotSupported
  | PresentationRejectReason_ProposedTransferSyntaxNotSupported
  | PresentationRejectReason_LocalLimitExceeded

datatype RpcAuthError =
    RpcAuthError_Unsupported string
  | RpcAuthError_Provider string

section \<open>The error type\<close>

datatype Error =
    InvalidPduType u8
  | InvalidPdu string
  | BindRejected RejectReason
  | PresentationContextRejected u16 PresentationResultCode PresentationRejectReason
  | Fault u32
  | Transport string
  | Auth string
  | Ndr string

text \<open>The names printed by the derived \<open>Debug\<close> instances.\<close>

primrec RejectReason_debug :: "RejectReason \<Rightarrow> string" where
  "RejectReason_debug RejectReason_ReasonNotSpecified = ''ReasonNotSpecified''"
| "RejectReason_debug RejectReason_AbstractSyntaxNotSupported = ''AbstractSyntaxNotSupported''"
| "RejectReason_debug RejectReason_ProposedTransferSyntaxNotSupported =
     ''ProposedTransferSyntaxNotSupported''"
| "RejectReason_debug RejectReason_LocalLimitExceeded = ''LocalLimitExceeded''"
| "RejectReason_debug RejectReason_ProtocolVersionNotSpecified = ''ProtocolVersionNotSpecified''"
| "RejectReason_debug RejectReason_AuthenticationTypeNotRecognized =
     ''AuthenticationTypeNotRecognized''"
| "RejectReason_debug RejectReason_InvalidChecksum = ''InvalidChecksum''"

primrec PresentationResultCode_debug :: "PresentationResultCode \<Rightarrow> string" where
  "PresentationResultCode_debug PresentationResultCode_Acceptance = ''Acceptance''"
| "PresentationResultCode_debug PresentationResultCode_UserRejection = ''UserRejection''"
| "PresentationResultCode_debug PresentationResultCode_ProviderRejection = ''ProviderRejection''"
| "PresentationResultCode_debug PresentationResultCode_NegotiateAck = ''NegotiateAck''"

primrec PresentationRejectReason_debug :: "PresentationRejectReason \<Rightarrow> string" where
  "PresentationRejectReason_debug PresentationRejectReason_ReasonNotSpecified =
     ''ReasonNotSpecified''"
| "PresentationRejectReason_debug PresentationRejectReason_AbstractSyntaxNotSupported =
     ''AbstractSyntaxNotSupported''"
| "PresentationRejectReason_debug PresentationRejectReason_ProposedTransferSyntaxNotSupported =
     ''ProposedTransferSyntaxNotSupported''"
| "PresentationRejectReason_debug PresentationRejectReason_LocalLimitExceeded =
     ''LocalLimitExceeded''"

definition rpc_fault_status_name :: "u32 \<Rightarrow> string option" where
  "rpc_fault_status_name status =
     (if status = 0x00000005 then Some ''ERROR_ACCESS_DENIED''
      else if status = 0x000006F7 then Some ''ERROR_BAD_STUB_DATA''
      else if status = 0x1C000001 then Some ''nca_s_fault_other''
      else if status = 0x1C000002 then Some ''nca_s_fault_access_denied''
      else if status = 0x1C000003 then Some ''nca_s_fault_ndr''
      else if status = 0x1C000006 then Some ''nca_s_fault_invalid_tag''
      else if status = 0x1C000009 then Some ''nca_s_fault_context_mismatch''
      else if status = 0x1C00000B then Some ''nca_s_fault_cancel''
      else if status = 0x1C00000D then Some ''nca_s_fault_remote_no_memory''
      else if status = 0x1C00000F then Some ''nca_s_fault_unspec''
      else if status = 0x1C010002 then Some ''nca_s_unk_if''
      else if status = 0x1C010003 then Some ''nca_s_unsupported_type''
      else if status = 0x1C010006 then Some ''nca_s_op_rng_error''
      else None)"

fun Error_display :: "Error \<Rightarrow> string" where
  "Error_display (InvalidPduType v) = ''invalid MS-RPCE PDU type: 0x'' @ fmt_hex 2 (unat v)"
| "Error_display (InvalidPdu message) = ''invalid MS-RPCE PDU: '' @ message"
| "Error_display (BindRejected reason) = ''bind rejected: '' @ RejectReason_debug reason"
| "Error_display (PresentationContextRejected context_id res reason) =
     ''presentation context '' @ fmt_dec (unat context_id) @ '' rejected: ''
       @ PresentationResultCode_debug res @ '' ('' @ PresentationRejectReason_debug reason @ '')''"
| "Error_display (Fault status) =
     (case rpc_fault_status_name status of
        Some name \<Rightarrow> ''RPC fault status: '' @ name @ '' (0x'' @ fmt_hex 8 (unat status) @ '')''
      | None \<Rightarrow> ''RPC fault status: 0x'' @ fmt_hex 8 (unat status))"
| "Error_display (Transport message) = ''transport error: '' @ message"
| "Error_display (Auth message) = ''authentication error: '' @ message"
| "Error_display (Ndr message) = ''NDR error: '' @ message"

text \<open>
  \<open>From<NdrError>\<close>, whose argument is the text of the external error, and \<open>From<RpcAuthError>\<close>.
\<close>

definition Error_from_NdrError :: "string \<Rightarrow> Error" where
  "Error_from_NdrError message = Ndr message"

primrec Error_from_RpcAuthError :: "RpcAuthError \<Rightarrow> Error" where
  "Error_from_RpcAuthError (RpcAuthError_Unsupported message) = Auth message"
| "Error_from_RpcAuthError (RpcAuthError_Provider message) = Auth message"

section \<open>Reading a fault message\<close>

text \<open>The status a reader takes from the text of a fault: its last eight digits, before a bracket if any.\<close>

definition fault_message_status :: "string \<Rightarrow> nat" where
  "fault_message_status s =
     (let s = (if s \<noteq> [] \<and> last s = CHR '')'' then butlast s else s) in num_val 16 (drop (length s - 8) s))"

lemma fmt_hex8: "length (fmt_hex 8 (unat (v :: u32))) = 8"
  using unsigned_less [of v, where ?'a = nat] by (intro length_fmt_hex) simp_all

lemma last_fmt_hex8: "last (fmt_hex 8 (unat (v :: u32))) \<noteq> CHR '')''"
proof -
  have "last (fmt_hex 8 (unat v)) \<in> set (fmt_hex 8 (unat v))"
    using fmt_hex8 [of v] by (intro last_in_set) auto
  then show ?thesis using fmt_hex_chars [of 8 "unat v"] by auto
qed

lemma fault_message_plain:
  assumes "length h = 8" "last h \<noteq> CHR '')''" shows "fault_message_status (pre @ h) = num_val 16 h"
proof -
  have "last (pre @ h) = last h" using assms by (intro last_appendR) auto
  with assms show ?thesis by (simp add: fault_message_status_def Let_def)
qed

lemma fault_message_named:
  assumes "length h = 8" shows "fault_message_status (pre @ h @ '')'') = num_val 16 h"
proof -
  have "butlast (pre @ h @ '')'') = pre @ h" by (simp add: butlast_append)
  then show ?thesis using assms by (simp add: fault_message_status_def Let_def)
qed

text \<open>
  C40: the message of a fault names its status.  Whether the status is one of the thirteen with a
  symbolic name or not, the status can be read back from the text, so two faults with the same
  message have the same status.
\<close>

theorem fault_message_roundtrip:
  "fault_message_status (Error_display (Fault status)) = unat status"
proof (cases "rpc_fault_status_name status")
  case None
  then show ?thesis
    using fault_message_plain [OF fmt_hex8 last_fmt_hex8, of "''RPC fault status: 0x''" status]
    by (simp del: append.simps)
next
  case (Some name)
  then show ?thesis
    using fault_message_named [OF fmt_hex8, of "''RPC fault status: '' @ name @ '' (0x''" status]
    by (simp del: append.simps)
qed

end
