(* ===== verification/Rpc_Auth.thy ===== *)
theory Rpc_Auth
  imports Rpc_Error
begin

text \<open>
  The authentication vocabulary of \<^verbatim>\<open>src/auth.rs\<close>: levels, types and mechanisms with their wire
  values, the \<open>Display\<close> of the authentication error, and the trait \<open>RpcAuthProvider\<close> as a record of
  its methods over the state \<open>'p\<close> of a provider.
\<close>

section \<open>Levels, types and mechanisms\<close>

primrec RpcAuthError_display :: "RpcAuthError \<Rightarrow> string" where
  "RpcAuthError_display (RpcAuthError_Unsupported message) =
     ''unsupported RPC authentication: '' @ message"
| "RpcAuthError_display (RpcAuthError_Provider message) =
     ''RPC authentication provider error: '' @ message"

datatype AuthLevel =
    AuthLevel_None
  | AuthLevel_Connect
  | AuthLevel_PacketIntegrity
  | AuthLevel_PacketPrivacy

primrec AuthLevel_as_u8 :: "AuthLevel \<Rightarrow> u8" where
  "AuthLevel_as_u8 AuthLevel_None = 0"
| "AuthLevel_as_u8 AuthLevel_Connect = 2"
| "AuthLevel_as_u8 AuthLevel_PacketIntegrity = 5"
| "AuthLevel_as_u8 AuthLevel_PacketPrivacy = 6"

definition AuthLevel_try_from :: "u8 \<Rightarrow> (AuthLevel, RpcAuthError) result" where
  "AuthLevel_try_from v =
     (if v = 0 then Ok AuthLevel_None
      else if v = 2 then Ok AuthLevel_Connect
      else if v = 5 then Ok AuthLevel_PacketIntegrity
      else if v = 6 then Ok AuthLevel_PacketPrivacy
      else Err (RpcAuthError_Provider (''unsupported RPC auth level: 0x'' @ fmt_hex 2 (unat v))))"

datatype AuthMechanism =
    AuthMechanism_None
  | AuthMechanism_Kerberos
  | AuthMechanism_Ntlm

datatype RpcAuthType =
    RpcAuthType_None
  | RpcAuthType_GssNegotiate
  | RpcAuthType_WinNt
  | RpcAuthType_GssKerberos

primrec RpcAuthType_as_u8 :: "RpcAuthType \<Rightarrow> u8" where
  "RpcAuthType_as_u8 RpcAuthType_None = 0"
| "RpcAuthType_as_u8 RpcAuthType_GssNegotiate = 9"
| "RpcAuthType_as_u8 RpcAuthType_WinNt = 10"
| "RpcAuthType_as_u8 RpcAuthType_GssKerberos = 16"

definition RpcAuthType_try_from :: "u8 \<Rightarrow> (RpcAuthType, RpcAuthError) result" where
  "RpcAuthType_try_from v =
     (if v = 0 then Ok RpcAuthType_None
      else if v = 9 then Ok RpcAuthType_GssNegotiate
      else if v = 10 then Ok RpcAuthType_WinNt
      else if v = 16 then Ok RpcAuthType_GssKerberos
      else Err (RpcAuthError_Provider (''unsupported RPC auth type: 0x'' @ fmt_hex 2 (unat v))))"

interpretation auth_level_enum: wire_enum AuthLevel_as_u8 AuthLevel_try_from
proof unfold_locales
  show "AuthLevel_try_from (AuthLevel_as_u8 x) = Ok x" for x
    by (cases x) (simp_all add: AuthLevel_try_from_def)
  show "AuthLevel_try_from v = Ok x \<Longrightarrow> AuthLevel_as_u8 x = v" for v x
    by (auto simp: AuthLevel_try_from_def split: if_splits)
  show "AuthLevel_try_from v \<noteq> Panic" for v
    by (simp add: AuthLevel_try_from_def)
qed

interpretation auth_type_enum: wire_enum RpcAuthType_as_u8 RpcAuthType_try_from
proof unfold_locales
  show "RpcAuthType_try_from (RpcAuthType_as_u8 x) = Ok x" for x
    by (cases x) (simp_all add: RpcAuthType_try_from_def)
  show "RpcAuthType_try_from v = Ok x \<Longrightarrow> RpcAuthType_as_u8 x = v" for v x
    by (auto simp: RpcAuthType_try_from_def split: if_splits)
  show "RpcAuthType_try_from v \<noteq> Panic" for v
    by (simp add: RpcAuthType_try_from_def)
qed

section \<open>The provider trait\<close>

text \<open>
  One field per method; a method on \<open>&mut self\<close> returns its result and the new state of the
  provider.
\<close>

record 'p RpcAuthProvider =
  mechanism :: "'p \<Rightarrow> AuthMechanism"
  auth_level :: "'p \<Rightarrow> AuthLevel"
  init_context :: "'p \<Rightarrow> string \<Rightarrow> (bytes, RpcAuthError) result \<times> 'p"
  provider_step :: "'p \<Rightarrow> bytes \<Rightarrow> (bytes, RpcAuthError) result \<times> 'p"
  auth_type :: "'p \<Rightarrow> RpcAuthType"
  auth_context_id :: "'p \<Rightarrow> u32"
  is_context_established :: "'p \<Rightarrow> bool"

text \<open>The default methods of the trait.\<close>

primrec RpcAuthProvider_auth_type :: "AuthMechanism \<Rightarrow> RpcAuthType" where
  "RpcAuthProvider_auth_type AuthMechanism_None = RpcAuthType_None"
| "RpcAuthProvider_auth_type AuthMechanism_Kerberos = RpcAuthType_GssKerberos"
| "RpcAuthProvider_auth_type AuthMechanism_Ntlm = RpcAuthType_WinNt"

definition RpcAuthProvider_auth_context_id :: u32 where
  "RpcAuthProvider_auth_context_id = 0"

definition RpcAuthProvider_is_context_established :: bool where
  "RpcAuthProvider_is_context_established = False"

end
