(* ===== verification/External.thy ===== *)
theory External
  imports Prelude
begin

text \<open>
  The third-party code the crate calls, as parameters of the model: a record of functions per
  crate, and a predicate that names the documented behaviour the proofs rely on.  Nothing is
  assumed about a crate outside these predicates.  The last section instantiates both records
  with executable functions, so that every hypothesis can be discharged at a concrete input.
\<close>

section \<open>The crate \<open>msrpce_ndr\<close>\<close>

text \<open>
  \<open>DataRepresentation::from_bytes\<close> followed by the field \<open>byte_order\<close> (the error is the text of the
  \<open>NdrError\<close>), and the bytes of \<open>DataRepresentation::windows_default()\<close>.  \<open>ByteOrder\<close> has the two
  variants that \<^verbatim>\<open>src/pdu.rs\<close> matches on exhaustively.
\<close>

datatype ByteOrder = ByteOrder_Little | ByteOrder_Big

record ndr_crate =
  drep_from_bytes :: "u8x4 \<Rightarrow> string + ByteOrder"
  windows_default_drep :: u8x4

text \<open>A data representation label that the decoder accepts.\<close>

definition valid_drep :: "ndr_crate \<Rightarrow> u8x4 \<Rightarrow> bool" where
  "valid_drep N d \<longleftrightarrow> \<not> isl (drep_from_bytes N d)"

text \<open>\<open>from_bytes\<close> accepts what \<open>windows_default().to_bytes()\<close> produced.\<close>

definition ndr_ok :: "ndr_crate \<Rightarrow> bool" where
  "ndr_ok N \<longleftrightarrow> valid_drep N (windows_default_drep N)"

lemma valid_drepE:
  assumes "valid_drep N d"
  obtains bo where "drep_from_bytes N d = Inr bo"
  using assms by (cases "drep_from_bytes N d") (auto simp: valid_drep_def)

section \<open>The crate \<open>uuid\<close>\<close>

text \<open>
  The methods of \<open>Uuid\<close> the crate calls, over an abstract type \<open>'u\<close> of UUIDs.  An array
  \<open>[u8; 16]\<close> or \<open>[u8; 8]\<close> is a list of that length.
\<close>

record 'u uuid_crate =
  uuid_as_bytes :: "'u \<Rightarrow> bytes"
  uuid_from_slice :: "bytes \<Rightarrow> 'u option"
  uuid_to_bytes_le :: "'u \<Rightarrow> bytes"
  uuid_from_bytes_le :: "bytes \<Rightarrow> 'u"
  uuid_from_u128 :: "u128 \<Rightarrow> 'u"
  uuid_from_fields :: "u32 \<Rightarrow> u16 \<Rightarrow> u16 \<Rightarrow> bytes \<Rightarrow> 'u"

text \<open>
  Documented behaviour: a UUID is sixteen bytes, \<open>from_slice\<close> reads what \<open>as_bytes\<close> gives and
  fails exactly on slices of another length, and \<open>from_bytes_le\<close> and \<open>to_bytes_le\<close> are inverse.
\<close>

definition uuid_ok :: "'u uuid_crate \<Rightarrow> bool" where
  "uuid_ok U \<longleftrightarrow>
     (\<forall>u. length (uuid_as_bytes U u) = 16 \<and> uuid_from_slice U (uuid_as_bytes U u) = Some u) \<and>
     (\<forall>bs. length bs = 16 \<longrightarrow> (\<exists>u. uuid_from_slice U bs = Some u \<and> uuid_as_bytes U u = bs)) \<and>
     (\<forall>bs. length bs \<noteq> 16 \<longrightarrow> uuid_from_slice U bs = None) \<and>
     (\<forall>u. length (uuid_to_bytes_le U u) = 16 \<and>
        uuid_from_bytes_le U (uuid_to_bytes_le U u) = u) \<and>
     (\<forall>bs. length bs = 16 \<longrightarrow> uuid_to_bytes_le U (uuid_from_bytes_le U bs) = bs)"

lemma uuid_okD:
  assumes "uuid_ok U"
  shows "length (uuid_as_bytes U u) = 16"
    and "uuid_from_slice U (uuid_as_bytes U u) = Some u"
    and "length (uuid_to_bytes_le U u) = 16"
    and "uuid_from_bytes_le U (uuid_to_bytes_le U u) = u"
    and "length bs = 16 \<Longrightarrow> uuid_to_bytes_le U (uuid_from_bytes_le U bs) = bs"
    and "uuid_from_slice U bs = Some u \<Longrightarrow> uuid_as_bytes U u = bs"
    and "length bs = 16 \<Longrightarrow> \<exists>u. uuid_from_slice U bs = Some u"
proof -
  show "uuid_from_slice U bs = Some u \<Longrightarrow> uuid_as_bytes U u = bs"
    using assms unfolding uuid_ok_def by (cases "length bs = 16") fastforce+
  show "length bs = 16 \<Longrightarrow> \<exists>u. uuid_from_slice U bs = Some u"
    using assms unfolding uuid_ok_def by blast
qed (use assms in \<open>simp_all add: uuid_ok_def\<close>)

section \<open>Executable instances\<close>

text \<open>
  The data representation label of MS-RPCE: the high nibble of the first byte selects the byte
  order (1 is little endian), and the Windows default is \<open>[0x10, 0, 0, 0]\<close>.
\<close>

definition std_ndr :: ndr_crate where
  "std_ndr =
     \<lparr>drep_from_bytes = (\<lambda>(a, b, c, d).
        if drop_bit 4 a = 1 then Inr ByteOrder_Little
        else if drop_bit 4 a = 0 then Inr ByteOrder_Big
        else Inl ''invalid byte order''),
      windows_default_drep = (0x10, 0, 0, 0)\<rparr>"

lemma ndr_ok_std_ndr: "ndr_ok std_ndr"
  by (simp add: ndr_ok_def valid_drep_def std_ndr_def)

text \<open>A UUID as its sixteen bytes in the order of \<open>as_bytes\<close>.\<close>

type_synonym uuid16 = "u8x4 \<times> u8x4 \<times> u8x4 \<times> u8x4"

fun uuid16_bytes :: "uuid16 \<Rightarrow> bytes" where
  "uuid16_bytes ((a, b, c, d), (e, f, g, h), (i, j, k, l), (m, n, p, q)) =
     [a, b, c, d, e, f, g, h, i, j, k, l, m, n, p, q]"

fun uuid16_of_bytes :: "bytes \<Rightarrow> uuid16 option" where
  "uuid16_of_bytes [a, b, c, d, e, f, g, h, i, j, k, l, m, n, p, q] =
     Some ((a, b, c, d), (e, f, g, h), (i, j, k, l), (m, n, p, q))"
| "uuid16_of_bytes _ = None"

fun swap_fields :: "bytes \<Rightarrow> bytes" where
  "swap_fields (a # b # c # d # e # f # g # h # rest) = d # c # b # a # f # e # h # g # rest"
| "swap_fields bs = bs"

definition std_uuid :: "uuid16 uuid_crate" where
  "std_uuid =
     \<lparr>uuid_as_bytes = uuid16_bytes,
      uuid_from_slice = uuid16_of_bytes,
      uuid_to_bytes_le = (\<lambda>u. swap_fields (uuid16_bytes u)),
      uuid_from_bytes_le = (\<lambda>bs. the (uuid16_of_bytes (swap_fields bs))),
      uuid_from_u128 = (\<lambda>w. the (uuid16_of_bytes
         (map (\<lambda>i. ucast (drop_bit (8 * i) w)) [15, 14, 13, 12, 11, 10, 9, 8, 7, 6, 5, 4, 3, 2, 1, 0]))),
      uuid_from_fields = (\<lambda>d1 d2 d3 d4. the (uuid16_of_bytes
         (u32_to_be_bytes d1 @ u16_to_be_bytes d2 @ u16_to_be_bytes d3 @ d4)))\<rparr>"

lemma length_16E:
  assumes "length bs = 16"
  obtains a b c d e f g h i j k l m n p q
  where "bs = [a, b, c, d, e, f, g, h, i, j, k, l, m, n, p, q]"
  using assms by (auto simp: numeral_eq_Suc length_Suc_conv)

lemma uuid16_of_bytes_None: "length bs \<noteq> 16 \<Longrightarrow> uuid16_of_bytes bs = None"
  by (cases bs rule: uuid16_of_bytes.cases) simp_all

lemma uuid16_roundtrip:
  "length (uuid16_bytes u) = 16" "uuid16_of_bytes (uuid16_bytes u) = Some u"
  "length (swap_fields (uuid16_bytes u)) = 16"
  "uuid16_of_bytes (swap_fields (swap_fields (uuid16_bytes u))) = Some u"
  by (cases u rule: uuid16_bytes.cases; simp)+

lemma uuid_ok_std_uuid: "uuid_ok std_uuid"
  unfolding uuid_ok_def
proof (intro conjI allI impI)
  fix bs :: bytes
  assume "length bs = 16"
  then show "\<exists>u. uuid_from_slice std_uuid bs = Some u \<and> uuid_as_bytes std_uuid u = bs"
    and "uuid_to_bytes_le std_uuid (uuid_from_bytes_le std_uuid bs) = bs"
    by (auto simp: std_uuid_def elim!: length_16E)
qed (simp_all add: std_uuid_def uuid16_roundtrip uuid16_of_bytes_None)

end
