(* ===== verification/Pdu.thy ===== *)
theory Pdu
  imports Rpc_Auth External
begin

text \<open>
  The wire formats of \<^verbatim>\<open>src/pdu.rs\<close>: the common header, the security trailer, the packet that
  frames a body, and the bodies of bind, request, response and fault PDUs, each with its encoder
  and decoder.  A decoder reads its input and an encoder writes its array only through the accesses of
  the prelude that panic out of range, so that freedom from panics is a theorem and not an artefact
  of the model; \<open>PduHeader_wire\<close> and \<open>SecurityTrailer_wire\<close> describe the layouts the encoders produce.
\<close>

section \<open>Constants and byte order\<close>

definition RPC_VERSION :: u8 where "RPC_VERSION = 5"
definition RPC_VERSION_MINOR :: u8 where "RPC_VERSION_MINOR = 0"
definition COMMON_HEADER_LEN :: u16 where "COMMON_HEADER_LEN = 16"

definition PFC_FIRST_FRAG :: u8 where "PFC_FIRST_FRAG = 0x01"
definition PFC_LAST_FRAG :: u8 where "PFC_LAST_FRAG = 0x02"
definition PFC_OBJECT_UUID :: u8 where "PFC_OBJECT_UUID = 0x80"

definition SecurityTrailer_LEN :: nat where "SecurityTrailer_LEN = 8"

lemmas pdu_consts = RPC_VERSION_def RPC_VERSION_MINOR_def COMMON_HEADER_LEN_def
  PFC_FIRST_FRAG_def PFC_LAST_FRAG_def PFC_OBJECT_UUID_def SecurityTrailer_LEN_def

text \<open>The bytes of a number in a byte order, and the two functions that write them into a slice.\<close>

definition u16_wire :: "u16 \<Rightarrow> ByteOrder \<Rightarrow> bytes" where
  "u16_wire v bo =
     (case bo of ByteOrder_Little \<Rightarrow> u16_to_le_bytes v | ByteOrder_Big \<Rightarrow> u16_to_be_bytes v)"

definition u32_wire :: "u32 \<Rightarrow> ByteOrder \<Rightarrow> bytes" where
  "u32_wire v bo =
     (case bo of ByteOrder_Little \<Rightarrow> u32_to_le_bytes v | ByteOrder_Big \<Rightarrow> u32_to_be_bytes v)"

definition write_u16 :: "bytes \<Rightarrow> u16 \<Rightarrow> ByteOrder \<Rightarrow> (bytes, 'e) result" where
  "write_u16 bs v bo =
     (let encoded = (case bo of ByteOrder_Little \<Rightarrow> u16_to_le_bytes v | ByteOrder_Big \<Rightarrow> u16_to_be_bytes v)
      in copy_from_slice bs encoded)"

definition write_u32 :: "bytes \<Rightarrow> u32 \<Rightarrow> ByteOrder \<Rightarrow> (bytes, 'e) result" where
  "write_u32 bs v bo =
     (let encoded = (case bo of ByteOrder_Little \<Rightarrow> u32_to_le_bytes v | ByteOrder_Big \<Rightarrow> u32_to_be_bytes v)
      in copy_from_slice bs encoded)"

definition read_u16 :: "bytes \<Rightarrow> ByteOrder \<Rightarrow> (u16, 'e) result" where
  "read_u16 bs bo =
     and_then (idx bs 0) (\<lambda>a. and_then (idx bs 1) (\<lambda>b.
       Ok (case bo of ByteOrder_Little \<Rightarrow> u16_from_le_bytes a b
           | ByteOrder_Big \<Rightarrow> u16_from_be_bytes a b)))"

definition read_u32 :: "bytes \<Rightarrow> ByteOrder \<Rightarrow> (u32, 'e) result" where
  "read_u32 bs bo =
     and_then (idx bs 0) (\<lambda>a. and_then (idx bs 1) (\<lambda>b.
     and_then (idx bs 2) (\<lambda>c. and_then (idx bs 3) (\<lambda>d.
       Ok (case bo of ByteOrder_Little \<Rightarrow> u32_from_le_bytes a b c d
           | ByteOrder_Big \<Rightarrow> u32_from_be_bytes a b c d)))))"

section \<open>Security trailer\<close>

record SecurityTrailer =
  tr_auth_type :: RpcAuthType
  tr_auth_level :: AuthLevel
  auth_pad_length :: u8
  auth_reserved :: u8
  tr_auth_context_id :: u32

definition SecurityTrailer_encode :: "SecurityTrailer \<Rightarrow> (bytes, 'e) result" where
  "SecurityTrailer_encode t =
     and_then (set_idx (replicate SecurityTrailer_LEN 0) 0 (RpcAuthType_as_u8 (tr_auth_type t))) (\<lambda>bs.
     and_then (set_idx bs 1 (AuthLevel_as_u8 (tr_auth_level t))) (\<lambda>bs.
     and_then (set_idx bs 2 (auth_pad_length t)) (\<lambda>bs.
     and_then (set_idx bs 3 (auth_reserved t)) (\<lambda>bs.
       on_slice bs 4 8 (\<lambda>s. copy_from_slice s (u32_to_le_bytes (tr_auth_context_id t)))))))"

text \<open>The layout these writes produce.\<close>

definition SecurityTrailer_wire :: "SecurityTrailer \<Rightarrow> bytes" where
  "SecurityTrailer_wire t =
     [RpcAuthType_as_u8 (tr_auth_type t), AuthLevel_as_u8 (tr_auth_level t),
      auth_pad_length t, auth_reserved t] @ u32_to_le_bytes (tr_auth_context_id t)"

definition SecurityTrailer_decode :: "bytes \<Rightarrow> (SecurityTrailer, Error) result" where
  "SecurityTrailer_decode bs =
     (if length bs < SecurityTrailer_LEN then Err (InvalidPdu ''security trailer requires 8 bytes'')
      else
        and_then (idx bs 0) (\<lambda>b0.
        and_then (map_err (\<lambda>_. InvalidPdu ''unsupported RPC auth type'') (RpcAuthType_try_from b0)) (\<lambda>ty.
        and_then (idx bs 1) (\<lambda>b1.
        and_then (map_err (\<lambda>_. InvalidPdu ''unsupported RPC auth level'') (AuthLevel_try_from b1)) (\<lambda>lv.
        and_then (idx bs 2) (\<lambda>pad.
        and_then (idx bs 3) (\<lambda>rsv.
        and_then (le32_at bs 4) (\<lambda>cid.
          Ok \<lparr>tr_auth_type = ty, tr_auth_level = lv, auth_pad_length = pad,
              auth_reserved = rsv, tr_auth_context_id = cid\<rparr>))))))))"

section \<open>PDU types\<close>

datatype PduType =
    PduType_Request | PduType_Ping | PduType_Response | PduType_Fault | PduType_Working
  | PduType_NoCall | PduType_Reject | PduType_Ack | PduType_ClCancel | PduType_Fack
  | PduType_CancelAck | PduType_Bind | PduType_BindAck | PduType_BindNak
  | PduType_AlterContext | PduType_AlterContextResponse | PduType_Auth3 | PduType_Shutdown
  | PduType_CoCancel | PduType_Orphaned

primrec PduType_as_u8 :: "PduType \<Rightarrow> u8" where
  "PduType_as_u8 PduType_Request = 0x00"
| "PduType_as_u8 PduType_Ping = 0x01"
| "PduType_as_u8 PduType_Response = 0x02"
| "PduType_as_u8 PduType_Fault = 0x03"
| "PduType_as_u8 PduType_Working = 0x04"
| "PduType_as_u8 PduType_NoCall = 0x05"
| "PduType_as_u8 PduType_Reject = 0x06"
| "PduType_as_u8 PduType_Ack = 0x07"
| "PduType_as_u8 PduType_ClCancel = 0x08"
| "PduType_as_u8 PduType_Fack = 0x09"
| "PduType_as_u8 PduType_CancelAck = 0x0A"
| "PduType_as_u8 PduType_Bind = 0x0B"
| "PduType_as_u8 PduType_BindAck = 0x0C"
| "PduType_as_u8 PduType_BindNak = 0x0D"
| "PduType_as_u8 PduType_AlterContext = 0x0E"
| "PduType_as_u8 PduType_AlterContextResponse = 0x0F"
| "PduType_as_u8 PduType_Auth3 = 0x10"
| "PduType_as_u8 PduType_Shutdown = 0x11"
| "PduType_as_u8 PduType_CoCancel = 0x12"
| "PduType_as_u8 PduType_Orphaned = 0x13"

definition PduType_try_from :: "u8 \<Rightarrow> (PduType, Error) result" where
  "PduType_try_from v =
     (if v = 0x00 then Ok PduType_Request
      else if v = 0x01 then Ok PduType_Ping
      else if v = 0x02 then Ok PduType_Response
      else if v = 0x03 then Ok PduType_Fault
      else if v = 0x04 then Ok PduType_Working
      else if v = 0x05 then Ok PduType_NoCall
      else if v = 0x06 then Ok PduType_Reject
      else if v = 0x07 then Ok PduType_Ack
      else if v = 0x08 then Ok PduType_ClCancel
      else if v = 0x09 then Ok PduType_Fack
      else if v = 0x0A then Ok PduType_CancelAck
      else if v = 0x0B then Ok PduType_Bind
      else if v = 0x0C then Ok PduType_BindAck
      else if v = 0x0D then Ok PduType_BindNak
      else if v = 0x0E then Ok PduType_AlterContext
      else if v = 0x0F then Ok PduType_AlterContextResponse
      else if v = 0x10 then Ok PduType_Auth3
      else if v = 0x11 then Ok PduType_Shutdown
      else if v = 0x12 then Ok PduType_CoCancel
      else if v = 0x13 then Ok PduType_Orphaned
      else Err (InvalidPduType v))"

section \<open>Common header\<close>

record PduHeader =
  rpc_vers :: u8
  rpc_vers_minor :: u8
  ptype :: PduType
  pfc_flags :: u8
  packed_drep :: u8x4
  frag_length :: u16
  auth_length :: u16
  call_id :: u32

definition PduHeader_new :: "ndr_crate \<Rightarrow> PduType \<Rightarrow> u8 \<Rightarrow> u32 \<Rightarrow> PduHeader" where
  "PduHeader_new N ty flags cid =
     \<lparr>rpc_vers = RPC_VERSION, rpc_vers_minor = RPC_VERSION_MINOR, ptype = ty, pfc_flags = flags,
      packed_drep = windows_default_drep N, frag_length = COMMON_HEADER_LEN, auth_length = 0,
      call_id = cid\<rparr>"

definition PduHeader_byte_order :: "ndr_crate \<Rightarrow> PduHeader \<Rightarrow> ByteOrder" where
  "PduHeader_byte_order N h =
     (case drep_from_bytes N (packed_drep h) of Inr bo \<Rightarrow> bo | Inl _ \<Rightarrow> ByteOrder_Little)"

fun drep_bytes :: "u8x4 \<Rightarrow> bytes" where
  "drep_bytes (a, b, c, d) = [a, b, c, d]"

definition PduHeader_encode :: "ndr_crate \<Rightarrow> PduHeader \<Rightarrow> (bytes, 'e) result" where
  "PduHeader_encode N h =
     and_then (set_idx (replicate (unat COMMON_HEADER_LEN) 0) 0 (rpc_vers h)) (\<lambda>bs.
     and_then (set_idx bs 1 (rpc_vers_minor h)) (\<lambda>bs.
     and_then (set_idx bs 2 (PduType_as_u8 (ptype h))) (\<lambda>bs.
     and_then (set_idx bs 3 (pfc_flags h)) (\<lambda>bs.
     and_then (on_slice bs 4 8 (\<lambda>s. copy_from_slice s (drep_bytes (packed_drep h)))) (\<lambda>bs.
     and_then (on_slice bs 8 10 (\<lambda>s. write_u16 s (frag_length h) (PduHeader_byte_order N h))) (\<lambda>bs.
     and_then (on_slice bs 10 12 (\<lambda>s. write_u16 s (auth_length h) (PduHeader_byte_order N h))) (\<lambda>bs.
       on_slice bs 12 16 (\<lambda>s. write_u32 s (call_id h) (PduHeader_byte_order N h)))))))))"

text \<open>The layout these writes produce.\<close>

definition PduHeader_wire :: "ndr_crate \<Rightarrow> PduHeader \<Rightarrow> bytes" where
  "PduHeader_wire N h =
     [rpc_vers h, rpc_vers_minor h, PduType_as_u8 (ptype h), pfc_flags h]
     @ drep_bytes (packed_drep h)
     @ u16_wire (frag_length h) (PduHeader_byte_order N h)
     @ u16_wire (auth_length h) (PduHeader_byte_order N h)
     @ u32_wire (call_id h) (PduHeader_byte_order N h)"

definition PduHeader_decode :: "ndr_crate \<Rightarrow> bytes \<Rightarrow> (PduHeader, Error) result" where
  "PduHeader_decode N bs =
     (if length bs < unat COMMON_HEADER_LEN
      then Err (InvalidPdu ''common header requires 16 bytes'')
      else
        and_then (idx bs 4) (\<lambda>d0. and_then (idx bs 5) (\<lambda>d1.
        and_then (idx bs 6) (\<lambda>d2. and_then (idx bs 7) (\<lambda>d3.
        and_then (of_sum Error_from_NdrError (drep_from_bytes N (d0, d1, d2, d3))) (\<lambda>byte_order.
        and_then (idx bs 0) (\<lambda>vers.
        and_then (idx bs 1) (\<lambda>minor.
        and_then (and_then (idx bs 2) PduType_try_from) (\<lambda>ty.
        and_then (idx bs 3) (\<lambda>flags.
        and_then (and_then (slice bs 8 10) (\<lambda>s. read_u16 s byte_order)) (\<lambda>frag.
        and_then (and_then (slice bs 10 12) (\<lambda>s. read_u16 s byte_order)) (\<lambda>auth.
        and_then (and_then (slice bs 12 16) (\<lambda>s. read_u32 s byte_order)) (\<lambda>cid.
          let header =
            \<lparr>rpc_vers = vers, rpc_vers_minor = minor, ptype = ty, pfc_flags = flags,
             packed_drep = (d0, d1, d2, d3), frag_length = frag, auth_length = auth,
             call_id = cid\<rparr>
          in if rpc_vers header \<noteq> RPC_VERSION
             then Err (InvalidPdu ''unsupported RPC major version'')
             else Ok header)))))))))))))"

section \<open>Packets\<close>

record PduPacket =
  header :: PduHeader
  body :: bytes
  security_trailer :: "SecurityTrailer option"
  auth_value :: bytes

definition PduPacket_new :: "PduHeader \<Rightarrow> bytes \<Rightarrow> bytes \<Rightarrow> PduPacket" where
  "PduPacket_new h b a =
     \<lparr>header = h, body = b, security_trailer = None, auth_value = a\<rparr>"

definition PduPacket_with_security_trailer ::
    "PduHeader \<Rightarrow> bytes \<Rightarrow> SecurityTrailer \<Rightarrow> bytes \<Rightarrow> PduPacket" where
  "PduPacket_with_security_trailer h b t a =
     \<lparr>header = h, body = b, security_trailer = Some t, auth_value = a\<rparr>"

definition PduPacket_encode :: "ndr_crate \<Rightarrow> PduPacket \<Rightarrow> (bytes, Error) result" where
  "PduPacket_encode N p =
     (let body_len = length (body p); auth_len = length (auth_value p) in
      if auth_len > 65535 then Err (InvalidPdu ''auth value is too large'')
      else if auth_len > 0 \<and> security_trailer p = None
        then Err (InvalidPdu ''auth value requires security trailer'')
      else
        let (padding_len, trailer_len) =
              (case security_trailer p of
                 Some t \<Rightarrow> (unat (auth_pad_length t), SecurityTrailer_LEN)
               | None \<Rightarrow> (0, 0));
            frag_len = unat COMMON_HEADER_LEN + body_len + padding_len + trailer_len + auth_len
        in if frag_len > 65535 then Err (InvalidPdu ''fragment is too large'')
           else
             and_then (PduHeader_encode N
                 ((header p)\<lparr>frag_length := of_nat frag_len, auth_length := of_nat auth_len\<rparr>)) (\<lambda>header_bytes.
             let bs = header_bytes @ body p in
             and_then (case security_trailer p of
                 Some t \<Rightarrow> and_then (SecurityTrailer_encode t) (\<lambda>trailer_bytes.
                   Ok (bs @ replicate (unat (auth_pad_length t)) 0 @ trailer_bytes))
               | None \<Rightarrow> Ok bs) (\<lambda>bs.
             Ok (bs @ auth_value p))))"

definition PduPacket_decode :: "ndr_crate \<Rightarrow> bytes \<Rightarrow> (PduPacket, Error) result" where
  "PduPacket_decode N bs =
     and_then (PduHeader_decode N bs) (\<lambda>h.
       let frag_len = unat (frag_length h); auth_len = unat (auth_length h) in
       if frag_len < unat COMMON_HEADER_LEN
         then Err (InvalidPdu ''fragment length is smaller than common header'')
       else if length bs \<noteq> frag_len
         then Err (InvalidPdu ''fragment length does not match input length'')
       else if auth_len > frag_len - unat COMMON_HEADER_LEN
         then Err (InvalidPdu ''auth length exceeds fragment body'')
       else
         and_then
           (if auth_len = 0 then Ok (frag_len, None)
            else
              let auth_start = frag_len - auth_len in
              and_then (ok_or (checked_sub auth_start SecurityTrailer_LEN)
                          (InvalidPdu ''auth value requires security trailer'')) (\<lambda>trailer_start.
              if trailer_start < unat COMMON_HEADER_LEN
                then Err (InvalidPdu ''auth value requires security trailer'')
              else
                and_then (and_then (slice bs trailer_start auth_start) SecurityTrailer_decode) (\<lambda>trailer.
                and_then (ok_or (checked_sub trailer_start (unat (auth_pad_length trailer)))
                            (InvalidPdu ''auth padding exceeds fragment body'')) (\<lambda>body_end.
                if body_end < unat COMMON_HEADER_LEN
                  then Err (InvalidPdu ''auth padding exceeds fragment body'')
                else Ok (body_end, Some trailer)))))
           (\<lambda>(body_end, trailer).
         and_then (slice bs (unat COMMON_HEADER_LEN) body_end) (\<lambda>b.
         and_then (slice bs (frag_len - auth_len) frag_len) (\<lambda>a.
           Ok \<lparr>header = h, body = b, security_trailer = trailer, auth_value = a\<rparr>))))"

definition PduPacket_from_body_with_flags ::
    "ndr_crate \<Rightarrow> PduType \<Rightarrow> u32 \<Rightarrow> u8 \<Rightarrow> bytes \<Rightarrow> (PduPacket, 'e) result" where
  "PduPacket_from_body_with_flags N ty cid flags b =
     (let h = PduHeader_new N ty flags cid in
      and_then (u16_add COMMON_HEADER_LEN (of_nat (length b))) (\<lambda>frag.
        Ok \<lparr>header = h\<lparr>frag_length := frag\<rparr>, body = b, security_trailer = None, auth_value = []\<rparr>))"

definition PduPacket_from_body ::
    "ndr_crate \<Rightarrow> PduType \<Rightarrow> u32 \<Rightarrow> bytes \<Rightarrow> (PduPacket, 'e) result" where
  "PduPacket_from_body N ty cid b =
     PduPacket_from_body_with_flags N ty cid (PFC_FIRST_FRAG OR PFC_LAST_FRAG) b"

section \<open>Bodies\<close>

record BindPdu =
  bind_max_xmit_frag :: u16
  bind_max_recv_frag :: u16
  bind_assoc_group_id :: u32
  bind_presentation_context_list :: bytes

definition BindPdu_encode :: "BindPdu \<Rightarrow> bytes" where
  "BindPdu_encode b =
     u16_to_le_bytes (bind_max_xmit_frag b) @ u16_to_le_bytes (bind_max_recv_frag b)
     @ u32_to_le_bytes (bind_assoc_group_id b) @ bind_presentation_context_list b"

definition BindPdu_decode :: "bytes \<Rightarrow> (BindPdu, Error) result" where
  "BindPdu_decode bs =
     (if length bs < 8 then Err (InvalidPdu ''bind PDU body requires at least 8 bytes'')
      else
        and_then (le16_at bs 0) (\<lambda>xmit.
        and_then (le16_at bs 2) (\<lambda>recv.
        and_then (le32_at bs 4) (\<lambda>grp.
        and_then (slice_from bs 8) (\<lambda>ctxs.
          Ok \<lparr>bind_max_xmit_frag = xmit, bind_max_recv_frag = recv, bind_assoc_group_id = grp,
              bind_presentation_context_list = ctxs\<rparr>)))))"

record 'u RequestPdu =
  req_alloc_hint :: u32
  req_ctx_id :: u16
  req_opnum :: u16
  req_object :: "'u option"
  req_stub_data :: bytes

definition RequestPdu_encode :: "'u uuid_crate \<Rightarrow> 'u RequestPdu \<Rightarrow> bytes" where
  "RequestPdu_encode U r =
     u32_to_le_bytes (req_alloc_hint r) @ u16_to_le_bytes (req_ctx_id r)
     @ u16_to_le_bytes (req_opnum r)
     @ (case req_object r of Some u \<Rightarrow> uuid_as_bytes U u | None \<Rightarrow> [])
     @ req_stub_data r"

definition RequestPdu_decode ::
    "'u uuid_crate \<Rightarrow> bytes \<Rightarrow> bool \<Rightarrow> ('u RequestPdu, Error) result" where
  "RequestPdu_decode U bs has_object =
     (let object_len = (if has_object then 16 else 0) in
      if length bs < 8 + object_len then Err (InvalidPdu ''request PDU body is too short'')
      else
        and_then
          (if has_object
           then and_then (slice bs 8 24) (\<lambda>s.
                and_then (ok_or (uuid_from_slice U s) (InvalidPdu ''request object UUID is invalid''))
                  (\<lambda>u. Ok (Some u)))
           else Ok None) (\<lambda>obj.
        and_then (le32_at bs 0) (\<lambda>hint.
        and_then (le16_at bs 4) (\<lambda>ctx.
        and_then (le16_at bs 6) (\<lambda>opn.
        and_then (slice_from bs (8 + object_len)) (\<lambda>stub.
          Ok \<lparr>req_alloc_hint = hint, req_ctx_id = ctx, req_opnum = opn, req_object = obj,
              req_stub_data = stub\<rparr>))))))"

record ResponsePdu =
  resp_alloc_hint :: u32
  resp_ctx_id :: u16
  resp_cancel_count :: u8
  resp_stub_data :: bytes

definition ResponsePdu_encode :: "ResponsePdu \<Rightarrow> bytes" where
  "ResponsePdu_encode r =
     u32_to_le_bytes (resp_alloc_hint r) @ u16_to_le_bytes (resp_ctx_id r)
     @ [resp_cancel_count r] @ [0] @ resp_stub_data r"

definition ResponsePdu_decode :: "bytes \<Rightarrow> (ResponsePdu, Error) result" where
  "ResponsePdu_decode bs =
     (if length bs < 8 then Err (InvalidPdu ''response PDU body requires at least 8 bytes'')
      else
        and_then (le32_at bs 0) (\<lambda>hint.
        and_then (le16_at bs 4) (\<lambda>ctx.
        and_then (idx bs 6) (\<lambda>cancel.
        and_then (slice_from bs 8) (\<lambda>stub.
          Ok \<lparr>resp_alloc_hint = hint, resp_ctx_id = ctx, resp_cancel_count = cancel,
              resp_stub_data = stub\<rparr>)))))"

record FaultPdu =
  fault_alloc_hint :: u32
  fault_ctx_id :: u16
  fault_cancel_count :: u8
  fault_status :: u32
  fault_stub_data :: bytes

definition FaultPdu_encode :: "FaultPdu \<Rightarrow> bytes" where
  "FaultPdu_encode f =
     u32_to_le_bytes (fault_alloc_hint f) @ u16_to_le_bytes (fault_ctx_id f)
     @ [fault_cancel_count f] @ [0] @ u32_to_le_bytes (fault_status f) @ fault_stub_data f"

definition FaultPdu_decode :: "bytes \<Rightarrow> (FaultPdu, Error) result" where
  "FaultPdu_decode bs =
     (if length bs < 12 then Err (InvalidPdu ''fault PDU body requires at least 12 bytes'')
      else
        and_then (le32_at bs 0) (\<lambda>hint.
        and_then (le16_at bs 4) (\<lambda>ctx.
        and_then (idx bs 6) (\<lambda>cancel.
        and_then (le32_at bs 8) (\<lambda>status.
        and_then (slice_from bs 12) (\<lambda>stub.
          Ok \<lparr>fault_alloc_hint = hint, fault_ctx_id = ctx, fault_cancel_count = cancel,
              fault_status = status, fault_stub_data = stub\<rparr>))))))"

primrec RejectReason_as_u16 :: "RejectReason \<Rightarrow> u16" where
  "RejectReason_as_u16 RejectReason_ReasonNotSpecified = 0x0000"
| "RejectReason_as_u16 RejectReason_AbstractSyntaxNotSupported = 0x0001"
| "RejectReason_as_u16 RejectReason_ProposedTransferSyntaxNotSupported = 0x0002"
| "RejectReason_as_u16 RejectReason_LocalLimitExceeded = 0x0003"
| "RejectReason_as_u16 RejectReason_ProtocolVersionNotSpecified = 0x0004"
| "RejectReason_as_u16 RejectReason_AuthenticationTypeNotRecognized = 0x0008"
| "RejectReason_as_u16 RejectReason_InvalidChecksum = 0x0009"

definition RejectReason_try_from :: "u16 \<Rightarrow> (RejectReason, Error) result" where
  "RejectReason_try_from v =
     (if v = 0x0000 then Ok RejectReason_ReasonNotSpecified
      else if v = 0x0001 then Ok RejectReason_AbstractSyntaxNotSupported
      else if v = 0x0002 then Ok RejectReason_ProposedTransferSyntaxNotSupported
      else if v = 0x0003 then Ok RejectReason_LocalLimitExceeded
      else if v = 0x0004 then Ok RejectReason_ProtocolVersionNotSpecified
      else if v = 0x0008 then Ok RejectReason_AuthenticationTypeNotRecognized
      else if v = 0x0009 then Ok RejectReason_InvalidChecksum
      else Err (InvalidPdu ''unknown bind nak reject reason''))"

section \<open>Packets from bodies\<close>

definition PduPacket_from_bind :: "ndr_crate \<Rightarrow> u32 \<Rightarrow> BindPdu \<Rightarrow> (PduPacket, 'e) result" where
  "PduPacket_from_bind N cid b = PduPacket_from_body N PduType_Bind cid (BindPdu_encode b)"

definition PduPacket_from_request_with_flags ::
    "ndr_crate \<Rightarrow> 'u uuid_crate \<Rightarrow> u32 \<Rightarrow> u8 \<Rightarrow> 'u RequestPdu \<Rightarrow> (PduPacket, 'e) result" where
  "PduPacket_from_request_with_flags N U cid flags r =
     (let h = PduHeader_new N PduType_Request
                (flags OR (case req_object r of Some _ \<Rightarrow> PFC_OBJECT_UUID | None \<Rightarrow> 0)) cid;
          b = RequestPdu_encode U r
      in and_then (u16_add COMMON_HEADER_LEN (of_nat (length b))) (\<lambda>frag.
           Ok \<lparr>header = h\<lparr>frag_length := frag\<rparr>, body = b, security_trailer = None,
               auth_value = []\<rparr>))"

definition PduPacket_from_request ::
    "ndr_crate \<Rightarrow> 'u uuid_crate \<Rightarrow> u32 \<Rightarrow> 'u RequestPdu \<Rightarrow> (PduPacket, 'e) result" where
  "PduPacket_from_request N U cid r =
     PduPacket_from_request_with_flags N U cid (PFC_FIRST_FRAG OR PFC_LAST_FRAG) r"

definition PduPacket_from_response_with_flags ::
    "ndr_crate \<Rightarrow> u32 \<Rightarrow> u8 \<Rightarrow> ResponsePdu \<Rightarrow> (PduPacket, 'e) result" where
  "PduPacket_from_response_with_flags N cid flags r =
     PduPacket_from_body_with_flags N PduType_Response cid flags (ResponsePdu_encode r)"

definition PduPacket_from_response :: "ndr_crate \<Rightarrow> u32 \<Rightarrow> ResponsePdu \<Rightarrow> (PduPacket, 'e) result" where
  "PduPacket_from_response N cid r =
     PduPacket_from_response_with_flags N cid (PFC_FIRST_FRAG OR PFC_LAST_FRAG) r"

definition PduPacket_from_fault :: "ndr_crate \<Rightarrow> u32 \<Rightarrow> FaultPdu \<Rightarrow> (PduPacket, 'e) result" where
  "PduPacket_from_fault N cid f = PduPacket_from_body N PduType_Fault cid (FaultPdu_encode f)"

section \<open>Enums and scalars\<close>

interpretation pdu_type_enum: wire_enum PduType_as_u8 PduType_try_from
proof unfold_locales
  show "PduType_try_from (PduType_as_u8 x) = Ok x" for x
    by (cases x) (simp_all add: PduType_try_from_def)
  show "PduType_try_from v = Ok x \<Longrightarrow> PduType_as_u8 x = v" for v x
    by (auto simp: PduType_try_from_def split: if_splits)
  show "PduType_try_from v \<noteq> Panic" for v
    by (simp add: PduType_try_from_def)
qed

interpretation reject_reason_enum: wire_enum RejectReason_as_u16 RejectReason_try_from
proof unfold_locales
  show "RejectReason_try_from (RejectReason_as_u16 x) = Ok x" for x
    by (cases x) (simp_all add: RejectReason_try_from_def)
  show "RejectReason_try_from v = Ok x \<Longrightarrow> RejectReason_as_u16 x = v" for v x
    by (auto simp: RejectReason_try_from_def split: if_splits)
  show "RejectReason_try_from v \<noteq> Panic" for v
    by (simp add: RejectReason_try_from_def)
qed

lemmas enum_simps [simp] = pdu_type_enum.try_from_as_num reject_reason_enum.try_from_as_num
  auth_level_enum.try_from_as_num auth_type_enum.try_from_as_num
  pdu_type_enum.try_from_safe reject_reason_enum.try_from_safe
  auth_level_enum.try_from_safe auth_type_enum.try_from_safe

lemma COMMON_HEADER_LEN_nat [simp]: "unat COMMON_HEADER_LEN = 16"
  by (simp add: COMMON_HEADER_LEN_def)

lemma length_wire [simp]: "length (u16_wire v bo) = 2" "length (u32_wire w bo) = 4"
  by (cases bo; simp add: u16_wire_def u32_wire_def)+

lemma read_write [simp]:
  "read_u16 (u16_wire v bo) bo = Ok v" "read_u32 (u32_wire w bo) bo = Ok w"
  by (cases bo; simp add: read_u16_def read_u32_def u16_wire_def u32_wire_def byte_defs)+

lemma write_read:
  "read_u16 [a, b] bo = Ok v \<Longrightarrow> u16_wire v bo = [a, b]"
  "read_u32 [a, b, c, d] bo = Ok w \<Longrightarrow> u32_wire w bo = [a, b, c, d]"
  by (cases bo;
      auto simp: read_u16_def read_u32_def u16_wire_def u32_wire_def u16_from_be_bytes_def
        u32_from_be_bytes_def u16_to_be_bytes_def u32_to_be_bytes_def)+

lemma read_safe:
  "2 \<le> length bs \<Longrightarrow> read_u16 bs bo \<noteq> Panic" "4 \<le> length bs \<Longrightarrow> read_u32 bs bo \<noteq> Panic"
  by (auto simp: read_u16_def read_u32_def panic_simps)

section \<open>Security trailer\<close>

lemma length_SecurityTrailer_wire [simp]: "length (SecurityTrailer_wire t) = 8"
  by (simp add: SecurityTrailer_wire_def)

lemma SecurityTrailer_encode_eq [simp]: "SecurityTrailer_encode t = Ok (SecurityTrailer_wire t)"
  by (simp add: SecurityTrailer_encode_def SecurityTrailer_wire_def SecurityTrailer_LEN_def set_idx_def
      on_slice_def slice_def copy_from_slice_def u32_to_le_bytes_def numeral_eq_Suc)

lemma SecurityTrailer_decode_encode [simp]:
  "SecurityTrailer_decode (SecurityTrailer_wire t @ rest) = Ok t"
  by (simp add: SecurityTrailer_decode_def SecurityTrailer_wire_def SecurityTrailer_LEN_def
      u32_to_le_bytes_def)

lemma SecurityTrailer_decode_safe [simp]: "SecurityTrailer_decode bs \<noteq> Panic"
  by (auto simp: SecurityTrailer_decode_def SecurityTrailer_LEN_def panic_simps)

lemma length_8E:
  assumes "length bs = 8"
  obtains a b c d e f g h where "bs = [a, b, c, d, e, f, g, h]"
  using assms by (auto simp: numeral_eq_Suc length_Suc_conv)

lemma SecurityTrailer_wire_decode:
  assumes "SecurityTrailer_decode bs = Ok t" "length bs = 8"
  shows "SecurityTrailer_wire t = bs"
  using assms
  by (auto elim!: length_8E simp: SecurityTrailer_decode_def SecurityTrailer_wire_def
      SecurityTrailer_LEN_def and_then_eq_Ok dest!: auth_level_enum.as_num_try_from auth_type_enum.as_num_try_from split: if_splits)

interpretation trailer_codec: fixed_codec SecurityTrailer_wire SecurityTrailer_decode
  "\<lambda>_. True" SecurityTrailer_LEN
  by unfold_locales (simp_all add: SecurityTrailer_LEN_def)

section \<open>Header\<close>

definition PduHeader_valid :: "ndr_crate \<Rightarrow> PduHeader \<Rightarrow> bool" where
  "PduHeader_valid N h \<longleftrightarrow> rpc_vers h = RPC_VERSION \<and> valid_drep N (packed_drep h)"

lemma length_PduHeader_wire [simp]: "length (PduHeader_wire N h) = 16"
  by (cases "packed_drep h") (simp add: PduHeader_wire_def)

lemma write_eq:
  "write_u16 bs v bo = (if length bs = 2 then Ok (u16_wire v bo) else Panic)"
  "write_u32 bs w bo = (if length bs = 4 then Ok (u32_wire w bo) else Panic)"
  by (cases bo; simp add: write_u16_def write_u32_def u16_wire_def u32_wire_def copy_from_slice_def)+

lemma PduHeader_encode_eq [simp]: "PduHeader_encode N h = Ok (PduHeader_wire N h)"
proof -
  obtain a b c d where "packed_drep h = (a, b, c, d)" by (cases "packed_drep h")
  moreover obtain f0 f1 a0 a1 c0 c1 c2 c3
    where "u16_wire (frag_length h) (PduHeader_byte_order N h) = [f0, f1]"
      "u16_wire (auth_length h) (PduHeader_byte_order N h) = [a0, a1]"
      "u32_wire (call_id h) (PduHeader_byte_order N h) = [c0, c1, c2, c3]"
    by (cases "PduHeader_byte_order N h") (auto simp: u16_wire_def u32_wire_def byte_defs)
  ultimately show ?thesis
    by (simp add: PduHeader_encode_def PduHeader_wire_def set_idx_def on_slice_def slice_def write_eq
        copy_from_slice_def numeral_eq_Suc)
qed

lemma PduHeader_decode_encode:
  assumes "PduHeader_valid N h"
  shows "PduHeader_decode N (PduHeader_wire N h @ rest) = Ok h"
proof -
  obtain d0 d1 d2 d3 where d: "packed_drep h = (d0, d1, d2, d3)"
    by (cases "packed_drep h")
  obtain bo where bo: "drep_from_bytes N (d0, d1, d2, d3) = Inr bo"
    using assms d by (auto simp: PduHeader_valid_def elim: valid_drepE)
  obtain f0 f1 a0 a1 c0 c1 c2 c3
    where w: "u16_wire (frag_length h) bo = [f0, f1]" "u16_wire (auth_length h) bo = [a0, a1]"
      "u32_wire (call_id h) bo = [c0, c1, c2, c3]"
    by (cases bo) (auto simp: u16_wire_def u32_wire_def byte_defs)
  have r: "read_u16 [f0, f1] bo = Ok (frag_length h)" "read_u16 [a0, a1] bo = Ok (auth_length h)"
     "read_u32 [c0, c1, c2, c3] bo = Ok (call_id h)"
    using w by (metis read_write)+
  show ?thesis
    using assms unfolding PduHeader_decode_def PduHeader_wire_def PduHeader_byte_order_def
    by (simp add: d bo w r PduHeader_valid_def slice_def Let_def)
qed

lemma length_ge_16E:
  assumes "16 \<le> length bs"
  obtains a b c d e f g h i j k l m n p q rest
  where "bs = a # b # c # d # e # f # g # h # i # j # k # l # m # n # p # q # rest"
proof -
  obtain ys zs where "bs = ys @ zs" "length ys = 16"
    using assms by (rule length_ge_split)
  then show ?thesis
    by (auto elim!: length_16E intro: that)
qed

lemma PduHeader_decode_Ok:
  assumes "PduHeader_decode N bs = Ok h"
  shows "16 \<le> length bs" "PduHeader_valid N h" "PduHeader_wire N h = take 16 bs"
proof -
  show len: "16 \<le> length bs"
    using assms by (auto simp: PduHeader_decode_def split: if_splits)
  then obtain a b c d e f g h' i j k l m n p q rest
    where bs: "bs = a # b # c # d # e # f # g # h' # i # j # k # l # m # n # p # q # rest"
    by (rule length_ge_16E)
  obtain bo where bo: "drep_from_bytes N (e, f, g, h') = Inr bo"
    using assms by (auto simp: PduHeader_decode_def bs and_then_eq_Ok split: if_splits)
  then show "PduHeader_valid N h" "PduHeader_wire N h = take 16 bs"
    using assms
    by (auto simp: PduHeader_decode_def bs and_then_eq_Ok slice_def Let_def PduHeader_valid_def
       valid_drep_def PduHeader_wire_def PduHeader_byte_order_def
       dest!: pdu_type_enum.as_num_try_from write_read split: if_splits)
qed

lemma PduHeader_decode_safe [simp]: "PduHeader_decode N bs \<noteq> Panic"
  by (auto simp: PduHeader_decode_def Let_def panic_simps read_safe slice_def)

interpretation header_codec: fixed_codec "PduHeader_wire N" "PduHeader_decode N"
    "PduHeader_valid N" 16 for N
  by unfold_locales (simp_all add: PduHeader_decode_encode)

section \<open>Packets: layout and framing\<close>

text \<open>
  The padding and the security trailer of a packet as they appear on the wire, its length there,
  and the packet with the two length fields that the encoder writes.
\<close>

definition PduPacket_pad :: "PduPacket \<Rightarrow> nat" where
  "PduPacket_pad p = (case security_trailer p of Some t \<Rightarrow> unat (auth_pad_length t) | None \<Rightarrow> 0)"

definition PduPacket_trailer :: "PduPacket \<Rightarrow> bytes" where
  "PduPacket_trailer p =
     (case security_trailer p of
        Some t \<Rightarrow> replicate (unat (auth_pad_length t)) 0 @ SecurityTrailer_wire t
      | None \<Rightarrow> [])"

definition PduPacket_size :: "PduPacket \<Rightarrow> nat" where
  "PduPacket_size p =
     16 + length (body p) + length (PduPacket_trailer p) + length (auth_value p)"

definition PduPacket_framed :: "PduPacket \<Rightarrow> PduPacket" where
  "PduPacket_framed p =
     p\<lparr>header := (header p)\<lparr>frag_length := of_nat (PduPacket_size p),
                           auth_length := of_nat (length (auth_value p))\<rparr>\<rparr>"

text \<open>
  A packet that survives the wire: a supported version, a known data representation, and a
  security trailer exactly when there is an authentication value.
\<close>

definition PduPacket_valid :: "ndr_crate \<Rightarrow> PduPacket \<Rightarrow> bool" where
  "PduPacket_valid N p \<longleftrightarrow>
     PduHeader_valid N (header p) \<and> (auth_value p = [] \<longleftrightarrow> security_trailer p = None)"

lemma PduPacket_framed_simps [simp]:
  "body (PduPacket_framed p) = body p"
  "security_trailer (PduPacket_framed p) = security_trailer p"
  "auth_value (PduPacket_framed p) = auth_value p"
  "header (PduPacket_framed p) = (header p)\<lparr>frag_length := of_nat (PduPacket_size p),
     auth_length := of_nat (length (auth_value p))\<rparr>"
  by (simp_all add: PduPacket_framed_def)

lemma PduPacket_encode_Ok_iff:
  "PduPacket_encode N p = Ok bs \<longleftrightarrow>
     (auth_value p = [] \<or> security_trailer p \<noteq> None) \<and> PduPacket_size p \<le> 65535 \<and>
     bs = PduHeader_wire N (header (PduPacket_framed p)) @ body p @ PduPacket_trailer p @ auth_value p"
  by (cases "security_trailer p")
    (auto simp: PduPacket_encode_def PduPacket_size_def PduPacket_trailer_def Let_def
       SecurityTrailer_LEN_def ac_simps split: if_splits)

lemma PduPacket_encode_safe [simp]: "PduPacket_encode N p \<noteq> Panic"
  by (simp add: PduPacket_encode_def Let_def split: option.splits)

lemma length_PduPacket_encode: "PduPacket_encode N p = Ok bs \<Longrightarrow> length bs = PduPacket_size p"
  by (auto simp: PduPacket_encode_Ok_iff PduPacket_size_def)

lemma PduHeader_valid_lengths [simp]:
  "PduHeader_valid N (h\<lparr>frag_length := f, auth_length := a\<rparr>) = PduHeader_valid N h"
  by (simp add: PduHeader_valid_def)

lemma PduPacket_decode_plain:
  assumes "PduHeader_decode N bs = Ok h" "unat (frag_length h) = length bs" "auth_length h = 0"
  shows "PduPacket_decode N bs =
     Ok \<lparr>header = h, body = drop 16 bs, security_trailer = None, auth_value = []\<rparr>"
  using assms PduHeader_decode_Ok(1) [OF assms(1)] by (simp add: PduPacket_decode_def)

lemma PduPacket_decode_auth:
  assumes "PduHeader_decode N bs = Ok h" "unat (frag_length h) = length bs"
    and "unat (auth_length h) = length a" "a \<noteq> []"
    and bs: "bs = hb @ b @ pad @ SecurityTrailer_wire t @ a"
    and len: "length hb = 16" "length pad = unat (auth_pad_length t)"
  shows "PduPacket_decode N bs =
     Ok \<lparr>header = h, body = b, security_trailer = Some t, auth_value = a\<rparr>"
  using assms(1-4) SecurityTrailer_decode_encode [of t "[]"] unfolding bs
  by (simp add: PduPacket_decode_def SecurityTrailer_LEN_def Let_def len checked_sub_def)

lemma PduPacket_decode_encode:
  assumes "PduPacket_valid N p" "PduPacket_encode N p = Ok bs"
  shows "PduPacket_decode N bs = Ok (PduPacket_framed p)"
proof -
  let ?h = "header (PduPacket_framed p)"
  from assms have size: "PduPacket_size p \<le> 65535"
    and bs: "bs = PduHeader_wire N ?h @ body p @ PduPacket_trailer p @ auth_value p"
    and v: "PduHeader_valid N (header p)"
    and t: "auth_value p = [] \<longleftrightarrow> security_trailer p = None"
    by (auto simp: PduPacket_encode_Ok_iff PduPacket_valid_def)
  have h: "PduHeader_decode N bs = Ok ?h"
    unfolding bs using v by (intro PduHeader_decode_encode) simp
  have f: "unat (frag_length ?h) = length bs"
    using size length_PduPacket_encode [OF assms(2)] by (simp add: unat_of_nat_u16)
  have a: "unat (auth_length ?h) = length (auth_value p)"
    using size by (simp add: unat_of_nat_u16 PduPacket_size_def)
  show ?thesis
  proof (cases "security_trailer p")
    case None
    with t have "auth_value p = []" by simp
    with None PduPacket_decode_plain [OF h f] show ?thesis
      by (simp add: bs PduPacket_trailer_def PduPacket_framed_def)
  next
    case (Some tr)
    with t have "auth_value p \<noteq> []" by simp
    from PduPacket_decode_auth [OF h f a this, of "PduHeader_wire N ?h" "body p"
        "replicate (unat (auth_pad_length tr)) 0" tr] Some
    show ?thesis
      by (simp add: bs PduPacket_trailer_def PduPacket_framed_def)
  qed
qed

text \<open>What a successful decoding says about its input, by the two shapes of packets.\<close>

lemma PduPacket_decode_cases:
  assumes "PduPacket_decode N bs = Ok p"
  obtains (plain) h where "PduHeader_decode N bs = Ok h" "unat (frag_length h) = length bs"
      "auth_length h = 0"
      "p = \<lparr>header = h, body = drop 16 bs, security_trailer = None, auth_value = []\<rparr>"
  | (auth) h b pad t a hb where "PduHeader_decode N bs = Ok h" "unat (frag_length h) = length bs"
      "unat (auth_length h) = length a" "a \<noteq> []"
      "bs = hb @ b @ pad @ SecurityTrailer_wire t @ a"
      "length hb = 16" "length pad = unat (auth_pad_length t)"
      "p = \<lparr>header = h, body = b, security_trailer = Some t, auth_value = a\<rparr>"
proof -
  from assms obtain h where h: "PduHeader_decode N bs = Ok h"
    by (auto simp: PduPacket_decode_def and_then_eq_Ok)
  let ?n = "length bs" and ?a = "unat (auth_length h)"
  from assms h have f: "unat (frag_length h) = ?n" and fa: "16 \<le> ?n" "?a \<le> ?n - 16"
    by (auto simp: PduPacket_decode_def Let_def split: if_splits)
  show ?thesis
  proof (cases "?a = 0")
    case True
    then have z: "auth_length h = 0" by (simp add: unat_eq_zero)
    then show ?thesis
      using plain [OF h f z] assms PduPacket_decode_plain [OF h f z] by simp
  next
    case False
    with assms h f fa obtain t where
      t: "SecurityTrailer_decode (take 8 (drop (?n - ?a - 8) bs)) = Ok t"
      and b1: "16 \<le> ?n - ?a - 8 - unat (auth_pad_length t)" 
      and b2: "unat (auth_pad_length t) \<le> ?n - ?a - 8" "8 \<le> ?n - ?a"
      and p: "p = \<lparr>header = h, body = take (?n - ?a - 8 - unat (auth_pad_length t) - 16) (drop 16 bs),
          security_trailer = Some t, auth_value = drop (?n - ?a) bs\<rparr>"
      by (auto simp: PduPacket_decode_def Let_def and_then_eq_Ok SecurityTrailer_LEN_def slice_def
          not_less split: if_splits)
    let ?e = "?n - ?a - 8 - unat (auth_pad_length t)"
    have st: "SecurityTrailer_wire t = take 8 (drop (?n - ?a - 8) bs)"
      using t b2 by (intro SecurityTrailer_wire_decode) auto
    have bs: "bs = take 16 bs @ take (?e - 16) (drop 16 bs) @ take (?n - ?a - 8 - ?e) (drop ?e bs)
        @ SecurityTrailer_wire t @ drop (?n - ?a) bs"
    proof -
      have "drop (?n - ?a - 8) bs = SecurityTrailer_wire t @ drop (?n - ?a) bs"
        using take_drop_split [of "?n - ?a - 8" "?n - ?a" bs] b2 by (simp add: st)
      moreover have "drop ?e bs = take (?n - ?a - 8 - ?e) (drop ?e bs) @ drop (?n - ?a - 8) bs"
        using take_drop_split [of ?e "?n - ?a - 8" bs] by simp
      moreover have "drop 16 bs = take (?e - 16) (drop 16 bs) @ drop ?e bs"
        using take_drop_split [of 16 ?e bs] b1 by simp
      ultimately show ?thesis
        by (metis append_take_drop_id)
    qed
    show ?thesis
      by (rule auth [OF h f _ _ bs]) (use False b1 b2 p fa in auto)
  qed
qed

lemma PduPacket_encode_decode:
  assumes "PduPacket_decode N bs = Ok p"
  shows "PduPacket_encode N p =
      Ok (take (16 + length (body p)) bs @ replicate (PduPacket_pad p) 0 @
          drop (16 + length (body p) + PduPacket_pad p) bs)"
    and "PduPacket_framed p = p" and "PduPacket_valid N p" and "PduPacket_size p = length bs"
proof -
  have len: "length bs < 65536" if "unat (frag_length h) = length bs" for h
    using unat_u16_less [of "frag_length h"] that by simp
  have fr: "(of_nat (length bs) :: u16) = frag_length h" if "unat (frag_length h) = length bs" for h
    by (simp flip: that)
  have "PduPacket_encode N p =
      Ok (take (16 + length (body p)) bs @ replicate (PduPacket_pad p) 0 @
          drop (16 + length (body p) + PduPacket_pad p) bs)
      \<and> PduPacket_framed p = p \<and> PduPacket_valid N p \<and> PduPacket_size p = length bs"
    using assms
  proof (cases rule: PduPacket_decode_cases)
    case (plain h)
    note H = PduHeader_decode_Ok [OF plain(1)]
    have size: "PduPacket_size p = length bs"
      using H(1) by (simp add: PduPacket_size_def plain PduPacket_trailer_def)
    then have fp: "PduPacket_framed p = p"
      using plain by (simp add: PduPacket_framed_def fr)
    show ?thesis
      using H size fp len [OF plain(2)] plain
      by (simp add: PduPacket_encode_Ok_iff PduPacket_valid_def PduPacket_pad_def PduPacket_trailer_def)
  next
    case (auth h b pad t a hb)
    note H = PduHeader_decode_Ok [OF auth(1)]
    have size: "PduPacket_size p = length bs"
      by (simp add: PduPacket_size_def auth(5-8) PduPacket_trailer_def)
    then have fp: "PduPacket_framed p = p"
      using fr [OF auth(2)] auth(3,8) by (simp add: PduPacket_framed_def flip: auth(3))
    have hb: "hb = PduHeader_wire N h"
      using H(3) auth(5,6) by simp
    show ?thesis
      using H(2) size fp len [OF auth(2)] auth(4,6-8) 
      by (simp add: PduPacket_encode_Ok_iff PduPacket_valid_def PduPacket_pad_def PduPacket_trailer_def auth(5) flip: hb)
  qed
  then show "PduPacket_encode N p =
      Ok (take (16 + length (body p)) bs @ replicate (PduPacket_pad p) 0 @
          drop (16 + length (body p) + PduPacket_pad p) bs)"
    and "PduPacket_framed p = p" and "PduPacket_valid N p" and "PduPacket_size p = length bs"
    by simp_all
qed

lemma PduPacket_decode_safe [simp]: "PduPacket_decode N bs \<noteq> Panic"
  by (auto simp: PduPacket_decode_def Let_def panic_simps and_then_eq_Ok SecurityTrailer_LEN_def
      slice_def split: if_splits)

section \<open>Bodies\<close>

lemma BindPdu_decode_encode: "BindPdu_decode (BindPdu_encode b) = Ok b"
  by (simp add: BindPdu_decode_def BindPdu_encode_def byte_defs)

lemma BindPdu_decode_safe: "BindPdu_decode bs \<noteq> Panic"
  by (auto simp: BindPdu_decode_def panic_simps)

lemma length_ge_8E:
  assumes "8 \<le> length bs"
  obtains a b c d e f g h rest where "bs = a # b # c # d # e # f # g # h # rest"
proof -
  obtain ys zs where "bs = ys @ zs" "length ys = 8"
    using assms by (rule length_ge_split)
  then show ?thesis
    by (auto elim!: length_8E intro: that)
qed

lemma BindPdu_encode_decode:
  assumes "BindPdu_decode bs = Ok b"
  shows "BindPdu_encode b = bs"
proof -
  have "8 \<le> length bs"
    using assms by (auto simp: BindPdu_decode_def split: if_splits)
  then show ?thesis
    using assms by (auto elim!: length_ge_8E simp: BindPdu_decode_def BindPdu_encode_def)
qed

interpretation bind_codec: exact_codec BindPdu_encode BindPdu_decode "\<lambda>_. True"
  by unfold_locales (simp_all add: BindPdu_decode_encode BindPdu_decode_safe BindPdu_encode_decode)

definition RequestPdu_valid :: "'u uuid_crate \<Rightarrow> bool \<Rightarrow> 'u RequestPdu \<Rightarrow> bool" where
  "RequestPdu_valid U has_object r \<longleftrightarrow> uuid_ok U \<and> (req_object r \<noteq> None \<longleftrightarrow> has_object)"

lemma RequestPdu_decode_encode:
  "RequestPdu_valid U has_object r \<Longrightarrow>
     RequestPdu_decode U (RequestPdu_encode U r) has_object = Ok r"
  by (auto simp: RequestPdu_valid_def RequestPdu_decode_def RequestPdu_encode_def byte_defs
      Let_def uuid_okD)

lemma RequestPdu_decode_safe: "RequestPdu_decode U bs has_object \<noteq> Panic"
  by (auto simp: RequestPdu_decode_def Let_def panic_simps)

lemma RequestPdu_encode_decode:
  assumes "RequestPdu_decode U bs has_object = Ok r" "uuid_ok U"
  shows "RequestPdu_encode U r = bs" and "RequestPdu_valid U has_object r"
proof -
  have "8 \<le> length bs"
    using assms by (auto simp: RequestPdu_decode_def Let_def split: if_splits)
  then obtain a b c d e f g h rest where bs: "bs = a # b # c # d # e # f # g # h # rest"
    by (rule length_ge_8E)
  show "RequestPdu_encode U r = bs"
    using assms
    by (auto simp: bs RequestPdu_decode_def RequestPdu_encode_def Let_def and_then_eq_Ok
        slice_def dest: uuid_okD(6) split: if_splits)
  show "RequestPdu_valid U has_object r"
    using assms
    by (auto simp: bs RequestPdu_decode_def RequestPdu_valid_def Let_def and_then_eq_Ok
        slice_def split: if_splits)
qed

interpretation request_codec: wire_codec "RequestPdu_encode U"
    "\<lambda>bs. RequestPdu_decode U bs has_object" "RequestPdu_valid U has_object" for U has_object
  by unfold_locales (simp_all add: RequestPdu_decode_encode RequestPdu_decode_safe)

lemma ResponsePdu_decode_encode: "ResponsePdu_decode (ResponsePdu_encode r) = Ok r"
  by (simp add: ResponsePdu_decode_def ResponsePdu_encode_def byte_defs)

lemma ResponsePdu_decode_safe: "ResponsePdu_decode bs \<noteq> Panic"
  by (auto simp: ResponsePdu_decode_def panic_simps)

lemma ResponsePdu_encode_decode:
  assumes "ResponsePdu_decode bs = Ok r"
  shows "ResponsePdu_encode r = bs[7 := 0]"
proof -
  have "8 \<le> length bs"
    using assms by (auto simp: ResponsePdu_decode_def split: if_splits)
  then obtain a b c d e f g h rest where bs: "bs = a # b # c # d # e # f # g # h # rest"
    by (rule length_ge_8E)
  show ?thesis
    using assms by (auto simp: bs ResponsePdu_decode_def ResponsePdu_encode_def list_update_code)
qed

interpretation response_codec: wire_codec ResponsePdu_encode ResponsePdu_decode "\<lambda>_. True"
  by unfold_locales (simp_all add: ResponsePdu_decode_encode ResponsePdu_decode_safe)

lemma FaultPdu_decode_encode: "FaultPdu_decode (FaultPdu_encode f) = Ok f"
  by (simp add: FaultPdu_decode_def FaultPdu_encode_def byte_defs)

lemma FaultPdu_decode_safe: "FaultPdu_decode bs \<noteq> Panic"
  by (auto simp: FaultPdu_decode_def panic_simps)

interpretation fault_codec: wire_codec FaultPdu_encode FaultPdu_decode "\<lambda>_. True"
  by unfold_locales (simp_all add: FaultPdu_decode_encode FaultPdu_decode_safe)

lemmas body_codec_simps [simp] = BindPdu_decode_encode BindPdu_decode_safe RequestPdu_decode_safe
  ResponsePdu_decode_encode ResponsePdu_decode_safe FaultPdu_decode_encode FaultPdu_decode_safe

lemma length_body_encode [simp]:
  "length (BindPdu_encode b) = 8 + length (bind_presentation_context_list b)"
  "length (ResponsePdu_encode r) = 8 + length (resp_stub_data r)"
  "length (FaultPdu_encode f) = 12 + length (fault_stub_data f)"
  "req_object q = None \<Longrightarrow> length (RequestPdu_encode U q) = 8 + length (req_stub_data q)"
  by (simp_all add: BindPdu_encode_def ResponsePdu_encode_def FaultPdu_encode_def RequestPdu_encode_def)

section \<open>Packets built from a body\<close>

text \<open>The packet that the builders return when the length field does not overflow.\<close>

definition body_packet :: "ndr_crate \<Rightarrow> PduType \<Rightarrow> u32 \<Rightarrow> u8 \<Rightarrow> bytes \<Rightarrow> PduPacket" where
  "body_packet N ty cid flags b =
     \<lparr>header = (PduHeader_new N ty flags cid)\<lparr>frag_length := of_nat (16 + length b)\<rparr>,
      body = b, security_trailer = None, auth_value = []\<rparr>"

lemma unat_of_nat_u16_mod: "unat (of_nat n :: u16) = n mod 65536"
  by (simp add: unat_of_nat)

lemma from_body_with_flags_cases:
  "PduPacket_from_body_with_flags N ty cid flags b =
     (if length b mod 65536 < 65520 then Ok (body_packet N ty cid flags b) else Panic)"
  by (simp add: PduPacket_from_body_with_flags_def u16_add_def unat_of_nat_u16_mod body_packet_def
      Let_def) (simp add: COMMON_HEADER_LEN_def)

lemma from_request_with_flags_cases:
  "PduPacket_from_request_with_flags N U cid flags r =
     PduPacket_from_body_with_flags N PduType_Request cid
       (flags OR (case req_object r of Some _ \<Rightarrow> PFC_OBJECT_UUID | None \<Rightarrow> 0)) (RequestPdu_encode U r)"
  by (simp add: PduPacket_from_request_with_flags_def PduPacket_from_body_with_flags_def Let_def)

lemma PduHeader_valid_new [simp]: "PduHeader_valid N (PduHeader_new N ty flags cid) = ndr_ok N"
  by (simp add: PduHeader_valid_def PduHeader_new_def ndr_ok_def)

lemma body_packet_simps [simp]:
  "body (body_packet N ty cid flags b) = b"
  "security_trailer (body_packet N ty cid flags b) = None"
  "auth_value (body_packet N ty cid flags b) = []"
  "ptype (header (body_packet N ty cid flags b)) = ty"
  "pfc_flags (header (body_packet N ty cid flags b)) = flags"
  "call_id (header (body_packet N ty cid flags b)) = cid"
  by (simp_all add: body_packet_def PduHeader_new_def)

lemma body_packet_valid [simp]: "PduPacket_valid N (body_packet N ty cid flags b) = ndr_ok N"
  by (simp add: PduPacket_valid_def body_packet_def PduHeader_valid_def PduHeader_new_def ndr_ok_def)

lemma body_packet_header_valid [simp]: "PduHeader_valid N (header (body_packet N ty cid flags b)) = ndr_ok N"
  using body_packet_valid [of N ty cid flags b] by (simp add: PduPacket_valid_def)

lemma body_packet_size [simp]: "PduPacket_size (body_packet N ty cid flags b) = 16 + length b"
  by (simp add: PduPacket_size_def PduPacket_trailer_def)

lemma body_packet_framed [simp]:
  "PduPacket_framed (body_packet N ty cid flags b) = body_packet N ty cid flags b"
  by (simp add: PduPacket_framed_def) (simp add: body_packet_def PduHeader_new_def)

definition body_wire :: "ndr_crate \<Rightarrow> PduType \<Rightarrow> u32 \<Rightarrow> u8 \<Rightarrow> bytes \<Rightarrow> bytes" where
  "body_wire N ty cid flags b =
     PduHeader_wire N (header (body_packet N ty cid flags b)) @ b"

lemma length_body_wire [simp]: "length (body_wire N ty cid flags b) = 16 + length b"
  by (simp add: body_wire_def)

lemma body_packet_encode:
  "length b \<le> 65519 \<Longrightarrow>
     PduPacket_encode N (body_packet N ty cid flags b) = Ok (body_wire N ty cid flags b)"
  by (simp add: PduPacket_encode_Ok_iff body_wire_def PduPacket_trailer_def
      del: PduPacket_framed_simps)

lemma body_wire_decode:
  "ndr_ok N \<Longrightarrow> length b \<le> 65519 \<Longrightarrow>
     PduPacket_decode N (body_wire N ty cid flags b) = Ok (body_packet N ty cid flags b)"
  using PduPacket_decode_encode [OF _ body_packet_encode] by simp

section \<open>The packet format as a relation\<close>

text \<open>
  The declarative wire format: \<open>packet_wire N p bs\<close> says that the byte string \<open>bs\<close> is one fragment
  that carries the packet \<open>p\<close>.  The content of the padding is not constrained.
\<close>

definition trailer_bytes :: "PduPacket \<Rightarrow> bytes" where
  "trailer_bytes p = (case security_trailer p of Some t \<Rightarrow> SecurityTrailer_wire t | None \<Rightarrow> [])"

definition packet_wire :: "ndr_crate \<Rightarrow> PduPacket \<Rightarrow> bytes \<Rightarrow> bool" where
  "packet_wire N p bs \<longleftrightarrow>
     PduPacket_valid N p \<and> unat (frag_length (header p)) = length bs \<and>
     unat (auth_length (header p)) = length (auth_value p) \<and>
     (\<exists>pad. length pad = PduPacket_pad p \<and>
        bs = PduHeader_wire N (header p) @ body p @ pad @ trailer_bytes p @ auth_value p)"

lemma packet_wire_decode:
  assumes "packet_wire N p bs"
  shows "PduPacket_decode N bs = Ok p"
proof -
  from assms obtain pad where v: "PduPacket_valid N p"
    and f: "unat (frag_length (header p)) = length bs"
    and a: "unat (auth_length (header p)) = length (auth_value p)"
    and pad: "length pad = PduPacket_pad p"
    and bs: "bs = PduHeader_wire N (header p) @ body p @ pad @ trailer_bytes p @ auth_value p"
    by (auto simp: packet_wire_def)
  have h: "PduHeader_decode N bs = Ok (header p)"
    unfolding bs using v by (intro PduHeader_decode_encode) (simp add: PduPacket_valid_def)
  show ?thesis
  proof (cases "security_trailer p")
    case None
    with v have av: "auth_value p = []" by (simp add: PduPacket_valid_def)
    with a have "auth_length (header p) = 0" by (simp add: unat_eq_zero)
    from PduPacket_decode_plain [OF h f this] None av pad show ?thesis
      by (simp add: bs trailer_bytes_def PduPacket_pad_def)
  next
    case (Some t)
    with v have "auth_value p \<noteq> []" by (simp add: PduPacket_valid_def)
    from PduPacket_decode_auth [OF h f a this, of "PduHeader_wire N (header p)" "body p" pad t]
      Some pad show ?thesis
      by (simp add: bs trailer_bytes_def PduPacket_pad_def)
  qed
qed

lemma decode_packet_wire:
  assumes "PduPacket_decode N bs = Ok p"
  shows "packet_wire N p bs"
  using assms
proof (cases rule: PduPacket_decode_cases)
  case (plain h)
  note H = PduHeader_decode_Ok [OF plain(1)]
  have "bs = PduHeader_wire N h @ drop 16 bs"
    by (simp add: H(3))
  then show ?thesis
    using plain H(2)
    by (simp add: packet_wire_def PduPacket_valid_def PduPacket_pad_def trailer_bytes_def)
next
  case (auth h b pad t a hb)
  note H = PduHeader_decode_Ok [OF auth(1)]
  have hb: "hb = PduHeader_wire N h"
    using H(3) auth(5,6) by simp
  show ?thesis
    unfolding packet_wire_def using auth H(2) hb
    by (auto simp: PduPacket_valid_def PduPacket_pad_def trailer_bytes_def)
qed

section \<open>Properties\<close>

text \<open>
  C9: the packet decoder implements the wire format exactly.  \<open>PduPacket::decode\<close> returns \<open>p\<close> on a
  byte string iff the string is a fragment that carries \<open>p\<close>: a version 5 header with a known data
  representation whose length fields agree with the fragment and the authentication value, the
  body, the announced padding, the security trailer (present iff there is an authentication value)
  and the authentication value, with nothing before, between or after them.
\<close>

theorem packet_decode_iff_wire: "PduPacket_decode N bs = Ok p \<longleftrightarrow> packet_wire N p bs"
  using packet_wire_decode decode_packet_wire by blast

text \<open>
  C23: round trip of packets.  Every valid packet that fits a fragment is encoded to exactly its
  wire length, and decoding gives the packet back with its two length fields filled in.
\<close>

theorem packet_roundtrip:
  assumes "PduPacket_valid N p" "PduPacket_size p \<le> 65535"
  shows "\<exists>bs. PduPacket_encode N p = Ok bs \<and> length bs = PduPacket_size p \<and>
     PduPacket_decode N bs = Ok (PduPacket_framed p)"
proof -
  have "auth_value p = [] \<or> security_trailer p \<noteq> None"
    using assms(1) by (auto simp: PduPacket_valid_def)
  with assms(2) obtain bs where e: "PduPacket_encode N p = Ok bs"
    by (auto simp: PduPacket_encode_Ok_iff)
  from PduPacket_decode_encode [OF assms(1) e] length_PduPacket_encode [OF e] e show ?thesis
    by blast
qed

definition sample_packet :: PduPacket where
  "sample_packet =
     PduPacket_with_security_trailer
       (PduHeader_new std_ndr PduType_Request 3 3) [0xAA, 0xBB]
       \<lparr>tr_auth_type = RpcAuthType_WinNt, tr_auth_level = AuthLevel_PacketIntegrity,
        auth_pad_length = 2, auth_reserved = 0, tr_auth_context_id = 7\<rparr>
       [0x11, 0x22, 0x33, 0x44]"

lemma sample_packet_facts:
  "PduPacket_valid std_ndr sample_packet" "PduPacket_size sample_packet = 32"
  using ndr_ok_std_ndr
  by (simp_all add: sample_packet_def PduPacket_with_security_trailer_def PduPacket_valid_def
      PduPacket_size_def PduPacket_trailer_def)

theorem packet_roundtrip_witness:
  "PduPacket_size sample_packet \<le> 65535 \<and>
   (\<exists>bs. PduPacket_encode std_ndr sample_packet = Ok bs \<and> length bs = 32 \<and>
     PduPacket_decode std_ndr bs = Ok (PduPacket_framed sample_packet))"
  using packet_roundtrip [of std_ndr sample_packet] sample_packet_facts by simp

text \<open>
  C29: re-encoding a decoded packet reproduces the input byte for byte, except that the padding in
  front of the security trailer is zeroed; in particular the length fields of a decoded packet are
  already the ones the encoder computes.
\<close>

theorem packet_reencode:
  assumes "PduPacket_decode N bs = Ok p"
  shows "PduPacket_encode N p =
      Ok (take (16 + length (body p)) bs @ replicate (PduPacket_pad p) 0 @
          drop (16 + length (body p) + PduPacket_pad p) bs)
    \<and> PduPacket_framed p = p \<and> PduPacket_size p = length bs"
  using PduPacket_encode_decode [OF assms] by simp

definition sample_bytes :: bytes where
  "sample_bytes =
     [5, 0, 0, 3, 0x10, 0, 0, 0, 32, 0, 4, 0, 3, 0, 0, 0, 0xAA, 0xBB, 9, 9,
      10, 5, 2, 0, 7, 0, 0, 0, 0x11, 0x22, 0x33, 0x44]"

lemma sample_bytes_decode:
  "PduPacket_decode std_ndr sample_bytes = Ok (PduPacket_framed sample_packet)"
  by code_simp

theorem packet_reencode_witness:
  "PduPacket_encode std_ndr (PduPacket_framed sample_packet) =
     Ok (take 18 sample_bytes @ [0, 0] @ drop 20 sample_bytes)"
proof -
  have "length (body (PduPacket_framed sample_packet)) = 2"
    "PduPacket_pad (PduPacket_framed sample_packet) = 2" "replicate 2 (0 :: u8) = [0, 0]"
    by code_simp+
  with packet_reencode [OF sample_bytes_decode] show ?thesis
    by simp
qed

text \<open>
  C30: no byte string makes the packet decoder panic (the target of the fuzzer
  \<^verbatim>\<open>fuzz/fuzz_targets/rpc_pdu_decode.rs\<close>), and no packet makes the encoder panic: every index and slice
  the decoder reads is in range, every index and slice the encoders of header and trailer write is in
  range of their arrays, and every \<open>copy_from_slice\<close> copies between equal lengths.
\<close>

theorem packet_codec_panic_free:
  "PduPacket_decode N bs \<noteq> Panic \<and> PduPacket_encode N p \<noteq> Panic"
  by simp

text \<open>
  The header decoder accepts exactly the encodings of valid headers: a buffer decodes to \<open>h\<close>
  iff \<open>h\<close> has version 5 and a known data representation and the first sixteen bytes of the buffer
  are the encoding of \<open>h\<close> in the byte order that its data representation names.
\<close>

lemma header_decode_iff:
  "PduHeader_decode N bs = Ok h \<longleftrightarrow>
     PduHeader_valid N h \<and> 16 \<le> length bs \<and> take 16 bs = PduHeader_wire N h"
proof
  assume "PduHeader_valid N h \<and> 16 \<le> length bs \<and> take 16 bs = PduHeader_wire N h"
  then show "PduHeader_decode N bs = Ok h"
    by (metis PduHeader_decode_encode append_take_drop_id)
qed (simp add: PduHeader_decode_Ok)

text \<open>
  C35: a security trailer without an authentication value does not survive the wire.  The encoder
  accepts such a packet and writes authentication length 0, and the decoder then returns no trailer
  and a body to which the padding and the eight trailer bytes have been appended.
\<close>

theorem trailer_lost_without_auth_value:
  assumes "PduHeader_valid N (header p)" "security_trailer p = Some t" "auth_value p = []"
    and "PduPacket_size p \<le> 65535"
  shows "\<exists>bs q. PduPacket_encode N p = Ok bs \<and> PduPacket_decode N bs = Ok q \<and>
     security_trailer q = None \<and>
     body q = body p @ replicate (unat (auth_pad_length t)) 0 @ SecurityTrailer_wire t"
proof -
  let ?h = "header (PduPacket_framed p)"
  obtain bs where e: "PduPacket_encode N p = Ok bs"
    using assms by (auto simp: PduPacket_encode_Ok_iff)
  then have bs: "bs = PduHeader_wire N ?h @ body p @ PduPacket_trailer p"
    using assms(3) by (simp add: PduPacket_encode_Ok_iff)
  have h: "PduHeader_decode N bs = Ok ?h"
    unfolding bs using assms(1) by (intro PduHeader_decode_encode) simp
  have f: "unat (frag_length ?h) = length bs"
    using assms(4) length_PduPacket_encode [OF e] by (simp add: unat_of_nat_u16)
  have "auth_length ?h = 0"
    using assms(3) by simp
  from PduPacket_decode_plain [OF h f this] e assms(2) show ?thesis
    by (simp add: bs PduPacket_trailer_def)
qed

theorem trailer_lost_without_auth_value_witness:
  "\<exists>bs q. PduPacket_encode std_ndr (sample_packet\<lparr>auth_value := []\<rparr>) = Ok bs \<and>
     PduPacket_decode std_ndr bs = Ok q \<and> security_trailer q = None \<and>
     body q = [0xAA, 0xBB, 0, 0, 10, 5, 2, 0, 7, 0, 0, 0]"
proof -
  have "PduHeader_valid std_ndr (header (sample_packet\<lparr>auth_value := []\<rparr>))"
    using sample_packet_facts(1) by (simp add: PduPacket_valid_def)
  moreover have "PduPacket_size (sample_packet\<lparr>auth_value := []\<rparr>) = 28"
    by code_simp
  moreover have "[0xAA, 0xBB, 0, 0, 10, 5, 2, 0, 7, 0, 0, 0] = body sample_packet @
      replicate (unat (auth_pad_length (the (security_trailer sample_packet)))) 0 @
      SecurityTrailer_wire (the (security_trailer sample_packet))"
    by code_simp
  moreover have "security_trailer sample_packet \<noteq> None"
    by (simp add: sample_packet_def PduPacket_with_security_trailer_def)
  ultimately show ?thesis
    using trailer_lost_without_auth_value
      [of std_ndr "sample_packet\<lparr>auth_value := []\<rparr>" "the (security_trailer sample_packet)"]
    by simp
qed

text \<open>
  C33: the bodies of bind and request PDUs have exactly one encoding; response and fault bodies
  round-trip, and re-encoding a decoded response only clears its reserved byte.
\<close>

theorem bodies_roundtrip:
  "(BindPdu_decode bs = Ok b \<longleftrightarrow> bs = BindPdu_encode b) \<and>
   (uuid_ok U \<longrightarrow> (RequestPdu_decode U bs has_object = Ok q \<longleftrightarrow>
      bs = RequestPdu_encode U q \<and> (req_object q \<noteq> None) = has_object)) \<and>
   ResponsePdu_decode (ResponsePdu_encode r) = Ok r \<and>
   (ResponsePdu_decode bs = Ok r \<longrightarrow> ResponsePdu_encode r = bs[7 := 0]) \<and>
   FaultPdu_decode (FaultPdu_encode f) = Ok f"
  using bind_codec.dec_Ok_iff [of bs b] RequestPdu_encode_decode [of U bs has_object q]
    RequestPdu_decode_encode [of U has_object q] ResponsePdu_encode_decode [of bs r]
  by (auto simp: RequestPdu_valid_def)

theorem bodies_roundtrip_witness:
  "uuid_ok std_uuid \<and>
   RequestPdu_decode std_uuid [4, 0, 0, 0, 2, 0, 7, 0, 0xAA] False =
     Ok \<lparr>req_alloc_hint = 4, req_ctx_id = 2, req_opnum = 7, req_object = None,
         req_stub_data = [0xAA]\<rparr>"
proof -
  have "[4, 0, 0, 0, 2, 0, 7, 0, 0xAA] = RequestPdu_encode std_uuid
      \<lparr>req_alloc_hint = 4, req_ctx_id = 2, req_opnum = 7, req_object = None, req_stub_data = [0xAA]\<rparr>"
    by code_simp
  then show ?thesis
    using bodies_roundtrip [of "[4, 0, 0, 0, 2, 0, 7, 0, 0xAA]" undefined std_uuid False
      "\<lparr>req_alloc_hint = 4, req_ctx_id = 2, req_opnum = 7, req_object = None, req_stub_data = [0xAA]\<rparr>"]
      uuid_ok_std_uuid
    by simp
qed

text \<open>
  C32: a request built with \<open>from_request_with_flags\<close> whose body fits one fragment (at most 65519 bytes)
  is built and encoded without an error, and the peer recovers call id, type and body.  Reading the
  body with the object flag of the received header gives the request, object UUID included, exactly if
  the request has an object or the caller's flags do not already contain the object flag: the builder
  does not clear that flag, and a request without object sent under it is misread or refused.
\<close>

theorem request_packet_roundtrip:
  assumes "ndr_ok N" "uuid_ok U" "length (RequestPdu_encode U r) \<le> 65519"
  shows "\<exists>p bs q. PduPacket_from_request_with_flags N U cid flags r = Ok p \<and>
     PduPacket_encode N p = Ok bs \<and> PduPacket_decode N bs = Ok q \<and>
     call_id (header q) = cid \<and> ptype (header q) = PduType_Request \<and> body q = RequestPdu_encode U r \<and>
     (RequestPdu_decode U (body q) (pfc_flags (header q) AND PFC_OBJECT_UUID \<noteq> 0) = Ok r \<longleftrightarrow>
        req_object r \<noteq> None \<or> flags AND PFC_OBJECT_UUID = 0)"
proof -
  let ?fl = "flags OR (case req_object r of Some _ \<Rightarrow> PFC_OBJECT_UUID | None \<Rightarrow> 0)"
  let ?p = "body_packet N PduType_Request cid ?fl (RequestPdu_encode U r)"
  have fl: "(?fl AND PFC_OBJECT_UUID \<noteq> 0) = (req_object r \<noteq> None) \<longleftrightarrow>
      req_object r \<noteq> None \<or> flags AND PFC_OBJECT_UUID = 0"
    by (cases "req_object r") (auto simp: PFC_OBJECT_UUID_def bit.conj_disj_distrib2)
  have "RequestPdu_decode U (RequestPdu_encode U r) b = Ok r \<longleftrightarrow> b = (req_object r \<noteq> None)" for b
    using RequestPdu_decode_encode [of U b r] RequestPdu_encode_decode(2) [of U "RequestPdu_encode U r" b r] assms(2)
    by (auto simp: RequestPdu_valid_def)
  note this [of "?fl AND PFC_OBJECT_UUID \<noteq> 0", unfolded fl]
  moreover have "PduPacket_from_request_with_flags N U cid flags r = Ok ?p"
    using assms(3) by (simp add: from_request_with_flags_cases from_body_with_flags_cases)
  ultimately show ?thesis
    using body_packet_encode [OF assms(3)] body_wire_decode [OF assms(1,3)]
    by fastforce
qed

definition sample_request :: "uuid16 RequestPdu" where
  "sample_request = \<lparr>req_alloc_hint = 1, req_ctx_id = 2, req_opnum = 7,
     req_object = Some ((1, 2, 3, 4), (5, 6, 7, 8), (9, 10, 11, 12), (13, 14, 15, 16)),
     req_stub_data = [0xAA]\<rparr>"

theorem request_packet_roundtrip_witness:
  "\<exists>p bs q. PduPacket_from_request_with_flags std_ndr std_uuid 9 3 sample_request
       = (Ok p :: (PduPacket, Error) result) \<and>
     PduPacket_encode std_ndr p = Ok bs \<and> PduPacket_decode std_ndr bs = Ok q \<and>
     call_id (header q) = 9 \<and> ptype (header q) = PduType_Request \<and>
     RequestPdu_decode std_uuid (body q) (pfc_flags (header q) AND PFC_OBJECT_UUID \<noteq> 0)
       = Ok sample_request"
proof -
  have "(3 :: u8) AND PFC_OBJECT_UUID = 0"
    "length (RequestPdu_encode std_uuid sample_request) = 25"
    by code_simp+
  with request_packet_roundtrip [OF ndr_ok_std_ndr uuid_ok_std_uuid, of sample_request 9 3]
  show ?thesis
    by auto
qed

text \<open>
  C34: the packet builders compute their length field in sixteen bits, so they panic (in a build with
  overflow checks) exactly on the bodies whose length modulo 65536 is at least 65520, before the
  encoder can report that the fragment is too large.
\<close>

theorem packet_builder_overflow:
  "(PduPacket_from_body_with_flags N ty cid flags b = Panic \<longleftrightarrow> 65520 \<le> length b mod 65536) \<and>
   (PduPacket_from_request_with_flags N U cid flags r = Panic \<longleftrightarrow>
      65520 \<le> length (RequestPdu_encode U r) mod 65536)"
  by (simp add: from_request_with_flags_cases from_body_with_flags_cases not_less)

end
