(* ===== verification/Syntax.thy ===== *)
theory Syntax
  imports Rpc_Error External
begin

text \<open>
  Presentation syntax identifiers, interface identities and the transfer syntaxes the client can
  negotiate (\<^verbatim>\<open>src/syntax.rs\<close>).
\<close>

section \<open>Syntax identifiers\<close>

record 'u SyntaxId =
  syn_uuid :: 'u
  syn_version :: u32

definition SyntaxId_new :: "'u \<Rightarrow> u16 \<Rightarrow> u16 \<Rightarrow> 'u SyntaxId" where
  "SyntaxId_new u major_version minor_version =
     \<lparr>syn_uuid = u, syn_version = ucast major_version OR push_bit 16 (ucast minor_version)\<rparr>"

definition SyntaxId_encode :: "'u uuid_crate \<Rightarrow> 'u SyntaxId \<Rightarrow> bytes" where
  "SyntaxId_encode U s = uuid_to_bytes_le U (syn_uuid s) @ u32_to_le_bytes (syn_version s)"

definition SyntaxId_decode :: "'u uuid_crate \<Rightarrow> bytes \<Rightarrow> ('u SyntaxId, Error) result" where
  "SyntaxId_decode U bs =
     (if length bs < 20 then Err (InvalidPdu ''syntax identifier requires 20 bytes'')
      else
        and_then (and_then (slice bs 0 16) (copy_from_slice (replicate 16 0))) (\<lambda>uuid_bytes.
        and_then (le32_at bs 16) (\<lambda>version.
          Ok \<lparr>syn_uuid = uuid_from_bytes_le U uuid_bytes, syn_version = version\<rparr>)))"

definition SyntaxId_bind_time_feature_negotiation :: "'u uuid_crate \<Rightarrow> u16 \<Rightarrow> 'u SyntaxId" where
  "SyntaxId_bind_time_feature_negotiation U bitmask =
     \<lparr>syn_uuid = uuid_from_fields U 0x6CB71C2C 0x9812 0x4540
        (u16_to_le_bytes bitmask @ [0, 0, 0, 0, 0, 0]),
      syn_version = 1\<rparr>"

section \<open>Interfaces and transfer syntaxes\<close>

record 'u InterfaceId =
  if_uuid :: 'u
  if_major_version :: u16
  if_minor_version :: u16

definition InterfaceId_new :: "'u \<Rightarrow> u16 \<Rightarrow> u16 \<Rightarrow> 'u InterfaceId" where
  "InterfaceId_new u major minor =
     \<lparr>if_uuid = u, if_major_version = major, if_minor_version = minor\<rparr>"

definition InterfaceId_version_u32 :: "'u InterfaceId \<Rightarrow> u32" where
  "InterfaceId_version_u32 i =
     ucast (if_major_version i) OR push_bit 16 (ucast (if_minor_version i))"

definition InterfaceId_syntax_id :: "'u InterfaceId \<Rightarrow> 'u SyntaxId" where
  "InterfaceId_syntax_id i = \<lparr>syn_uuid = if_uuid i, syn_version = InterfaceId_version_u32 i\<rparr>"

datatype TransferSyntax = TransferSyntax_Ndr32 | TransferSyntax_Ndr64

primrec TransferSyntax_syntax_id :: "'u uuid_crate \<Rightarrow> TransferSyntax \<Rightarrow> 'u SyntaxId" where
  "TransferSyntax_syntax_id U TransferSyntax_Ndr32 =
     SyntaxId_new (uuid_from_u128 U 0x8a885d041ceb11c99fe808002b104860) 2 0"
| "TransferSyntax_syntax_id U TransferSyntax_Ndr64 =
     SyntaxId_new (uuid_from_u128 U 0x71710533beba49378319b5dbef9ccc36) 1 0"

primrec TransferSyntax_name :: "TransferSyntax \<Rightarrow> string" where
  "TransferSyntax_name TransferSyntax_Ndr32 = ''NDR32''"
| "TransferSyntax_name TransferSyntax_Ndr64 = ''NDR64''"

section \<open>Lemmas\<close>

lemma length_SyntaxId_encode: "uuid_ok U \<Longrightarrow> length (SyntaxId_encode U s) = 20"
  by (simp add: SyntaxId_encode_def uuid_okD)

lemma SyntaxId_decode_encode:
  assumes "uuid_ok U"
  shows "SyntaxId_decode U (SyntaxId_encode U s @ rest) = Ok s"
proof -
  obtain ub where u: "uuid_to_bytes_le U (syn_uuid s) = ub" "length ub = 16"
    using uuid_okD(3) [OF assms] by blast
  have "uuid_from_bytes_le U ub = syn_uuid s"
    using uuid_okD(4) [OF assms] u(1) by metis
  with u show ?thesis
    by (simp add: SyntaxId_decode_def SyntaxId_encode_def copy_from_slice_def byte_defs nth_append)
qed

lemma SyntaxId_decode_safe [simp]: "SyntaxId_decode U bs \<noteq> Panic"
  by (auto simp: SyntaxId_decode_def copy_from_slice_def panic_simps)

lemma SyntaxId_encode_decode:
  assumes "SyntaxId_decode U bs = Ok s" "uuid_ok U"
  shows "20 \<le> length bs" and "SyntaxId_encode U s = take 20 bs"
proof -
  show l: "20 \<le> length bs"
    using assms by (auto simp: SyntaxId_decode_def split: if_splits)
  then have "16 \<le> length bs" by simp
  then obtain ub rest where bs: "bs = ub @ rest" and ub: "length ub = 16"
    by (rule length_ge_split)
  with l obtain a b c d rest' where rest: "rest = a # b # c # d # rest'"
    by (cases rest; cases "tl rest"; cases "tl (tl rest)"; cases "tl (tl (tl rest))") auto
  show "SyntaxId_encode U s = take 20 bs"
    using assms ub uuid_okD(5) [OF assms(2) ub]
    by (auto simp: SyntaxId_decode_def SyntaxId_encode_def copy_from_slice_def bs rest nth_append)
qed

interpretation syntax_codec: fixed_codec "SyntaxId_encode U" "SyntaxId_decode U"
    "\<lambda>_. uuid_ok U" 20 for U
  by unfold_locales (simp_all add: length_SyntaxId_encode SyntaxId_decode_encode)

text \<open>The two halves of a version word.\<close>

lemma version_halves:
  fixes major minor :: u16
  defines "w \<equiv> (ucast major OR push_bit 16 (ucast minor) :: u32)"
  shows "ucast w = major" "ucast (drop_bit 16 w) = minor"
  unfolding w_def
  by (rule bit_word_eqI; auto simp: bit_simps dest: bit_imp_le_length)+

section \<open>Properties\<close>

text \<open>
  C38: syntax identifiers have one wire form of twenty bytes: a buffer decodes to \<open>s\<close> iff its first
  twenty bytes are the encoding of \<open>s\<close> (little-endian UUID fields, then the version).
\<close>

theorem syntax_id_decode_iff:
  assumes "uuid_ok U"
  shows "SyntaxId_decode U bs = Ok s \<longleftrightarrow> 20 \<le> length bs \<and> take 20 bs = SyntaxId_encode U s"
  using SyntaxId_encode_decode [OF _ assms] SyntaxId_decode_encode [OF assms]
  by (metis append_take_drop_id)

theorem syntax_id_decode_iff_witness:
  "SyntaxId_decode std_uuid
     [0x04, 0x5D, 0x88, 0x8A, 0xEB, 0x1C, 0xC9, 0x11, 0x9F, 0xE8, 0x08, 0x00, 0x2B, 0x10, 0x48, 0x60,
      0x02, 0x00, 0x00, 0x00] = Ok (TransferSyntax_syntax_id std_uuid TransferSyntax_Ndr32)"
proof -
  have "[0x04, 0x5D, 0x88, 0x8A, 0xEB, 0x1C, 0xC9, 0x11, 0x9F, 0xE8, 0x08, 0x00, 0x2B, 0x10, 0x48, 0x60,
      0x02, 0x00, 0x00, 0x00] =
    SyntaxId_encode std_uuid (TransferSyntax_syntax_id std_uuid TransferSyntax_Ndr32)"
    by code_simp
  then show ?thesis
    using syntax_id_decode_iff [OF uuid_ok_std_uuid] by (simp add: length_SyntaxId_encode uuid_ok_std_uuid)
qed

text \<open>
  The version word of an interface keeps both halves: the low sixteen bits are the major and
  the high sixteen bits the minor version, so distinct interfaces have distinct abstract syntaxes.
\<close>

lemma interface_syntax_injective:
  "ucast (InterfaceId_version_u32 i) = if_major_version i \<and>
   ucast (drop_bit 16 (InterfaceId_version_u32 i)) = if_minor_version i \<and>
   (InterfaceId_syntax_id i = InterfaceId_syntax_id j \<longleftrightarrow> i = (j :: 'u InterfaceId))"
proof -
  have v: "ucast (InterfaceId_version_u32 k) = if_major_version k"
    "ucast (drop_bit 16 (InterfaceId_version_u32 k)) = if_minor_version k" for k :: "'u InterfaceId"
    unfolding InterfaceId_version_u32_def by (rule version_halves)+
  have "if_major_version i = if_major_version j" "if_minor_version i = if_minor_version j"
    if "InterfaceId_version_u32 i = InterfaceId_version_u32 j"
    using v [of i] v [of j] that by simp_all
  then show ?thesis
    using v [of i] by (auto simp: InterfaceId_syntax_id_def)
qed

end
