(* ===== verification/Bind.thy ===== *)
theory Bind
  imports Pdu Syntax
begin

text \<open>
  Bind negotiation (\<^verbatim>\<open>src/bind.rs\<close>): presentation contexts and their list, the bind body built
  from them, the bind-ack and bind-nak bodies, and the choice of the accepted context.  The
  encoding of a bind-ack body, which only a server needs, is the one that
  \<^verbatim>\<open>examples/in_memory_bind_call.rs\<close> writes.
\<close>

section \<open>Presentation contexts\<close>

record 'u PresentationContext =
  ctx_context_id :: u16
  ctx_abstract_syntax :: "'u SyntaxId"
  ctx_transfer_syntaxes :: "'u SyntaxId list"

definition PresentationContext_new ::
    "'u uuid_crate \<Rightarrow> u16 \<Rightarrow> 'u SyntaxId \<Rightarrow> TransferSyntax list \<Rightarrow> 'u PresentationContext" where
  "PresentationContext_new U cid abst tss =
     \<lparr>ctx_context_id = cid, ctx_abstract_syntax = abst,
      ctx_transfer_syntaxes = map (TransferSyntax_syntax_id U) tss\<rparr>"

definition PresentationContext_bind_time_feature_negotiation ::
    "'u uuid_crate \<Rightarrow> u16 \<Rightarrow> 'u SyntaxId \<Rightarrow> u16 \<Rightarrow> 'u PresentationContext" where
  "PresentationContext_bind_time_feature_negotiation U cid abst bitmask =
     \<lparr>ctx_context_id = cid, ctx_abstract_syntax = abst,
      ctx_transfer_syntaxes = [SyntaxId_bind_time_feature_negotiation U bitmask]\<rparr>"

definition PresentationContext_encode ::
    "'u uuid_crate \<Rightarrow> 'u PresentationContext \<Rightarrow> (bytes, Error) result" where
  "PresentationContext_encode U c =
     (if length (ctx_transfer_syntaxes c) > 255 then Err (InvalidPdu ''too many transfer syntaxes'')
      else Ok (u16_to_le_bytes (ctx_context_id c)
               @ [of_nat (length (ctx_transfer_syntaxes c))] @ [0]
               @ SyntaxId_encode U (ctx_abstract_syntax c)
               @ concat (map (SyntaxId_encode U) (ctx_transfer_syntaxes c))))"

definition transfer_syntax_step ::
    "'u uuid_crate \<Rightarrow> bytes \<Rightarrow> nat \<times> 'u SyntaxId list \<Rightarrow> (nat \<times> 'u SyntaxId list, Error) result" where
  "transfer_syntax_step U bs = (\<lambda>(offset, acc).
     and_then (and_then (slice bs offset (offset + 20)) (SyntaxId_decode U)) (\<lambda>s.
       Ok (offset + 20, acc @ [s])))"

definition PresentationContext_decode ::
    "'u uuid_crate \<Rightarrow> bytes \<Rightarrow> ('u PresentationContext \<times> nat, Error) result" where
  "PresentationContext_decode U bs =
     (if length bs < 24 then Err (InvalidPdu ''presentation context requires at least 24 bytes'')
      else
        and_then (le16_at bs 0) (\<lambda>cid.
        and_then (idx bs 2) (\<lambda>count.
        let transfer_count = unat count; needed = 24 + transfer_count * 20 in
        if length bs < needed then Err (InvalidPdu ''presentation context is truncated'')
        else
          and_then (and_then (slice bs 4 24) (SyntaxId_decode U)) (\<lambda>abst.
          and_then (for_loop transfer_count (transfer_syntax_step U bs) (24, [])) (\<lambda>(_, tss).
            Ok (\<lparr>ctx_context_id = cid, ctx_abstract_syntax = abst, ctx_transfer_syntaxes = tss\<rparr>,
                needed))))))"

section \<open>Lists of presentation contexts\<close>

record 'u PresentationContextList =
  contexts :: "'u PresentationContext list"

definition PresentationContextList_new ::
    "'u PresentationContext list \<Rightarrow> 'u PresentationContextList" where
  "PresentationContextList_new cs = \<lparr>contexts = cs\<rparr>"

text \<open>\<open>expect\<close> turns an error into a panic.\<close>

primrec expect :: "('a, 'e) result \<Rightarrow> ('a, 'f) result" where
  "expect (Ok x) = Ok x"
| "expect (Err e) = Panic"
| "expect Panic = Panic"

primrec encode_contexts ::
    "'u uuid_crate \<Rightarrow> 'u PresentationContext list \<Rightarrow> (bytes, 'e) result" where
  "encode_contexts U [] = Ok []"
| "encode_contexts U (c # cs) =
     and_then (expect (PresentationContext_encode U c)) (\<lambda>b.
     and_then (encode_contexts U cs) (\<lambda>rest. Ok (b @ rest)))"

definition PresentationContextList_encode ::
    "'u uuid_crate \<Rightarrow> 'u PresentationContextList \<Rightarrow> (bytes, 'e) result" where
  "PresentationContextList_encode U l =
     and_then (encode_contexts U (contexts l)) (\<lambda>cs.
       Ok ([of_nat (length (contexts l))] @ [0] @ u16_to_le_bytes 0 @ cs))"

definition context_step ::
    "'u uuid_crate \<Rightarrow> bytes \<Rightarrow> nat \<times> 'u PresentationContext list
       \<Rightarrow> (nat \<times> 'u PresentationContext list, Error) result" where
  "context_step U bs = (\<lambda>(offset, acc).
     and_then (and_then (slice_from bs offset) (PresentationContext_decode U)) (\<lambda>(c, len).
       Ok (offset + len, acc @ [c])))"

definition PresentationContextList_decode ::
    "'u uuid_crate \<Rightarrow> bytes \<Rightarrow> ('u PresentationContextList, Error) result" where
  "PresentationContextList_decode U bs =
     (if length bs < 4
      then Err (InvalidPdu ''presentation context list requires at least 4 bytes'')
      else
        and_then (idx bs 0) (\<lambda>count.
        and_then (for_loop (unat count) (context_step U bs) (4, [])) (\<lambda>(offset, cs).
        if offset \<noteq> length bs
          then Err (InvalidPdu ''presentation context list has trailing bytes'')
        else Ok \<lparr>contexts = cs\<rparr>)))"

definition BindPdu_with_contexts ::
    "'u uuid_crate \<Rightarrow> u16 \<Rightarrow> u16 \<Rightarrow> u32 \<Rightarrow> 'u PresentationContext list \<Rightarrow> (BindPdu, 'e) result" where
  "BindPdu_with_contexts U xmit recv grp cs =
     and_then (PresentationContextList_encode U (PresentationContextList_new cs)) (\<lambda>l.
       Ok \<lparr>bind_max_xmit_frag = xmit, bind_max_recv_frag = recv, bind_assoc_group_id = grp,
           bind_presentation_context_list = l\<rparr>)"

definition BindPdu_presentation_context_list ::
    "'u uuid_crate \<Rightarrow> BindPdu \<Rightarrow> ('u PresentationContextList, Error) result" where
  "BindPdu_presentation_context_list U b =
     PresentationContextList_decode U (bind_presentation_context_list b)"

section \<open>Results and the bind-ack body\<close>

primrec PresentationResultCode_as_u16 :: "PresentationResultCode \<Rightarrow> u16" where
  "PresentationResultCode_as_u16 PresentationResultCode_Acceptance = 0"
| "PresentationResultCode_as_u16 PresentationResultCode_UserRejection = 1"
| "PresentationResultCode_as_u16 PresentationResultCode_ProviderRejection = 2"
| "PresentationResultCode_as_u16 PresentationResultCode_NegotiateAck = 3"

definition PresentationResultCode_try_from :: "u16 \<Rightarrow> (PresentationResultCode, Error) result" where
  "PresentationResultCode_try_from v =
     (if v = 0 then Ok PresentationResultCode_Acceptance
      else if v = 1 then Ok PresentationResultCode_UserRejection
      else if v = 2 then Ok PresentationResultCode_ProviderRejection
      else if v = 3 then Ok PresentationResultCode_NegotiateAck
      else Err (InvalidPdu ''unknown presentation result code''))"

primrec PresentationRejectReason_as_u16 :: "PresentationRejectReason \<Rightarrow> u16" where
  "PresentationRejectReason_as_u16 PresentationRejectReason_ReasonNotSpecified = 0"
| "PresentationRejectReason_as_u16 PresentationRejectReason_AbstractSyntaxNotSupported = 1"
| "PresentationRejectReason_as_u16 PresentationRejectReason_ProposedTransferSyntaxNotSupported = 2"
| "PresentationRejectReason_as_u16 PresentationRejectReason_LocalLimitExceeded = 3"

definition PresentationRejectReason_try_from ::
    "u16 \<Rightarrow> (PresentationRejectReason, Error) result" where
  "PresentationRejectReason_try_from v =
     (if v = 0 then Ok PresentationRejectReason_ReasonNotSpecified
      else if v = 1 then Ok PresentationRejectReason_AbstractSyntaxNotSupported
      else if v = 2 then Ok PresentationRejectReason_ProposedTransferSyntaxNotSupported
      else if v = 3 then Ok PresentationRejectReason_LocalLimitExceeded
      else Err (InvalidPdu ''unknown presentation reject reason''))"

record 'u PresentationResult =
  pr_result :: PresentationResultCode
  pr_reason :: PresentationRejectReason
  pr_transfer_syntax :: "'u SyntaxId"

definition PresentationResult_decode ::
    "'u uuid_crate \<Rightarrow> bytes \<Rightarrow> ('u PresentationResult, Error) result" where
  "PresentationResult_decode U bs =
     (if length bs < 24 then Err (InvalidPdu ''presentation result requires 24 bytes'')
      else
        and_then (and_then (le16_at bs 0) PresentationResultCode_try_from) (\<lambda>res.
        and_then (and_then (le16_at bs 2) PresentationRejectReason_try_from) (\<lambda>reason.
        and_then (and_then (slice bs 4 24) (SyntaxId_decode U)) (\<lambda>s.
          Ok \<lparr>pr_result = res, pr_reason = reason, pr_transfer_syntax = s\<rparr>))))"

record 'u AcceptedContext =
  acc_context_id :: u16
  acc_transfer_syntax :: "'u SyntaxId"

record 'u BindAckPdu =
  ack_max_xmit_frag :: u16
  ack_max_recv_frag :: u16
  ack_assoc_group_id :: u32
  ack_secondary_addr :: bytes
  ack_results :: "'u PresentationResult list"

text \<open>The loop \<open>while !offset.is_multiple_of(4) { offset += 1 }\<close>.\<close>

function align4 :: "nat \<Rightarrow> nat" where
  "align4 offset = (if offset mod 4 \<noteq> 0 then align4 (offset + 1) else offset)"
  by pat_completeness auto
termination
proof (relation "measure (\<lambda>offset. (3 * offset) mod 4)")
  fix offset :: nat
  assume "offset mod 4 \<noteq> 0"
  then have "(3 * (offset + 1)) mod 4 < (3 * offset) mod 4"
    by presburger
  then show "(offset + 1, offset) \<in> measure (\<lambda>offset. (3 * offset) mod 4)"
    by simp
qed simp

declare align4.simps [simp del]

definition result_step ::
    "'u uuid_crate \<Rightarrow> bytes \<Rightarrow> nat \<times> 'u PresentationResult list
       \<Rightarrow> (nat \<times> 'u PresentationResult list, Error) result" where
  "result_step U bs = (\<lambda>(offset, acc).
     if length bs < offset + 24 then Err (InvalidPdu ''bind ack result list is truncated'')
     else
       and_then (and_then (slice bs offset (offset + 24)) (PresentationResult_decode U)) (\<lambda>r.
         Ok (offset + 24, acc @ [r])))"

definition BindAckPdu_decode :: "'u uuid_crate \<Rightarrow> bytes \<Rightarrow> ('u BindAckPdu, Error) result" where
  "BindAckPdu_decode U bs =
     (if length bs < 12 then Err (InvalidPdu ''bind ack body requires at least 12 bytes'')
      else
        and_then (le16_at bs 0) (\<lambda>xmit.
        and_then (le16_at bs 2) (\<lambda>recv.
        and_then (le32_at bs 4) (\<lambda>grp.
        and_then (le16_at bs 8) (\<lambda>addr_len.
        let secondary_addr_end = 10 + unat addr_len in
        if length bs < secondary_addr_end
          then Err (InvalidPdu ''bind ack secondary address is truncated'')
        else let offset = align4 secondary_addr_end in
        if length bs < offset + 4 then Err (InvalidPdu ''bind ack result list is missing'')
        else
          and_then (idx bs offset) (\<lambda>result_count.
          and_then (for_loop (unat result_count) (result_step U bs) (offset + 4, [])) (\<lambda>(offset, results).
          if offset \<noteq> length bs then Err (InvalidPdu ''bind ack body has trailing bytes'')
          else
            and_then (slice bs 10 secondary_addr_end) (\<lambda>addr.
              Ok \<lparr>ack_max_xmit_frag = xmit, ack_max_recv_frag = recv, ack_assoc_group_id = grp,
                  ack_secondary_addr = addr, ack_results = results\<rparr>))))))))"

fun accepted_context_loop ::
    "'u PresentationContext list \<Rightarrow> nat \<Rightarrow> Error option \<Rightarrow> 'u PresentationResult list
       \<Rightarrow> ('u AcceptedContext, Error) result" where
  "accepted_context_loop proposed index first_rejection [] =
     (case first_rejection of
        Some err \<Rightarrow> Err err
      | None \<Rightarrow> Err (InvalidPdu ''bind ack has no presentation results''))"
| "accepted_context_loop proposed index first_rejection (r # rs) =
     (if \<not> index < length proposed
        then Err (InvalidPdu ''bind ack result has no matching proposed context'')
      else let context = proposed ! index in
      if pr_result r = PresentationResultCode_Acceptance
        then Ok \<lparr>acc_context_id = ctx_context_id context, acc_transfer_syntax = pr_transfer_syntax r\<rparr>
      else
        accepted_context_loop proposed (index + 1)
          (if pr_result r \<noteq> PresentationResultCode_NegotiateAck \<and> first_rejection = None
           then Some (PresentationContextRejected (ctx_context_id context) (pr_result r) (pr_reason r))
           else first_rejection) rs)"

definition BindAckPdu_accepted_context ::
    "'u BindAckPdu \<Rightarrow> 'u PresentationContext list \<Rightarrow> ('u AcceptedContext, Error) result" where
  "BindAckPdu_accepted_context ack proposed =
     accepted_context_loop proposed 0 None (ack_results ack)"

record BindNakPdu =
  nak_reject_reason :: RejectReason

definition BindNakPdu_decode :: "bytes \<Rightarrow> (BindNakPdu, Error) result" where
  "BindNakPdu_decode bs =
     (if length bs < 2 then Err (InvalidPdu ''bind nak body requires a reject reason'')
      else
        and_then (and_then (le16_at bs 0) RejectReason_try_from) (\<lambda>reason.
          Ok \<lparr>nak_reject_reason = reason\<rparr>))"

section \<open>The server's side of a bind acknowledgement\<close>

text \<open>
  The bind-ack body as the example server writes it: fixed fields, the secondary address, zeros up
  to the next multiple of four, the result count and the results.
\<close>

definition result_bytes :: "'u uuid_crate \<Rightarrow> 'u PresentationResult \<Rightarrow> bytes" where
  "result_bytes U r =
     u16_to_le_bytes (PresentationResultCode_as_u16 (pr_result r))
     @ u16_to_le_bytes (PresentationRejectReason_as_u16 (pr_reason r))
     @ SyntaxId_encode U (pr_transfer_syntax r)"

definition bind_ack_body :: "'u uuid_crate \<Rightarrow> 'u BindAckPdu \<Rightarrow> bytes" where
  "bind_ack_body U ack =
     (let fields = u16_to_le_bytes (ack_max_xmit_frag ack) @ u16_to_le_bytes (ack_max_recv_frag ack)
            @ u32_to_le_bytes (ack_assoc_group_id ack)
            @ u16_to_le_bytes (of_nat (length (ack_secondary_addr ack))) @ ack_secondary_addr ack
      in fields @ replicate (align4 (length fields) - length fields) 0
         @ [of_nat (length (ack_results ack)), 0] @ u16_to_le_bytes 0
         @ concat (map (result_bytes U) (ack_results ack)))"

section \<open>Enums\<close>

interpretation result_code_enum: wire_enum PresentationResultCode_as_u16 PresentationResultCode_try_from
proof unfold_locales
  show "PresentationResultCode_try_from (PresentationResultCode_as_u16 x) = Ok x" for x
    by (cases x) (simp_all add: PresentationResultCode_try_from_def)
  show "PresentationResultCode_try_from v = Ok x \<Longrightarrow> PresentationResultCode_as_u16 x = v" for v x
    by (auto simp: PresentationResultCode_try_from_def split: if_splits)
  show "PresentationResultCode_try_from v \<noteq> Panic" for v
    by (simp add: PresentationResultCode_try_from_def)
qed

interpretation result_reason_enum:
  wire_enum PresentationRejectReason_as_u16 PresentationRejectReason_try_from
proof unfold_locales
  show "PresentationRejectReason_try_from (PresentationRejectReason_as_u16 x) = Ok x" for x
    by (cases x) (simp_all add: PresentationRejectReason_try_from_def)
  show "PresentationRejectReason_try_from v = Ok x \<Longrightarrow> PresentationRejectReason_as_u16 x = v" for v x
    by (auto simp: PresentationRejectReason_try_from_def split: if_splits)
  show "PresentationRejectReason_try_from v \<noteq> Panic" for v
    by (simp add: PresentationRejectReason_try_from_def)
qed

lemmas bind_enum_simps [simp] = result_code_enum.try_from_as_num result_reason_enum.try_from_as_num
  result_code_enum.try_from_safe result_reason_enum.try_from_safe

section \<open>One presentation context\<close>

text \<open>The encoding of a context with at most 255 transfer syntaxes.\<close>

definition context_bytes :: "'u uuid_crate \<Rightarrow> 'u PresentationContext \<Rightarrow> bytes" where
  "context_bytes U c =
     u16_to_le_bytes (ctx_context_id c) @ [of_nat (length (ctx_transfer_syntaxes c)), 0]
     @ SyntaxId_encode U (ctx_abstract_syntax c)
     @ concat (map (SyntaxId_encode U) (ctx_transfer_syntaxes c))"

definition context_valid :: "'u uuid_crate \<Rightarrow> 'u PresentationContext \<Rightarrow> bool" where
  "context_valid U c \<longleftrightarrow> uuid_ok U \<and> length (ctx_transfer_syntaxes c) \<le> 255"

lemma PresentationContext_encode_cases:
  "PresentationContext_encode U c =
     (if length (ctx_transfer_syntaxes c) \<le> 255 then Ok (context_bytes U c)
      else Err (InvalidPdu ''too many transfer syntaxes''))"
  by (simp add: PresentationContext_encode_def context_bytes_def not_le)

lemma length_concat_syntaxes:
  "uuid_ok U \<Longrightarrow> length (concat (map (SyntaxId_encode U) ss)) = 20 * length ss"
  by (induction ss) (simp_all add: length_SyntaxId_encode)

lemma length_context_bytes:
  "uuid_ok U \<Longrightarrow> length (context_bytes U c) = 24 + 20 * length (ctx_transfer_syntaxes c)"
  by (simp add: context_bytes_def length_concat_syntaxes length_SyntaxId_encode)

interpretation syntax_loop: element_loop "transfer_syntax_step U" "SyntaxId_encode U"
    "\<lambda>_. uuid_ok U" for U
proof unfold_locales
  fix x off bs rest acc
  assume ok: "uuid_ok U" and le: "off \<le> length bs" and d: "drop off bs = SyntaxId_encode U x @ rest"
  have "length (drop off bs) = length (SyntaxId_encode U x @ rest)"
    by (simp only: d)
  then have "off + 20 \<le> length bs"
    using le by (simp add: length_SyntaxId_encode ok)
  moreover have "take 20 (drop off bs) = SyntaxId_encode U x"
    by (simp add: d length_SyntaxId_encode ok)
  ultimately show "transfer_syntax_step U bs (off, acc) =
      Ok (off + length (SyntaxId_encode U x), acc @ [x])"
    using SyntaxId_decode_encode [OF ok, of x "[]"]
    by (simp add: transfer_syntax_step_def length_SyntaxId_encode ok)
qed

lemma transfer_loop_safe:
  assumes "off + 20 * n \<le> length bs"
  shows "for_loop n (transfer_syntax_step U bs) (off, acc) \<noteq> Panic"
proof -
  have "for_loop n (transfer_syntax_step U bs) (off, acc) \<noteq> Panic \<and>
     (\<forall>s. for_loop n (transfer_syntax_step U bs) (off, acc) = Ok s \<longrightarrow> fst s + 20 * 0 \<le> length bs)"
    by (rule for_loop_rule [where I = "\<lambda>k s. fst s + 20 * k \<le> length bs"])
      (use assms in \<open>auto simp: transfer_syntax_step_def panic_simps and_then_eq_Ok\<close>)
  then show ?thesis ..
qed

lemma PresentationContext_decode_safe [simp]: "PresentationContext_decode U bs \<noteq> Panic"
  by (auto simp: PresentationContext_decode_def Let_def panic_simps transfer_loop_safe)

lemma PresentationContext_decode_bound:
  "PresentationContext_decode U bs = Ok (c, n) \<Longrightarrow> 24 \<le> n \<and> n \<le> length bs"
  by (auto simp: PresentationContext_decode_def Let_def and_then_eq_Ok split: if_splits prod.splits)

lemma PresentationContext_decode_encode:
  assumes v: "context_valid U c"
  shows "PresentationContext_decode U (context_bytes U c @ rest) =
     Ok (c, length (context_bytes U c))"
proof -
  let ?n = "length (ctx_transfer_syntaxes c)"
  from v have ok: "uuid_ok U" and n: "?n \<le> 255"
    by (simp_all add: context_valid_def)
  let ?bs = "context_bytes U c @ rest"
  have len: "length ?bs = 24 + 20 * ?n + length rest"
    by (simp add: length_context_bytes ok)
  have cnt: "?bs ! 2 = of_nat ?n" "unat (of_nat ?n :: u8) = ?n"
    using n by (simp_all add: context_bytes_def byte_defs unat_of_nat_u8)
  have id: "le16_at ?bs 0 = Ok (ctx_context_id c)"
    by (simp add: context_bytes_def byte_defs)
  have d: "drop 24 ?bs = concat (map (SyntaxId_encode U) (ctx_transfer_syntaxes c)) @ rest"
    by (simp add: context_bytes_def byte_defs length_SyntaxId_encode ok)
  have a: "take 20 (drop 4 (context_bytes U c)) = SyntaxId_encode U (ctx_abstract_syntax c)"
    by (simp add: context_bytes_def byte_defs length_SyntaxId_encode ok)
  have "for_loop ?n (transfer_syntax_step U ?bs) (24, []) = Ok (24 + 20 * ?n, ctx_transfer_syntaxes c)"
    using syntax_loop.loop_enc [OF _ _ d, of "[]"] len
    by (simp add: ok length_concat_syntaxes list_all_length)
  then show ?thesis
    using SyntaxId_decode_encode [OF ok, of "ctx_abstract_syntax c" "[]"] id
    by (simp add: PresentationContext_decode_def Let_def len cnt a length_context_bytes ok ac_simps)
qed

section \<open>Lists of contexts\<close>

interpretation context_loop: guarded_loop "context_step U" "context_bytes U" "context_valid U" for U
proof unfold_locales
  fix x off bs rest acc
  assume v: "context_valid U x" and le: "off \<le> length bs" and d: "drop off bs = context_bytes U x @ rest"
  show "context_step U bs (off, acc) = Ok (off + length (context_bytes U x), acc @ [x])"
    using PresentationContext_decode_encode [OF v, of rest] le by (simp add: context_step_def d)
next
  fix off off' :: nat and bs :: bytes and acc acc'
  assume le: "off \<le> length bs"
  then show "context_step U bs (off, acc) \<noteq> Panic"
    by (auto simp: context_step_def panic_simps)
  assume "context_step U bs (off, acc) = Ok (off', acc')"
  then show "off \<le> off' \<and> off' \<le> length bs \<and> length acc' = Suc (length acc)"
    using le by (auto simp: context_step_def and_then_eq_Ok dest!: PresentationContext_decode_bound)
qed

lemma encode_contexts_cases:
  "encode_contexts U cs =
     (if list_all (\<lambda>c. length (ctx_transfer_syntaxes c) \<le> 255) cs
      then Ok (concat (map (context_bytes U) cs)) else Panic)"
  by (induction cs) (auto simp: PresentationContext_encode_cases)

text \<open>The encoding of a list none of whose contexts has too many transfer syntaxes.\<close>

definition context_list_bytes :: "'u uuid_crate \<Rightarrow> 'u PresentationContext list \<Rightarrow> bytes" where
  "context_list_bytes U cs =
     [of_nat (length cs), 0, 0, 0] @ concat (map (context_bytes U) cs)"

lemma PresentationContextList_encode_cases:
  "PresentationContextList_encode U l =
     (if list_all (\<lambda>c. length (ctx_transfer_syntaxes c) \<le> 255) (contexts l)
      then Ok (context_list_bytes U (contexts l)) else Panic)"
  by (simp add: PresentationContextList_encode_def encode_contexts_cases context_list_bytes_def
      u16_to_le_bytes_def)

lemma PresentationContextList_decode_safe [simp]: "PresentationContextList_decode U bs \<noteq> Panic"
  by (auto simp: PresentationContextList_decode_def panic_simps context_loop.loop_safe
      split: if_splits)

lemma PresentationContextList_decode_encode:
  assumes "list_all (context_valid U) (contexts l)" "length (contexts l) \<le> 255"
  shows "PresentationContextList_decode U (context_list_bytes U (contexts l)) = Ok l"
proof -
  let ?cs = "contexts l" and ?bs = "context_list_bytes U (contexts l)"
  have "for_loop (length ?cs) (context_step U ?bs) (4, []) = Ok (length ?bs, ?cs)"
    using context_loop.loop_enc [OF assms(1), of 4 ?bs "[]" "[]"]
    by (simp add: context_list_bytes_def)
  then show ?thesis
    using assms(2)
    by (simp add: PresentationContextList_decode_def context_list_bytes_def unat_of_nat_u8)
qed

text \<open>A list of 256 or more contexts announces its length modulo 256.\<close>

lemma context_list_truncated:
  assumes "list_all (context_valid U) cs" "256 \<le> length cs"
  shows "PresentationContextList_decode U (context_list_bytes U cs) =
     Err (InvalidPdu ''presentation context list has trailing bytes'')"
proof -
  let ?k = "length cs mod 256" and ?bs = "context_list_bytes U cs"
  let ?front = "take ?k cs" and ?tail = "drop ?k cs"
  have k: "?k < length cs"
    using assms(2) mod_less_divisor [of 256 "length cs"] by linarith
  then obtain c cs' where tail: "?tail = c # cs'"
    by (metis Cons_nth_drop_Suc)
  have "uuid_ok U" using assms k by (cases cs) (auto simp: context_valid_def)
  then have pos: "0 < length (concat (map (context_bytes U) ?tail))"
    by (simp add: tail length_context_bytes)
  have app: "concat (map (context_bytes U) ?front) @ concat (map (context_bytes U) ?tail) =
      concat (map (context_bytes U) cs)"
    by (metis append_take_drop_id concat_append map_append)
  have v: "list_all (context_valid U) ?front"
    using assms(1) by (metis append_take_drop_id list_all_append)
  have "for_loop (length ?front) (context_step U ?bs) (4, []) =
      Ok (4 + length (concat (map (context_bytes U) ?front)), ?front)"
    using context_loop.loop_enc [OF v, of 4 ?bs "concat (map (context_bytes U) ?tail)" "[]"]
    by (simp add: context_list_bytes_def app)
  moreover have "length ?front = ?k"
    using k by simp
  moreover have "length ?bs =
      4 + length (concat (map (context_bytes U) ?front)) + length (concat (map (context_bytes U) ?tail))"
    by (simp add: context_list_bytes_def flip: app)
  moreover have "?bs ! 0 = of_nat (length cs)" "unat (of_nat (length cs) :: u8) = ?k"
    by (simp_all add: context_list_bytes_def unat_of_nat)
  ultimately show ?thesis
    using pos by (simp add: PresentationContextList_decode_def del: length_take)
qed

section \<open>Bind acknowledgements\<close>

lemma align4_eq: "align4 n = n + (3 * n) mod 4"
proof (induction n rule: align4.induct)
  case (1 n)
  show ?case
  proof (cases "n mod 4 = 0")
    case True
    then have "(3 * n) mod 4 = 0" by presburger
    with True show ?thesis by (subst align4.simps) simp
  next
    case False
    then have "(3 * n) mod 4 = Suc ((3 * (n + 1)) mod 4)" by presburger
    with False "1.IH" show ?thesis by (subst align4.simps) simp
  qed
qed

lemma align4_iff: "align4 n = n + k \<longleftrightarrow> k < 4 \<and> (n + k) mod 4 = 0"
proof
  assume "align4 n = n + k"
  then have k: "k = (3 * n) mod 4" by (simp add: align4_eq)
  have "(n + (3 * n) mod 4) mod 4 = (4 * n) mod 4" by (simp add: mod_add_right_eq)
  with k show "k < 4 \<and> (n + k) mod 4 = 0" by simp
next
  assume k: "k < 4 \<and> (n + k) mod 4 = 0"
  have "k mod 4 = (k + 4 * n) mod 4" by simp
  also have "\<dots> = ((n + k) mod 4 + (3 * n) mod 4) mod 4"
    by (simp add: mod_add_eq algebra_simps)
  finally show "align4 n = n + k" using k by (simp add: align4_eq)
qed

lemma align4_ge [simp]: "n \<le> align4 n"
  by (simp add: align4_eq)

lemma length_result_bytes [simp]: "uuid_ok U \<Longrightarrow> length (result_bytes U r) = 24"
  by (simp add: result_bytes_def length_SyntaxId_encode)

lemma PresentationResult_decode_encode:
  assumes "uuid_ok U"
  shows "PresentationResult_decode U (result_bytes U r @ rest) = Ok r"
  using SyntaxId_decode_encode [OF assms, of "pr_transfer_syntax r" "[]"]
    length_SyntaxId_encode [OF assms, of "pr_transfer_syntax r"]
  by (simp add: PresentationResult_decode_def result_bytes_def byte_defs)

lemma PresentationResult_decode_safe [simp]: "PresentationResult_decode U bs \<noteq> Panic"
  by (auto simp: PresentationResult_decode_def panic_simps)

lemma PresentationResult_encode_decode:
  assumes "PresentationResult_decode U bs = Ok r" "uuid_ok U" "length bs = 24"
  shows "result_bytes U r = bs"
proof -
  have "4 \<le> length bs" using assms(3) by simp
  then obtain ys zs where bs: "bs = ys @ zs" and "length ys = 4"
    by (rule length_ge_split)
  then obtain a b c d where ys: "ys = [a, b, c, d]"
    by (auto simp: numeral_eq_Suc length_Suc_conv)
  have zs: "length zs = 20"
    using assms(3) by (simp add: bs ys)
  show ?thesis
    using assms zs
    by (auto simp: bs ys PresentationResult_decode_def result_bytes_def and_then_eq_Ok
        dest!: result_code_enum.as_num_try_from result_reason_enum.as_num_try_from
        dest: SyntaxId_encode_decode(2))
qed

interpretation result_codec: fixed_codec "result_bytes U" "PresentationResult_decode U"
    "\<lambda>_. uuid_ok U" 24 for U
  by unfold_locales (simp_all add: PresentationResult_decode_encode)

interpretation result_loop: exact_loop "result_step U" "result_bytes U" "\<lambda>_. uuid_ok U" "uuid_ok U"
  for U
proof unfold_locales
  fix x :: "'a PresentationResult" and off :: nat and bs rest :: bytes and acc
  assume ok: "uuid_ok U" and le: "off \<le> length bs" and d: "drop off bs = result_bytes U x @ rest"
  have "length (drop off bs) = length (result_bytes U x @ rest)"
    by (simp only: d)
  then have "off + 24 \<le> length bs"
    using le ok by simp
  moreover have "take 24 (drop off bs) = result_bytes U x"
    using ok by (simp add: d)
  ultimately show "result_step U bs (off, acc) = Ok (off + length (result_bytes U x), acc @ [x])"
    using PresentationResult_decode_encode [OF ok, of x "[]"] ok by (simp add: result_step_def)
next
  fix off off' :: nat and bs :: bytes and acc acc' :: "'a PresentationResult list"
  assume le: "off \<le> length bs"
  then show "result_step U bs (off, acc) \<noteq> Panic"
    by (auto simp: result_step_def panic_simps)
  assume s: "result_step U bs (off, acc) = Ok (off', acc')"
  then show "off \<le> off' \<and> off' \<le> length bs \<and> length acc' = Suc (length acc)"
    by (auto simp: result_step_def and_then_eq_Ok split: if_splits)
  assume ok: "uuid_ok U"
  from s obtain r where r: "PresentationResult_decode U (take 24 (drop off bs)) = Ok r"
    and o: "off' = off + 24" "acc' = acc @ [r]" and l: "off + 24 \<le> length bs"
    by (auto simp: result_step_def and_then_eq_Ok split: if_splits)
  have "result_bytes U r = take 24 (drop off bs)"
    using PresentationResult_encode_decode [OF r ok] l by simp
  then have "drop off bs = result_bytes U r @ drop off' bs"
    using take_drop_split [of off "off + 24" bs] l by (simp add: o)
  then show "\<exists>x. uuid_ok U \<and> acc' = acc @ [x] \<and> drop off bs = result_bytes U x @ drop off' bs"
    using ok o by blast
qed

lemma BindAckPdu_decode_safe [simp]: "BindAckPdu_decode U bs \<noteq> Panic"
  by (auto simp: BindAckPdu_decode_def Let_def panic_simps result_loop.loop_safe split: if_splits)

text \<open>
  The declarative format of a bind-ack body; alignment padding and reserved bytes are free.
\<close>

definition ack_fields :: "'u BindAckPdu \<Rightarrow> bytes" where
  "ack_fields ack =
     u16_to_le_bytes (ack_max_xmit_frag ack) @ u16_to_le_bytes (ack_max_recv_frag ack)
     @ u32_to_le_bytes (ack_assoc_group_id ack)
     @ u16_to_le_bytes (of_nat (length (ack_secondary_addr ack)))"

definition ack_wire :: "'u uuid_crate \<Rightarrow> 'u BindAckPdu \<Rightarrow> bytes \<Rightarrow> bool" where
  "ack_wire U ack bs \<longleftrightarrow>
     length (ack_secondary_addr ack) \<le> 65535 \<and> length (ack_results ack) \<le> 255 \<and>
     (\<exists>pad rsv. length rsv = 3 \<and>
        length pad < 4 \<and> (10 + length (ack_secondary_addr ack) + length pad) mod 4 = 0 \<and>
        bs = ack_fields ack @ ack_secondary_addr ack @ pad
             @ [of_nat (length (ack_results ack))] @ rsv
             @ concat (map (result_bytes U) (ack_results ack)))"

lemma length_ack_fields [simp]: "length (ack_fields ack) = 10"
  by (simp add: ack_fields_def)

lemma ack_wire_decode:
  assumes ok: "uuid_ok U" and w: "ack_wire U ack bs"
  shows "BindAckPdu_decode U bs = Ok ack"
proof -
  let ?sa = "ack_secondary_addr ack" and ?rs = "ack_results ack"
  from w obtain pad rsv where n: "length ?sa \<le> 65535" "length ?rs \<le> 255" and rsv: "length rsv = 3"
    and al: "align4 (10 + length ?sa) = 10 + length ?sa + length pad"
    and bs: "bs = ack_fields ack @ ?sa @ pad @ [of_nat (length ?rs)] @ rsv
        @ concat (map (result_bytes U) ?rs)"
    by (auto simp: ack_wire_def align4_iff)
  let ?o = "10 + length ?sa + length pad"
  have f: "le16_at bs 0 = Ok (ack_max_xmit_frag ack)" "le16_at bs 2 = Ok (ack_max_recv_frag ack)"
    "le32_at bs 4 = Ok (ack_assoc_group_id ack)" "le16_at bs 8 = Ok (of_nat (length ?sa))"
    unfolding bs by (simp_all add: ack_fields_def byte_defs)
  have len: "length bs = ?o + 4 + length (concat (map (result_bytes U) ?rs))"
    by (simp add: bs rsv)
  have cnt: "bs ! ?o = of_nat (length ?rs)"
    by (simp add: bs nth_append)
  have d: "drop (?o + 4) bs = concat (map (result_bytes U) ?rs) @ []"
    by (simp add: bs rsv)
  have "for_loop (length ?rs) (result_step U bs) (?o + 4, []) = Ok (length bs, ?rs)"
    using result_loop.loop_enc [OF _ _ d, of "[]"] ok by (simp add: len list_all_length)
  moreover have "take (length ?sa) (drop 10 bs) = ?sa"
    by (simp add: bs)
  ultimately show ?thesis
    using f n
    by (simp add: BindAckPdu_decode_def Let_def al len cnt unat_of_nat_u16 unat_of_nat_u8)
qed

lemma length_10E:
  assumes "length bs = 10"
  obtains a b c d e f g h i j where "bs = [a, b, c, d, e, f, g, h, i, j]"
  using assms by (auto simp: numeral_eq_Suc length_Suc_conv)

lemma decode_ack_wire:
  assumes ok: "uuid_ok U" and dec: "BindAckPdu_decode U bs = Ok ack"
  shows "ack_wire U ack bs"
proof -
  have "12 \<le> length bs"
    using dec by (auto simp: BindAckPdu_decode_def split: if_splits)
  then have "10 \<le> length bs" by simp
  then obtain hb rest where bs: "bs = hb @ rest" and "length hb = 10"
    by (rule length_ge_split)
  then obtain a b c d e f g h i j where hb: "hb = [a, b, c, d, e, f, g, h, i, j]"
    by (auto elim!: length_10E)
  let ?n = "unat (u16_from_le_bytes i j)"
  let ?e = "10 + ?n" let ?o = "align4 ?e"
  from dec obtain off results where l: "?e \<le> length bs" "?o + 4 \<le> length bs"
    and loop: "for_loop (unat (bs ! ?o)) (result_step U bs) (?o + 4, []) = Ok (off, results)"
    and off: "off = length bs"
    and ack: "ack = \<lparr>ack_max_xmit_frag = u16_from_le_bytes a b, ack_max_recv_frag = u16_from_le_bytes c d,
       ack_assoc_group_id = u32_from_le_bytes e f g h, ack_secondary_addr = take ?n (drop 10 bs),
       ack_results = results\<rparr>"
    by (auto simp: BindAckPdu_decode_def Let_def bs hb and_then_eq_Ok split: if_splits)
  from result_loop.loop_exact [OF ok l(2) loop] obtain xs where
    xs: "results = xs" "length xs = unat (bs ! ?o)"
    and dr: "drop (?o + 4) bs = concat (map (result_bytes U) xs)"
    by (auto simp: off)
  have d3: "drop ?o bs = [bs ! ?o] @ take 3 (drop (Suc ?o) bs) @ drop (?o + 4) bs"
    using l(2) take_drop_split [of "Suc ?o" "?o + 4" bs] Cons_nth_drop_Suc [of ?o bs] by simp
  have d2: "drop ?e bs = take (?o - ?e) (drop ?e bs) @ drop ?o bs"
    using l(2) take_drop_split [of ?e ?o bs] by simp
  have d1: "drop 10 bs = take ?n (drop 10 bs) @ drop ?e bs"
    using l(1) take_drop_split [of 10 ?e bs] by simp
  have sa: "length (ack_secondary_addr ack) = ?n"
    using l(1) by (simp add: ack)
  have fields: "take 10 bs = ack_fields ack"
    using sa by (simp add: ack_fields_def) (simp add: ack bs hb)
  have "bs = take 10 bs @ drop 10 bs" by simp
  also have "\<dots> = ack_fields ack @ ack_secondary_addr ack @ take (?o - ?e) (drop ?e bs)
      @ [of_nat (length (ack_results ack))] @ take 3 (drop (Suc ?o) bs)
      @ concat (map (result_bytes U) (ack_results ack))"
    using d1 d2 d3 dr xs by (simp add: fields ack)
  finally have "bs = ack_fields ack @ ack_secondary_addr ack @ take (?o - ?e) (drop ?e bs)
      @ [of_nat (length (ack_results ack))] @ take 3 (drop (Suc ?o) bs)
      @ concat (map (result_bytes U) (ack_results ack))" .
  moreover have "length (ack_results ack) \<le> 255" "?n \<le> 65535"
    using xs unat_u8_less [of "bs ! ?o"] unat_u16_less [of "u16_from_le_bytes i j"]
    by (simp_all add: ack del: unat_u8_less unat_u16_less)
  moreover have "length (take (?o - ?e) (drop ?e bs)) < 4"
    "(?e + length (take (?o - ?e) (drop ?e bs))) mod 4 = 0"
    using l align4_iff [of ?e "?o - ?e"] by simp_all
  ultimately show ?thesis
    unfolding ack_wire_def sa using l
    by (intro conjI exI [of _ "take (?o - ?e) (drop ?e bs)"] exI [of _ "take 3 (drop (Suc ?o) bs)"]) auto
qed

section \<open>The accepted context\<close>

text \<open>
  The choice as a specification: the first accepted result decides; otherwise the first rejection
  is reported.
\<close>

definition accepted_context_spec ::
    "'u PresentationContext list \<Rightarrow> 'u PresentationResult list \<Rightarrow> ('u AcceptedContext, Error) result" where
  "accepted_context_spec proposed results =
     (case find (\<lambda>(c, r). pr_result r = PresentationResultCode_Acceptance) (zip proposed results) of
        Some (c, r) \<Rightarrow>
          Ok \<lparr>acc_context_id = ctx_context_id c, acc_transfer_syntax = pr_transfer_syntax r\<rparr>
      | None \<Rightarrow>
          if length proposed < length results
            then Err (InvalidPdu ''bind ack result has no matching proposed context'')
          else
            (case find (\<lambda>(c, r). pr_result r \<noteq> PresentationResultCode_NegotiateAck) (zip proposed results) of
               Some (c, r) \<Rightarrow>
                 Err (PresentationContextRejected (ctx_context_id c) (pr_result r) (pr_reason r))
             | None \<Rightarrow> Err (InvalidPdu ''bind ack has no presentation results'')))"

lemma accepted_context_loop_eq:
  "index \<le> length proposed \<Longrightarrow>
   accepted_context_loop proposed index first_rejection rs =
     (case find (\<lambda>(c, r). pr_result r = PresentationResultCode_Acceptance) (zip (drop index proposed) rs) of
        None \<Rightarrow>
          if \<not> length (drop index proposed) < length rs \<and> first_rejection \<noteq> None
          then Err (the first_rejection) else accepted_context_spec (drop index proposed) rs
      | Some _ \<Rightarrow> accepted_context_spec (drop index proposed) rs)"
proof (induction rs arbitrary: index first_rejection)
  case Nil
  then show ?case by (auto simp: accepted_context_spec_def split: option.splits)
next
  case (Cons r rs)
  show ?case
  proof (cases "index < length proposed")
    case True
    then have d: "drop index proposed = proposed ! index # drop (Suc index) proposed"
      by (simp add: Cons_nth_drop_Suc)
    have "Suc index \<le> length proposed" using True by simp
    from Cons.IH [OF this] show ?thesis
      using True
      by (auto simp: d Let_def accepted_context_spec_def split: option.splits)
  next
    case False
    with Cons.prems show ?thesis by (simp add: accepted_context_spec_def)
  qed
qed

lemma accepted_context_eq:
  "BindAckPdu_accepted_context ack proposed = accepted_context_spec proposed (ack_results ack)"
  by (simp add: BindAckPdu_accepted_context_def accepted_context_loop_eq split: option.splits)

lemma BindNakPdu_decode_safe [simp]: "BindNakPdu_decode bs \<noteq> Panic"
  by (auto simp: BindNakPdu_decode_def panic_simps)

lemma BindAckPdu_decode_encode:
  assumes "uuid_ok U" "length (ack_secondary_addr ack) \<le> 65535" "length (ack_results ack) \<le> 255"
  shows "BindAckPdu_decode U (bind_ack_body U ack) = Ok ack"
proof (rule ack_wire_decode [OF assms(1)])
  let ?n = "10 + length (ack_secondary_addr ack)"
  have "bind_ack_body U ack = ack_fields ack @ ack_secondary_addr ack @ replicate (align4 ?n - ?n) 0
      @ [of_nat (length (ack_results ack))] @ [0, 0, 0]
      @ concat (map (result_bytes U) (ack_results ack))"
    by (simp add: bind_ack_body_def ack_fields_def Let_def u16_to_le_bytes_def [of 0])
  then show "ack_wire U ack (bind_ack_body U ack)"
    unfolding ack_wire_def using assms(2,3) align4_iff [of ?n "align4 ?n - ?n"]
    by (intro conjI exI [of _ "replicate (align4 ?n - ?n) 0"] exI [of _ "[0, 0, 0]"]) simp_all
qed

lemma with_contexts_roundtrip:
  assumes "uuid_ok U" "list_all (\<lambda>c. length (ctx_transfer_syntaxes c) \<le> 255) cs" "length cs \<le> 255"
  shows "\<exists>b. BindPdu_with_contexts U xmit recv grp cs = Ok b \<and>
     bind_max_xmit_frag b = xmit \<and> bind_max_recv_frag b = recv \<and> bind_assoc_group_id b = grp \<and>
     bind_presentation_context_list b = context_list_bytes U cs \<and>
     BindPdu_presentation_context_list U b = Ok \<lparr>contexts = cs\<rparr>"
proof -
  have "list_all (context_valid U) cs"
    using assms(1,2) by (simp add: context_valid_def list_all_iff)
  with assms show ?thesis
    using PresentationContextList_decode_encode [of U "\<lparr>contexts = cs\<rparr>"]
    by (simp add: BindPdu_with_contexts_def PresentationContextList_encode_cases
        PresentationContextList_new_def BindPdu_presentation_context_list_def)
qed

section \<open>Properties\<close>

definition sample_syntax :: "uuid16 SyntaxId" where
  "sample_syntax = \<lparr>syn_uuid = ((1, 2, 3, 4), (5, 6, 7, 8), (9, 10, 11, 12), (13, 14, 15, 16)),
     syn_version = 1\<rparr>"

definition sample_context :: "uuid16 PresentationContext" where
  "sample_context = PresentationContext_new std_uuid 5 sample_syntax [TransferSyntax_Ndr32]"

definition sample_ack :: "uuid16 BindAckPdu" where
  "sample_ack = \<lparr>ack_max_xmit_frag = 4280, ack_max_recv_frag = 4280, ack_assoc_group_id = 7,
     ack_secondary_addr = [0], ack_results =
       [\<lparr>pr_result = PresentationResultCode_Acceptance,
         pr_reason = PresentationRejectReason_ReasonNotSpecified,
         pr_transfer_syntax = TransferSyntax_syntax_id std_uuid TransferSyntax_Ndr32\<rparr>]\<rparr>"

text \<open>
  C25: the bind-ack decoder implements its format exactly.  It returns \<open>ack\<close> iff the bytes are the
  fixed fields, the secondary address with its sixteen-bit length, padding up to a multiple of four
  (of any content), the eight-bit number of results, three reserved bytes and the results, with
  nothing after them; lengths that do not fit their field are impossible.
\<close>

theorem ack_decode_iff_wire:
  assumes "uuid_ok U"
  shows "BindAckPdu_decode U bs = Ok ack \<longleftrightarrow> ack_wire U ack bs"
  using ack_wire_decode [OF assms] decode_ack_wire [OF assms] by blast

theorem ack_decode_iff_wire_witness:
  "uuid_ok std_uuid \<and> BindAckPdu_decode std_uuid (bind_ack_body std_uuid sample_ack) = Ok sample_ack \<and>
   ack_wire std_uuid sample_ack (bind_ack_body std_uuid sample_ack)"
proof -
  have "BindAckPdu_decode std_uuid (bind_ack_body std_uuid sample_ack) = Ok sample_ack"
    by (rule BindAckPdu_decode_encode) (simp_all add: uuid_ok_std_uuid sample_ack_def)
  then show ?thesis
    using ack_decode_iff_wire [OF uuid_ok_std_uuid] uuid_ok_std_uuid by blast
qed

text \<open>
  C31: no input makes a decoder of bind negotiation panic: not the bind-ack decoder (the target of
  \<^verbatim>\<open>fuzz/fuzz_targets/bind_ack_decode.rs\<close>) with its alignment loop and result loop, not the decoder
  of presentation context lists with its nested loops, and not the bind-nak decoder.
\<close>

theorem bind_decoders_panic_free:
  "BindAckPdu_decode U bs \<noteq> Panic \<and> PresentationContextList_decode U bs \<noteq> Panic \<and>
   BindNakPdu_decode bs \<noteq> Panic"
  by simp

text \<open>
  C26: the server reads the proposed contexts from the bind body.  For at most 255 contexts with at
  most 255 transfer syntaxes each, building a bind body, encoding it, decoding it and decoding its
  context list gives the contexts back in order.
\<close>

theorem bind_contexts_roundtrip:
  assumes "uuid_ok U" "list_all (\<lambda>c. length (ctx_transfer_syntaxes c) \<le> 255) cs" "length cs \<le> 255"
  shows "\<exists>b. BindPdu_with_contexts U xmit recv grp cs = Ok b \<and>
     BindPdu_decode (BindPdu_encode b) = Ok b \<and> bind_max_xmit_frag b = xmit \<and>
     bind_max_recv_frag b = recv \<and> bind_assoc_group_id b = grp \<and>
     BindPdu_presentation_context_list U b = Ok \<lparr>contexts = cs\<rparr>"
  using with_contexts_roundtrip [OF assms] by fastforce

theorem bind_contexts_roundtrip_witness:
  "\<exists>b. BindPdu_with_contexts std_uuid 4280 4280 0 [sample_context, sample_context]
       = (Ok b :: (BindPdu, Error) result) \<and>
     BindPdu_decode (BindPdu_encode b) = Ok b \<and> bind_max_xmit_frag b = 4280 \<and>
     bind_max_recv_frag b = 4280 \<and> bind_assoc_group_id b = 0 \<and>
     BindPdu_presentation_context_list std_uuid b = Ok \<lparr>contexts = [sample_context, sample_context]\<rparr>"
proof -
  have "list_all (\<lambda>c. length (ctx_transfer_syntaxes c) \<le> 255) [sample_context, sample_context]"
    "length [sample_context, sample_context] \<le> 255"
    by (simp_all add: sample_context_def PresentationContext_new_def)
  from bind_contexts_roundtrip [OF uuid_ok_std_uuid this] show ?thesis .
qed

text \<open>
  C36: \<open>PresentationContextList::encode\<close> panics exactly when some context has more than 255 transfer
  syntaxes: the \<open>expect\<close> in it relies on a validation that no caller performs, so
  \<open>BindPdu::with_contexts\<close> panics on such a proposal too.
\<close>

theorem context_list_encode_panics:
  "(PresentationContextList_encode U l = Panic \<longleftrightarrow>
      (\<exists>c \<in> set (contexts l). 255 < length (ctx_transfer_syntaxes c))) \<and>
   (BindPdu_with_contexts U xmit recv grp cs = Panic \<longleftrightarrow>
      (\<exists>c \<in> set cs. 255 < length (ctx_transfer_syntaxes c)))"
  by (auto simp: BindPdu_with_contexts_def PresentationContextList_encode_cases
      PresentationContextList_new_def list_all_iff not_le)

text \<open>
  C37: a list of 256 or more presentation contexts with at most 255 transfer syntaxes each is encoded
  without an error: the count field, its first byte, holds the length modulo 256, three zero bytes
  and all the contexts follow, and the decoder of the crate rejects the result for trailing bytes.
\<close>

theorem context_count_truncated:
  assumes "uuid_ok U" "list_all (\<lambda>c. length (ctx_transfer_syntaxes c) \<le> 255) (contexts l)"
    and "256 \<le> length (contexts l)"
  shows "\<exists>bs. PresentationContextList_encode U l = Ok bs \<and>
     unat (bs ! 0) = length (contexts l) mod 256 \<and> take 3 (drop 1 bs) = [0, 0, 0] \<and>
     drop 4 bs = concat (map (context_bytes U) (contexts l)) \<and>
     PresentationContextList_decode U bs =
       Err (InvalidPdu ''presentation context list has trailing bytes'')"
proof -
  have "list_all (context_valid U) (contexts l)"
    using assms(1,2) by (simp add: context_valid_def list_all_iff)
  from context_list_truncated [OF this assms(3)] assms(2) show ?thesis
    by (simp add: PresentationContextList_encode_cases context_list_bytes_def unat_of_nat)
qed

theorem context_count_truncated_witness:
  "\<exists>bs. PresentationContextList_encode std_uuid \<lparr>contexts = replicate 300 sample_context\<rparr>
       = (Ok bs :: (bytes, Error) result) \<and> unat (bs ! 0) = 44 \<and>
     PresentationContextList_decode std_uuid bs =
       Err (InvalidPdu ''presentation context list has trailing bytes'')"
proof -
  have "list_all (\<lambda>c. length (ctx_transfer_syntaxes c) \<le> 255) (contexts \<lparr>contexts = replicate 300 sample_context\<rparr>)"
    "256 \<le> length (contexts \<lparr>contexts = replicate 300 sample_context\<rparr>)"
    by (simp_all add: sample_context_def PresentationContext_new_def list_all_length)
  from context_count_truncated [OF uuid_ok_std_uuid this] show ?thesis by auto
qed

text \<open>
  C24: the client selects the first accepted context.  \<open>BindAckPdu::accepted_context\<close> pairs results
  with proposals by position; the first accepted pair gives the context id and transfer syntax;
  if there is none, a surplus of results is an error, and otherwise the first result that is
  neither an acceptance nor a negotiate-ack is reported as the rejection.
\<close>

theorem accepted_context_refines_spec:
  "BindAckPdu_accepted_context ack proposed = accepted_context_spec proposed (ack_results ack)"
  by (rule accepted_context_eq)

end
