(* ===== verification/Transport.thy ===== *)
theory Transport
  imports Rpc_Error
begin

text \<open>
  The transport boundary of the client (\<^verbatim>\<open>src/transport.rs\<close>): the trait \<open>RpcTransport\<close> as a record of
  its methods over the state \<open>'t\<close> of a transport, the contract of a transport that works, and the
  in-memory transport of \<^verbatim>\<open>examples/in_memory_bind_call.rs\<close>.
\<close>

section \<open>The trait\<close>

record 't RpcTransport =
  send_pdu :: "'t \<Rightarrow> bytes \<Rightarrow> (unit, Error) result \<times> 't"
  recv_pdu :: "'t \<Rightarrow> (bytes, Error) result \<times> 't"

text \<open>Sending several PDUs in a row, up to the first failure.\<close>

primrec send_all :: "'t RpcTransport \<Rightarrow> 't \<Rightarrow> bytes list \<Rightarrow> (unit, Error) result \<times> 't" where
  "send_all T t [] = (Ok (), t)"
| "send_all T t (f # fs) = and_then_st (send_pdu T t f) (\<lambda>_ t'. send_all T t' fs)"

lemma send_all_append:
  "send_all T t (fs @ gs) = and_then_st (send_all T t fs) (\<lambda>_ t'. send_all T t' gs)"
  by (induction fs arbitrary: t) (simp_all add: and_then_st_assoc)

text \<open>Receiving a given number of PDUs.\<close>

primrec recv_all :: "'t RpcTransport \<Rightarrow> nat \<Rightarrow> 't \<Rightarrow> (bytes list, Error) result \<times> 't" where
  "recv_all T 0 t = (Ok [], t)"
| "recv_all T (Suc n) t =
     and_then_st (recv_pdu T t) (\<lambda>f t. and_then_st (recv_all T n t) (\<lambda>fs t. (Ok (f # fs), t)))"

section \<open>The contract\<close>

text \<open>
  A transport that works: sending succeeds and appends the PDU to what has been \<open>sent\<close>; when the
  transport \<open>delivers\<close> a list of incoming PDUs, each a \<open>frame\<close>, receiving takes them one by one, in
  order and unchanged; neither direction disturbs the other.
\<close>

locale reliable_transport =
  fixes T :: "'t RpcTransport" and frame :: "bytes \<Rightarrow> bool"
    and delivers :: "'t \<Rightarrow> bytes list \<Rightarrow> bool" and sent :: "'t \<Rightarrow> bytes"
  assumes send_ok: "\<exists>t'. send_pdu T t bs = (Ok (), t') \<and> sent t' = sent t @ bs \<and>
       (\<forall>fs. delivers t fs \<longrightarrow> delivers t' fs)"
    and recv_ok: "delivers t (f # fs) \<Longrightarrow> frame f \<Longrightarrow>
       \<exists>t'. recv_pdu T t = (Ok f, t') \<and> delivers t' fs \<and> sent t' = sent t"
begin

lemma send_all_ok:
  "\<exists>t'. send_all T t frames = (Ok (), t') \<and> sent t' = sent t @ concat frames \<and>
     (\<forall>fs. delivers t fs \<longrightarrow> delivers t' fs)"
proof (induction frames arbitrary: t)
  case Nil
  then show ?case by simp
next
  case (Cons f frames)
  obtain t1 where "send_pdu T t f = (Ok (), t1)" "sent t1 = sent t @ f"
    "\<forall>fs. delivers t fs \<longrightarrow> delivers t1 fs"
    using send_ok by blast
  moreover obtain t2 where "send_all T t1 frames = (Ok (), t2)" "sent t2 = sent t1 @ concat frames"
    "\<forall>fs. delivers t1 fs \<longrightarrow> delivers t2 fs"
    using Cons.IH by blast
  ultimately show ?case by simp
qed

lemma recv_all_ok:
  "delivers t (fs @ gs) \<Longrightarrow> list_all frame fs \<Longrightarrow>
     \<exists>t'. recv_all T (length fs) t = (Ok fs, t') \<and> delivers t' gs \<and> sent t' = sent t"
proof (induction fs arbitrary: t)
  case (Cons f fs)
  then obtain t1 where "recv_pdu T t = (Ok f, t1)" "delivers t1 (fs @ gs)" "sent t1 = sent t"
    using recv_ok [of t f "fs @ gs"] by auto
  with Cons.IH [of t1] Cons.prems(2) show ?case by auto
qed simp

end

section \<open>The in-memory transport\<close>

record MemoryTransport =
  mt_incoming :: "bytes list"
  mt_sent :: "bytes list"

definition MemoryTransport_new :: "bytes list \<Rightarrow> MemoryTransport" where
  "MemoryTransport_new incoming = \<lparr>mt_incoming = incoming, mt_sent = []\<rparr>"

definition MemoryTransport_send_pdu ::
    "MemoryTransport \<Rightarrow> bytes \<Rightarrow> (unit, Error) result \<times> MemoryTransport" where
  "MemoryTransport_send_pdu t bs = (Ok (), t\<lparr>mt_sent := mt_sent t @ [bs]\<rparr>)"

definition MemoryTransport_recv_pdu ::
    "MemoryTransport \<Rightarrow> (bytes, Error) result \<times> MemoryTransport" where
  "MemoryTransport_recv_pdu t =
     (case mt_incoming t of
        f # fs \<Rightarrow> (Ok f, t\<lparr>mt_incoming := fs\<rparr>)
      | [] \<Rightarrow> (Err (Transport ''no queued PDU available''), t))"

definition memory_transport :: "MemoryTransport RpcTransport" where
  "memory_transport =
     \<lparr>send_pdu = MemoryTransport_send_pdu, recv_pdu = MemoryTransport_recv_pdu\<rparr>"

lemma memory_transport_simps [simp]:
  "send_pdu memory_transport t bs = (Ok (), t\<lparr>mt_sent := mt_sent t @ [bs]\<rparr>)"
  "mt_incoming t = f # fs \<Longrightarrow> recv_pdu memory_transport t = (Ok f, t\<lparr>mt_incoming := fs\<rparr>)"
  "mt_incoming t = [] \<Longrightarrow>
     recv_pdu memory_transport t = (Err (Transport ''no queued PDU available''), t)"
  by (simp_all add: memory_transport_def MemoryTransport_send_pdu_def MemoryTransport_recv_pdu_def)

lemma memory_send_all [simp]:
  "send_all memory_transport t fs = (Ok (), t\<lparr>mt_sent := mt_sent t @ fs\<rparr>)"
  by (induction fs arbitrary: t) simp_all

definition memory_delivers :: "MemoryTransport \<Rightarrow> bytes list \<Rightarrow> bool" where
  "memory_delivers t fs \<longleftrightarrow> take (length fs) (mt_incoming t) = fs"

interpretation memory: reliable_transport memory_transport "\<lambda>_. True" memory_delivers
    "\<lambda>t. concat (mt_sent t)"
proof unfold_locales
  fix t :: MemoryTransport and f :: bytes and fs :: "bytes list"
  assume "memory_delivers t (f # fs)"
  then obtain rest where "mt_incoming t = f # rest" "take (length fs) rest = fs"
    by (cases "mt_incoming t") (simp_all add: memory_delivers_def)
  then show "\<exists>t'. recv_pdu memory_transport t = (Ok f, t') \<and> memory_delivers t' fs \<and>
      concat (mt_sent t') = concat (mt_sent t)"
    by (simp add: memory_delivers_def)
qed (simp add: memory_delivers_def)

end
