(* ===== verification/Client.thy ===== *)
theory Client
  imports Bind Transport
begin

text \<open>
  The RPC client (\<^verbatim>\<open>src/client.rs\<close>) over an abstract transport: binding with or without an
  authentication provider, request fragmentation, response reassembly, and calls.  The transport is
  a record \<open>T\<close> of its methods with a state \<open>'t\<close>; a boxed provider is its table of methods with its
  state.  The trace events of the optional feature \<^verbatim>\<open>tracing\<close> are left out.
\<close>

section \<open>The client\<close>

definition REQUEST_HEADER_LEN :: nat where
  "REQUEST_HEADER_LEN = 8"

definition DEFAULT_MAX_XMIT_FRAG :: u16 where
  "DEFAULT_MAX_XMIT_FRAG = 4280"

type_synonym 'p boxed_provider = "'p RpcAuthProvider \<times> 'p"

record ('t, 'p) RpcClient =
  cl_transport :: 't
  cl_context_id :: u16
  cl_call_id :: u32
  cl_max_xmit_frag :: u16
  cl_auth_provider :: "'p boxed_provider option"

section \<open>Authenticated packets\<close>

definition auth_padding_len :: "nat \<Rightarrow> u8" where
  "auth_padding_len body_len = of_nat ((4 - body_len mod 4) mod 4)"

definition auth_pfc_flags :: "'p boxed_provider \<Rightarrow> u8" where
  "auth_pfc_flags provider = PFC_FIRST_FRAG OR PFC_LAST_FRAG"

definition provider_security_trailer :: "'p boxed_provider \<Rightarrow> u8 \<Rightarrow> SecurityTrailer" where
  "provider_security_trailer = (\<lambda>(A, p) pad_length.
     \<lparr>tr_auth_type = auth_type A p, tr_auth_level = auth_level A p, auth_pad_length = pad_length,
      auth_reserved = 0, tr_auth_context_id = auth_context_id A p\<rparr>)"

definition authenticated_packet ::
    "ndr_crate \<Rightarrow> PduType \<Rightarrow> u32 \<Rightarrow> u8 \<Rightarrow> bytes \<Rightarrow> 'p boxed_provider \<Rightarrow> bytes \<Rightarrow> (PduPacket, Error) result" where
  "authenticated_packet N ty cid flags b provider value_bytes =
     (if auth_level (fst provider) (snd provider) \<in> {AuthLevel_PacketIntegrity, AuthLevel_PacketPrivacy}
      then Err (Auth ''RPC auth levels above Connect are not supported in v1'')
      else
        let h = PduHeader_new N ty flags cid;
            trailer = provider_security_trailer provider (auth_padding_len (length b))
        in Ok (PduPacket_with_security_trailer h b trailer value_bytes))"

section \<open>Binding\<close>

text \<open>The first token of the provider, when there is one.\<close>

definition init_auth ::
    "(string \<times> 'p boxed_provider) option \<Rightarrow> (('p boxed_provider \<times> bytes) option, Error) result" where
  "init_auth auth =
     (case auth of
        None \<Rightarrow> Ok None
      | Some (target, A, p) \<Rightarrow>
          let (r, p') = init_context A p target
          in and_then (map_err Error_from_RpcAuthError r) (\<lambda>token. Ok (Some ((A, p'), token))))"

definition bind_packet ::
    "ndr_crate \<Rightarrow> u32 \<Rightarrow> bytes \<Rightarrow> ('p boxed_provider \<times> bytes) option \<Rightarrow> (PduPacket, Error) result" where
  "bind_packet N cid bind_body auth_provider =
     (case auth_provider of
        Some (provider, token) \<Rightarrow>
          authenticated_packet N PduType_Bind cid (auth_pfc_flags provider) bind_body provider token
      | None \<Rightarrow>
          Ok (PduPacket_new (PduHeader_new N PduType_Bind (PFC_FIRST_FRAG OR PFC_LAST_FRAG) cid) bind_body []))"

text \<open>The third leg: the provider's answer to the server's token, sent as an AUTH3 PDU.\<close>

definition complete_auth ::
    "ndr_crate \<Rightarrow> 't RpcTransport \<Rightarrow> u32 \<Rightarrow> PduPacket \<Rightarrow> ('p boxed_provider \<times> bytes) option \<Rightarrow> 't
       \<Rightarrow> ('p boxed_provider option, Error) result \<times> 't" where
  "complete_auth N T cid response auth_provider t =
     (case auth_provider of
        None \<Rightarrow> (Ok None, t)
      | Some ((A, p), _) \<Rightarrow>
          if auth_value response = [] then (Ok (Some (A, p)), t)
          else
            let (r, p') = provider_step A p (auth_value response) in
            and_then_st (map_err Error_from_RpcAuthError r, t) (\<lambda>token t.
            if token = [] then (Ok (Some (A, p')), t)
            else
              and_then_st (authenticated_packet N PduType_Auth3 cid (auth_pfc_flags (A, p'))
                  [0x20, 0x20, 0x20, 0x20] (A, p') token, t) (\<lambda>auth3 t.
              and_then_st (PduPacket_encode N auth3, t) (\<lambda>bs t.
              and_then_st (send_pdu T t bs) (\<lambda>_ t. (Ok (Some (A, p')), t))))))"

definition bind_response ::
    "ndr_crate \<Rightarrow> 'u uuid_crate \<Rightarrow> 't RpcTransport \<Rightarrow> u32 \<Rightarrow> 'u PresentationContext list \<Rightarrow> PduPacket
       \<Rightarrow> ('p boxed_provider \<times> bytes) option \<Rightarrow> 't \<Rightarrow> (('t, 'p) RpcClient, Error) result \<times> 't" where
  "bind_response N U T cid proposed response auth_provider t =
     (if ptype (header response) = PduType_BindAck then
        and_then_st (BindAckPdu_decode U (body response), t) (\<lambda>ack t.
        and_then_st (BindAckPdu_accepted_context ack proposed, t) (\<lambda>accepted t.
        and_then_st (complete_auth N T cid response auth_provider t) (\<lambda>provider t.
          (Ok \<lparr>cl_transport = t, cl_context_id = acc_context_id accepted, cl_call_id = cid + 1,
               cl_max_xmit_frag = ack_max_xmit_frag ack, cl_auth_provider = provider\<rparr>, t))))
      else if ptype (header response) = PduType_BindNak then
        (and_then (BindNakPdu_decode (body response)) (\<lambda>nak. Err (BindRejected (nak_reject_reason nak))), t)
      else (Err (InvalidPdu ''expected bind ack or bind nak PDU''), t))"

text \<open>
  The function consumes the transport; the model returns the last state of the transport beside the
  result, so that what was sent before an error can be observed.
\<close>

definition bind_with_contexts_inner ::
    "ndr_crate \<Rightarrow> 'u uuid_crate \<Rightarrow> 't RpcTransport \<Rightarrow> 't \<Rightarrow> 'u PresentationContext list
       \<Rightarrow> (string \<times> 'p boxed_provider) option \<Rightarrow> (('t, 'p) RpcClient, Error) result \<times> 't" where
  "bind_with_contexts_inner N U T t proposed auth =
     (if proposed = [] then (Err (InvalidPdu ''bind requires at least one presentation context''), t)
      else
        and_then_st (init_auth auth, t) (\<lambda>auth_provider t.
        and_then_st (BindPdu_with_contexts U DEFAULT_MAX_XMIT_FRAG DEFAULT_MAX_XMIT_FRAG 0 proposed, t) (\<lambda>b t.
        let bind_body = BindPdu_encode b; cid = 1 in
        and_then_st (bind_packet N cid bind_body auth_provider, t) (\<lambda>packet t.
        and_then_st (PduPacket_encode N packet, t) (\<lambda>bs t.
        and_then_st (send_pdu T t bs) (\<lambda>_ t.
        and_then_st (recv_pdu T t) (\<lambda>reply t.
        and_then_st (PduPacket_decode N reply, t) (\<lambda>response t.
        if call_id (header response) \<noteq> cid then (Err (InvalidPdu ''bind response call id mismatch''), t)
        else bind_response N U T cid proposed response auth_provider t))))))))"

definition bind_with_contexts ::
    "ndr_crate \<Rightarrow> 'u uuid_crate \<Rightarrow> 't RpcTransport \<Rightarrow> 't \<Rightarrow> 'u PresentationContext list
       \<Rightarrow> (('t, 'p) RpcClient, Error) result \<times> 't" where
  "bind_with_contexts N U T t proposed = bind_with_contexts_inner N U T t proposed None"

definition RpcClient_bind ::
    "ndr_crate \<Rightarrow> 'u uuid_crate \<Rightarrow> 't RpcTransport \<Rightarrow> 't \<Rightarrow> 'u InterfaceId
       \<Rightarrow> (('t, 'p) RpcClient, Error) result \<times> 't" where
  "RpcClient_bind N U T t iface =
     bind_with_contexts N U T t
       [PresentationContext_new U 0 (InterfaceId_syntax_id iface) [TransferSyntax_Ndr32]]"

definition bind_with_auth_provider ::
    "ndr_crate \<Rightarrow> 'u uuid_crate \<Rightarrow> 't RpcTransport \<Rightarrow> 't \<Rightarrow> 'u PresentationContext list \<Rightarrow> string
       \<Rightarrow> 'p boxed_provider \<Rightarrow> (('t, 'p) RpcClient, Error) result \<times> 't" where
  "bind_with_auth_provider N U T t proposed target provider =
     bind_with_contexts_inner N U T t proposed (Some (target, provider))"

definition new_bound :: "'t \<Rightarrow> u16 \<Rightarrow> ('t, 'p) RpcClient" where
  "new_bound t ctx =
     \<lparr>cl_transport = t, cl_context_id = ctx, cl_call_id = 1, cl_max_xmit_frag = DEFAULT_MAX_XMIT_FRAG,
      cl_auth_provider = None\<rparr>"

definition new_bound_with_auth :: "'t \<Rightarrow> u16 \<Rightarrow> 'p boxed_provider \<Rightarrow> ('t, 'p) RpcClient" where
  "new_bound_with_auth t ctx provider =
     \<lparr>cl_transport = t, cl_context_id = ctx, cl_call_id = 1, cl_max_xmit_frag = DEFAULT_MAX_XMIT_FRAG,
      cl_auth_provider = Some provider\<rparr>"

definition with_max_xmit_frag :: "('t, 'p) RpcClient \<Rightarrow> u16 \<Rightarrow> ('t, 'p) RpcClient" where
  "with_max_xmit_frag c m = c\<lparr>cl_max_xmit_frag := m\<rparr>"

section \<open>Requests\<close>

definition on_transport ::
    "('t \<Rightarrow> ('a, Error) result \<times> 't) \<Rightarrow> ('t, 'p) RpcClient \<Rightarrow> ('a, Error) result \<times> ('t, 'p) RpcClient" where
  "on_transport f c = (let (r, t) = f (cl_transport c) in (r, c\<lparr>cl_transport := t\<rparr>))"

definition next_call_id :: "('t, 'p) RpcClient \<Rightarrow> u32 \<times> ('t, 'p) RpcClient" where
  "next_call_id c = (cl_call_id c, c\<lparr>cl_call_id := max (cl_call_id c + 1) 1\<rparr>)"

definition request_fragment ::
    "('t, 'p) RpcClient \<Rightarrow> u16 \<Rightarrow> u32 \<Rightarrow> bytes \<Rightarrow> 'u RequestPdu" where
  "request_fragment c opnum alloc_hint stub_data =
     \<lparr>req_alloc_hint = alloc_hint, req_ctx_id = cl_context_id c, req_opnum = opnum,
      req_object = None, req_stub_data = stub_data\<rparr>"

definition request_packet ::
    "ndr_crate \<Rightarrow> 'u uuid_crate \<Rightarrow> ('t, 'p) RpcClient \<Rightarrow> u32 \<Rightarrow> u8 \<Rightarrow> 'u RequestPdu
       \<Rightarrow> (PduPacket, Error) result" where
  "request_packet N U c cid flags request =
     (case cl_auth_provider c of
        None \<Rightarrow> PduPacket_from_request_with_flags N U cid flags request
      | Some (A, p) \<Rightarrow>
          (case auth_level A p of
             AuthLevel_None \<Rightarrow> PduPacket_from_request_with_flags N U cid flags request
           | AuthLevel_Connect \<Rightarrow> PduPacket_from_request_with_flags N U cid flags request
           | AuthLevel_PacketIntegrity \<Rightarrow>
               Err (Auth ''RPC auth level PacketIntegrity is not supported in v1'')
           | AuthLevel_PacketPrivacy \<Rightarrow>
               Err (Auth ''RPC auth level PacketPrivacy is not supported in v1'')))"

text \<open>\<open>request_packet(..)?\<close>, \<open>encode()?\<close> and \<open>send_pdu(..)?\<close>, as both branches of the sender do.\<close>

definition send_fragment ::
    "ndr_crate \<Rightarrow> 'u uuid_crate \<Rightarrow> 't RpcTransport \<Rightarrow> u32 \<Rightarrow> u8 \<Rightarrow> 'u RequestPdu \<Rightarrow> ('t, 'p) RpcClient
       \<Rightarrow> (unit, Error) result \<times> ('t, 'p) RpcClient" where
  "send_fragment N U T cid flags request c =
     and_then_st (request_packet N U c cid flags request, c) (\<lambda>packet c.
     and_then_st (PduPacket_encode N packet, c) (\<lambda>bs c.
       on_transport (\<lambda>t. send_pdu T t bs) c))"

definition fragment_flags :: "nat \<Rightarrow> nat \<Rightarrow> nat \<Rightarrow> u8" where
  "fragment_flags offset end_off stub_len =
     (let flags = 0;
          flags = (if offset = 0 then flags OR PFC_FIRST_FRAG else flags)
      in if end_off = stub_len then flags OR PFC_LAST_FRAG else flags)"

text \<open>The loop over the offset into the stub; a step that makes no progress would repeat forever.\<close>

partial_function (option) send_fragments_loop ::
    "ndr_crate \<Rightarrow> 'u uuid_crate \<Rightarrow> 't RpcTransport \<Rightarrow> nat \<Rightarrow> u32 \<Rightarrow> u16 \<Rightarrow> bytes \<Rightarrow> nat \<Rightarrow> ('t, 'p) RpcClient
       \<Rightarrow> ((unit, Error) result \<times> ('t, 'p) RpcClient) option" where
  "send_fragments_loop N U T max_stub_per_frag cid opnum stub offset c =
     (if offset < length stub then
        let end_off = min (offset + max_stub_per_frag) (length stub);
            flags = fragment_flags offset end_off (length stub)
        in (case and_then_st (slice stub offset end_off, c) (\<lambda>chunk c.
                   send_fragment N U T cid flags
                     (request_fragment c opnum (of_nat (length stub)) chunk) c) of
              (Ok _, c) \<Rightarrow> send_fragments_loop N U T max_stub_per_frag cid opnum stub end_off c
            | (Err e, c) \<Rightarrow> Some (Err e, c)
            | (Panic, c) \<Rightarrow> Some (Panic, c))
      else Some (Ok (), c))"

definition send_request_fragments ::
    "ndr_crate \<Rightarrow> 'u uuid_crate \<Rightarrow> 't RpcTransport \<Rightarrow> u32 \<Rightarrow> u16 \<Rightarrow> bytes \<Rightarrow> ('t, 'p) RpcClient
       \<Rightarrow> ((unit, Error) result \<times> ('t, 'p) RpcClient) option" where
  "send_request_fragments N U T cid opnum stub c =
     and_then_run (Some (ok_or (checked_sub (unat (cl_max_xmit_frag c)) (unat COMMON_HEADER_LEN + REQUEST_HEADER_LEN))
         (InvalidPdu ''max transmit fragment is too small''), c)) (\<lambda>max_stub_per_frag c.
     if max_stub_per_frag = 0 then Some (Err (InvalidPdu ''max transmit fragment is too small''), c)
     else if stub = [] then
       Some (send_fragment N U T cid (PFC_FIRST_FRAG OR PFC_LAST_FRAG) (request_fragment c opnum 0 stub) c)
     else send_fragments_loop N U T max_stub_per_frag cid opnum stub 0 c)"

section \<open>Responses\<close>

definition verify_response_packet ::
    "('t, 'p) RpcClient \<Rightarrow> bytes \<Rightarrow> PduPacket \<Rightarrow> (unit, Error) result" where
  "verify_response_packet c bs packet =
     (case cl_auth_provider c of
        None \<Rightarrow> Ok ()
      | Some (A, p) \<Rightarrow>
          (case auth_level A p of
             AuthLevel_None \<Rightarrow> Ok ()
           | AuthLevel_Connect \<Rightarrow> Ok ()
           | AuthLevel_PacketIntegrity \<Rightarrow>
               Err (Auth ''RPC auth level PacketIntegrity is not supported in v1'')
           | AuthLevel_PacketPrivacy \<Rightarrow>
               Err (Auth ''RPC auth level PacketPrivacy is not supported in v1'')))"

text \<open>
  The treatment of one packet: \<open>Inl\<close> returns the response stub, \<open>Inr\<close> continues the loop with the
  new \<open>saw_first\<close> and \<open>response_stub\<close>.
\<close>

definition response_step ::
    "u32 \<Rightarrow> PduPacket \<Rightarrow> bool \<Rightarrow> bytes \<Rightarrow> (bytes + bool \<times> bytes, Error) result" where
  "response_step expected_call_id packet saw_first stub =
     (if call_id (header packet) \<noteq> expected_call_id
        then Err (InvalidPdu ''response call id does not match request'')
      else if ptype (header packet) = PduType_Response then
        let saw_first = (saw_first \<or> pfc_flags (header packet) AND PFC_FIRST_FRAG \<noteq> 0) in
        if \<not> saw_first then Err (InvalidPdu ''response is missing first fragment'')
        else
          and_then (ResponsePdu_decode (body packet)) (\<lambda>response.
          let stub = stub @ resp_stub_data response in
          if pfc_flags (header packet) AND PFC_LAST_FRAG \<noteq> 0 then Ok (Inl stub)
          else Ok (Inr (saw_first, stub)))
      else if ptype (header packet) = PduType_Fault then
        and_then (FaultPdu_decode (body packet)) (\<lambda>fault. Err (Fault (fault_status fault)))
      else Err (InvalidPdu ''expected response or fault PDU''))"

definition recv_iteration ::
    "ndr_crate \<Rightarrow> 't RpcTransport \<Rightarrow> u32 \<Rightarrow> bool \<Rightarrow> bytes \<Rightarrow> ('t, 'p) RpcClient
       \<Rightarrow> (bytes + bool \<times> bytes, Error) result \<times> ('t, 'p) RpcClient" where
  "recv_iteration N T expected_call_id saw_first stub c =
     and_then_st (on_transport (recv_pdu T) c) (\<lambda>bs c.
     and_then_st (PduPacket_decode N bs, c) (\<lambda>packet c.
     and_then_st (verify_response_packet c bs packet, c) (\<lambda>_ c.
       (response_step expected_call_id packet saw_first stub, c))))"

partial_function (option) recv_response_loop ::
    "ndr_crate \<Rightarrow> 't RpcTransport \<Rightarrow> u32 \<Rightarrow> bool \<Rightarrow> bytes \<Rightarrow> ('t, 'p) RpcClient
       \<Rightarrow> ((bytes, Error) result \<times> ('t, 'p) RpcClient) option" where
  "recv_response_loop N T expected_call_id saw_first stub c =
     (case recv_iteration N T expected_call_id saw_first stub c of
        (Ok (Inl response_stub), c) \<Rightarrow> Some (Ok response_stub, c)
      | (Ok (Inr (saw_first, stub)), c) \<Rightarrow> recv_response_loop N T expected_call_id saw_first stub c
      | (Err e, c) \<Rightarrow> Some (Err e, c)
      | (Panic, c) \<Rightarrow> Some (Panic, c))"

definition recv_response_fragments ::
    "ndr_crate \<Rightarrow> 't RpcTransport \<Rightarrow> u32 \<Rightarrow> ('t, 'p) RpcClient
       \<Rightarrow> ((bytes, Error) result \<times> ('t, 'p) RpcClient) option" where
  "recv_response_fragments N T expected_call_id c = recv_response_loop N T expected_call_id False [] c"

section \<open>Calls\<close>

definition call_raw ::
    "ndr_crate \<Rightarrow> 'u uuid_crate \<Rightarrow> 't RpcTransport \<Rightarrow> ('t, 'p) RpcClient \<Rightarrow> u16 \<Rightarrow> bytes
       \<Rightarrow> ((bytes, Error) result \<times> ('t, 'p) RpcClient) option" where
  "call_raw N U T c opnum request_stub =
     (let (cid, c) = next_call_id c in
      and_then_run (send_request_fragments N U T cid opnum request_stub c) (\<lambda>_ c.
        recv_response_fragments N T cid c))"

text \<open>
  \<open>call\<close> with the functions \<open>Ndr::serialize\<close> and \<open>Ndr::deserialize\<close> of the external crate, whose
  errors are given by their text.
\<close>

definition RpcClient_call ::
    "ndr_crate \<Rightarrow> 'u uuid_crate \<Rightarrow> 't RpcTransport \<Rightarrow> ('req \<Rightarrow> string + bytes) \<Rightarrow> (bytes \<Rightarrow> string + 'resp)
       \<Rightarrow> ('t, 'p) RpcClient \<Rightarrow> u16 \<Rightarrow> 'req \<Rightarrow> (('resp, Error) result \<times> ('t, 'p) RpcClient) option" where
  "RpcClient_call N U T serialize deserialize c opnum request =
     and_then_run (Some (of_sum Error_from_NdrError (serialize request), c)) (\<lambda>request_stub c.
     and_then_run (call_raw N U T c opnum request_stub) (\<lambda>response_stub c.
       Some (of_sum Error_from_NdrError (deserialize response_stub), c)))"

section \<open>Fragmentation\<close>

text \<open>The levels at which the client sends and accepts plain PDUs, and the error at the others.\<close>

definition level_error :: "('t, 'p) RpcClient \<Rightarrow> Error option" where
  "level_error c =
     (case cl_auth_provider c of
        None \<Rightarrow> None
      | Some (A, p) \<Rightarrow>
          (if auth_level A p = AuthLevel_PacketIntegrity
             then Some (Auth ''RPC auth level PacketIntegrity is not supported in v1'')
           else if auth_level A p = AuthLevel_PacketPrivacy
             then Some (Auth ''RPC auth level PacketPrivacy is not supported in v1'')
           else None))"

lemma level_error_cong [simp]:
  "level_error (c\<lparr>cl_transport := t\<rparr>) = level_error c"
  "level_error (c\<lparr>cl_call_id := i\<rparr>) = level_error c"
  by (simp_all add: level_error_def)

lemma request_packet_cases:
  "request_packet N U c cid flags r =
     (case level_error c of
        Some e \<Rightarrow> Err e
      | None \<Rightarrow> PduPacket_from_request_with_flags N U cid flags r)"
  by (simp add: request_packet_def level_error_def split: option.splits AuthLevel.splits)

lemma verify_response_packet_cases:
  "verify_response_packet c bs packet = (case level_error c of Some e \<Rightarrow> Err e | None \<Rightarrow> Ok ())"
  by (simp add: verify_response_packet_def level_error_def split: option.splits AuthLevel.splits)

text \<open>The specification of a fragmented request: its chunks, their flags, and the PDUs.\<close>

fun chunks :: "nat \<Rightarrow> 'a list \<Rightarrow> 'a list list" where
  "chunks k xs = (if k = 0 \<or> xs = [] then [] else take k xs # chunks k (drop k xs))"

declare chunks.simps [simp del]

fun tagged :: "bool \<Rightarrow> 'a list \<Rightarrow> (u8 \<times> 'a) list" where
  "tagged first [] = []"
| "tagged first [x] = [((if first then PFC_FIRST_FRAG else 0) OR PFC_LAST_FRAG, x)]"
| "tagged first (x # y # ys) = ((if first then PFC_FIRST_FRAG else 0), x) # tagged False (y # ys)"

definition stub_chunks :: "nat \<Rightarrow> bytes \<Rightarrow> bytes list" where
  "stub_chunks k stub = (if stub = [] then [[]] else chunks k stub)"

definition request_wire ::
    "ndr_crate \<Rightarrow> 'u uuid_crate \<Rightarrow> u16 \<Rightarrow> u32 \<Rightarrow> u16 \<Rightarrow> u32 \<Rightarrow> u8 \<times> bytes \<Rightarrow> bytes" where
  "request_wire N U ctx cid opnum alloc_hint = (\<lambda>(flags, chunk).
     body_wire N PduType_Request cid flags
       (RequestPdu_encode U \<lparr>req_alloc_hint = alloc_hint, req_ctx_id = ctx, req_opnum = opnum,
          req_object = None, req_stub_data = chunk\<rparr>))"

definition request_frames ::
    "ndr_crate \<Rightarrow> 'u uuid_crate \<Rightarrow> nat \<Rightarrow> u16 \<Rightarrow> u32 \<Rightarrow> u16 \<Rightarrow> bytes \<Rightarrow> bytes list" where
  "request_frames N U max_frag ctx cid opnum stub =
     map (request_wire N U ctx cid opnum (of_nat (length stub))) (tagged True (stub_chunks (max_frag - 24) stub))"

lemma send_fragment_eq:
  assumes "level_error c = None" "length chunk \<le> 65511"
  shows "send_fragment N U T cid flags (request_fragment c opnum hint chunk) c =
     on_transport (\<lambda>t. send_pdu T t (request_wire N U (cl_context_id c) cid opnum hint (flags, chunk))) c"
  using assms
  by (simp add: send_fragment_def request_packet_cases from_request_with_flags_cases
      from_body_with_flags_cases request_fragment_def body_packet_encode request_wire_def)

lemma send_fragment_error:
  "level_error c = Some e \<Longrightarrow> send_fragment N U T cid flags r c = (Err e, c)"
  by (simp add: send_fragment_def request_packet_cases)

lemma drop_chunk: "0 < k \<Longrightarrow> xs \<noteq> [] \<Longrightarrow> chunks k xs = take k xs # chunks k (drop k xs)"
  by (subst chunks.simps) simp

lemma chunks_Nil [simp]: "chunks k [] = []"
  by (simp add: chunks.simps)

lemma chunks_eq_Nil [simp]: "0 < k \<Longrightarrow> chunks k xs = [] \<longleftrightarrow> xs = []"
  by (subst chunks.simps) simp

lemma tagged_Cons:
  "tagged first (x # xs) =
     ((if first then PFC_FIRST_FRAG else 0) OR (if xs = [] then PFC_LAST_FRAG else 0), x) # tagged False xs"
  by (cases xs) simp_all

lemma send_all_cons_on_transport:
  "on_transport (\<lambda>t. send_all T t (f # fs)) c =
     and_then_st (on_transport (\<lambda>t. send_pdu T t f) c) (\<lambda>_ c. on_transport (\<lambda>t. send_all T t fs) c)"
  by (auto simp: on_transport_def and_then_st_def split: prod.splits result.splits)

lemma on_transport_keeps:
  "on_transport f c = (r, c') \<Longrightarrow> level_error c' = level_error c \<and> cl_context_id c' = cl_context_id c
     \<and> cl_call_id c' = cl_call_id c \<and> cl_max_xmit_frag c' = cl_max_xmit_frag c
     \<and> cl_auth_provider c' = cl_auth_provider c"
  by (auto simp: on_transport_def split: prod.splits)

lemma send_fragments_loop_eq:
  fixes c :: "('t, 'p) RpcClient"
  assumes "level_error c = None" "0 < k" "k \<le> 65511" "offset \<le> length stub"
  shows "send_fragments_loop N U T k cid opnum stub offset c =
     Some (on_transport (\<lambda>t. send_all T t (map (request_wire N U (cl_context_id c) cid opnum (of_nat (length stub)))
        (tagged (offset = 0) (chunks k (drop offset stub))))) c)"
  using assms
proof (induction "length stub - offset" arbitrary: offset c rule: less_induct)
  case less
  show ?case
  proof (cases "offset < length stub")
    case False
    with less.prems(4) show ?thesis
      by (subst send_fragments_loop.simps) (simp add: on_transport_def)
  next
    case True
    let ?e = "min (offset + k) (length stub)"
    let ?w = "request_wire N U (cl_context_id c) cid opnum (of_nat (length stub))"
    let ?fl = "fragment_flags offset ?e (length stub)"
    let ?chunk = "take k (drop offset stub)"
    have slice: "slice stub offset ?e = Ok ?chunk"
      using True by (auto simp: slice_def min_def)
    have send: "and_then_st (slice stub offset ?e, c) (\<lambda>chunk c.
        send_fragment N U T cid ?fl (request_fragment c opnum (of_nat (length stub)) chunk) c) =
        on_transport (\<lambda>t. send_pdu T t (?w (?fl, ?chunk))) c"
      unfolding slice and_then_st_simps by (rule send_fragment_eq) (use less.prems in auto)
    have rest: "drop k (drop offset stub) = drop ?e stub"
      by (simp add: min_def add.commute)
    have "?e = length stub \<longleftrightarrow> chunks k (drop ?e stub) = []"
      using less.prems(2) by (auto simp: min_def)
    then have tag: "tagged (offset = 0) (chunks k (drop offset stub)) =
        (?fl, ?chunk) # tagged False (chunks k (drop ?e stub))"
      using True less.prems(2)
      by (subst drop_chunk) (auto simp: tagged_Cons rest fragment_flags_def Let_def add.commute)
    have IH: "send_fragments_loop N U T k cid opnum stub ?e c' =
        Some (on_transport (\<lambda>t. send_all T t (map (request_wire N U (cl_context_id c') cid opnum (of_nat (length stub)))
          (tagged False (chunks k (drop ?e stub))))) c')" if "level_error c' = None" for c' :: "('t, 'p) RpcClient"
    proof -
      have "?e \<noteq> 0" "length stub - ?e < length stub - offset" "?e \<le> length stub"
        using less.prems(2) True by auto
      with less.hyps [of ?e c'] less.prems(2,3) that show ?thesis by simp
    qed
    obtain r c' where o: "on_transport (\<lambda>t. send_pdu T t (?w (?fl, ?chunk))) c = (r, c')"
      by (metis surj_pair)
    have "send_fragments_loop N U T k cid opnum stub offset c =
        (case (r, c') of
           (Ok _, c) \<Rightarrow> send_fragments_loop N U T k cid opnum stub ?e c
         | (Err e, c) \<Rightarrow> Some (Err e, c)
         | (Panic, c) \<Rightarrow> Some (Panic, c))"
      unfolding send_fragments_loop.simps [of N U T k cid opnum stub offset c] Let_def send o
      using True by simp
    then show ?thesis
      unfolding tag list.map send_all_cons_on_transport o
      using IH [of c'] on_transport_keeps [OF o] less.prems(1) by (cases r) simp_all
  qed
qed


lemma send_fragments_loop_error:
  assumes "level_error c = Some e" "offset < length stub"
  shows "send_fragments_loop N U T k cid opnum stub offset c = Some (Err e, c)"
  using assms by (subst send_fragments_loop.simps) (simp add: send_fragment_error)

lemma send_request_fragments_eq:
  "send_request_fragments N U T cid opnum stub c =
     Some (if unat (cl_max_xmit_frag c) \<le> 24
             then (Err (InvalidPdu ''max transmit fragment is too small''), c)
           else
             (case level_error c of
                Some e \<Rightarrow> (Err e, c)
              | None \<Rightarrow>
                  on_transport (\<lambda>t. send_all T t
                    (request_frames N U (unat (cl_max_xmit_frag c)) (cl_context_id c) cid opnum stub)) c))"
proof -
  let ?m = "unat (cl_max_xmit_frag c)"
  have m: "?m - 24 \<le> 65511"
    using unat_u16_less [of "cl_max_xmit_frag c"] by linarith
  show ?thesis
  proof (cases "?m \<le> 24")
    case True
    then show ?thesis
      by (auto simp: send_request_fragments_def REQUEST_HEADER_LEN_def checked_sub_def)
  next
    case False
    then have r: "send_request_fragments N U T cid opnum stub c =
        (if stub = [] then
           Some (send_fragment N U T cid (PFC_FIRST_FRAG OR PFC_LAST_FRAG) (request_fragment c opnum 0 stub) c)
         else send_fragments_loop N U T (?m - 24) cid opnum stub 0 c)"
      by (simp add: send_request_fragments_def REQUEST_HEADER_LEN_def checked_sub_def)
    show ?thesis
    proof (cases "level_error c")
      case (Some e)
      with False show ?thesis
        by (auto simp: r send_fragment_error send_fragments_loop_error)
    next
      case None
      have "send_fragment N U T cid (PFC_FIRST_FRAG OR PFC_LAST_FRAG) (request_fragment c opnum 0 []) c =
          on_transport (\<lambda>t. send_all T t (request_frames N U ?m (cl_context_id c) cid opnum [])) c"
        by (simp add: send_fragment_eq [OF None] request_frames_def stub_chunks_def send_all_cons_on_transport)
          (auto simp: on_transport_def and_then_st_def split: prod.splits result.splits)
      moreover have "send_fragments_loop N U T (?m - 24) cid opnum stub 0 c =
          Some (on_transport (\<lambda>t. send_all T t (request_frames N U ?m (cl_context_id c) cid opnum stub)) c)"
        if "stub \<noteq> []"
        using send_fragments_loop_eq [OF None, of "?m - 24" 0 stub] False m that
        by (simp add: request_frames_def stub_chunks_def)
      ultimately show ?thesis
        using False None by (auto simp: r)
    qed
  qed
qed

section \<open>What the server receives\<close>

lemma concat_chunks: "0 < k \<Longrightarrow> concat (chunks k xs) = xs"
proof (induction k xs rule: chunks.induct)
  case (1 k xs)
  then show ?case by (cases "xs = []") (simp_all add: drop_chunk)
qed

lemma chunk_bounds: "x \<in> set (chunks k xs) \<Longrightarrow> x \<noteq> [] \<and> length x \<le> k"
proof (induction k xs rule: chunks.induct)
  case (1 k xs)
  then show ?case by (subst (asm) (2) chunks.simps) (auto split: if_splits)
qed

lemma length_chunks: "0 < k \<Longrightarrow> length (chunks k xs) = (length xs + k - 1) div k"
proof (induction k xs rule: chunks.induct)
  case (1 k xs)
  show ?case
  proof (cases "xs = []")
    case True
    with 1 show ?thesis by simp
  next
    case False
    then have l: "0 < length xs" by simp
    have "(length xs + k - 1) div k = Suc ((length xs - k + k - 1) div k)"
    proof (cases "k \<le> length xs")
      case True
      then have "length xs + k - 1 = (length xs - k + k - 1) + k" using l by simp
      then show ?thesis using "1.prems" by (simp only: div_add_self2)
    next
      case small: False
      have "length xs + k - 1 = (length xs - 1) + k" "length xs - 1 < k" "k - 1 < k"
        using l "1.prems" small by linarith+
      then show ?thesis using "1.prems" small by (simp only: div_add_self2) simp
    qed
    with False 1 show ?thesis by (simp add: drop_chunk)
  qed
qed

lemma snd_tagged [simp]: "map snd (tagged first xs) = xs"
  by (induction first xs rule: tagged.induct) simp_all

lemma length_tagged [simp]: "length (tagged first xs) = length xs"
  using snd_tagged [of first xs] by (metis length_map)

lemma flag_bits:
  "((if a then PFC_FIRST_FRAG else 0) OR (if b then PFC_LAST_FRAG else 0)) AND PFC_FIRST_FRAG \<noteq> 0 \<longleftrightarrow> a"
  "((if a then PFC_FIRST_FRAG else 0) OR (if b then PFC_LAST_FRAG else 0)) AND PFC_LAST_FRAG \<noteq> 0 \<longleftrightarrow> b"
  by (simp_all add: PFC_FIRST_FRAG_def PFC_LAST_FRAG_def)

lemma tagged_nth:
  "i < length xs \<Longrightarrow>
     tagged first xs ! i =
       ((if first \<and> i = 0 then PFC_FIRST_FRAG else 0) OR (if Suc i = length xs then PFC_LAST_FRAG else 0), xs ! i)"
proof (induction xs arbitrary: first i)
  case (Cons x xs)
  then show ?case by (cases i) (simp_all add: tagged_Cons)
qed simp

lemma stub_chunks_bounds: "x \<in> set (stub_chunks k stub) \<Longrightarrow> length x \<le> k"
  by (auto simp: stub_chunks_def chunk_bounds split: if_splits)

lemma concat_stub_chunks [simp]: "0 < k \<Longrightarrow> concat (stub_chunks k stub) = stub"
  by (simp add: stub_chunks_def concat_chunks)

lemma RequestPdu_decode_plain:
  "req_object r = None \<Longrightarrow> RequestPdu_decode U (RequestPdu_encode U r) False = Ok r"
  by (simp add: RequestPdu_decode_def RequestPdu_encode_def byte_defs)

text \<open>
  The declarative view of a fragmented request: what the PDUs on the wire decode to.
\<close>

definition carries_request ::
    "ndr_crate \<Rightarrow> 'u uuid_crate \<Rightarrow> u16 \<Rightarrow> u32 \<Rightarrow> u16 \<Rightarrow> bytes \<Rightarrow> bytes list \<Rightarrow> bool" where
  "carries_request N U ctx cid opnum stub frames \<longleftrightarrow>
     (\<exists>packets stubs.
        map (PduPacket_decode N) frames = map Ok packets \<and> packets \<noteq> [] \<and>
        map (\<lambda>p. RequestPdu_decode U (body p) False) packets =
          map (\<lambda>s. Ok \<lparr>req_alloc_hint = of_nat (length stub), req_ctx_id = ctx, req_opnum = opnum,
                      req_object = None, req_stub_data = s\<rparr>) stubs \<and>
        concat stubs = stub \<and>
        list_all (\<lambda>p. ptype (header p) = PduType_Request \<and> call_id (header p) = cid) packets \<and>
        (\<forall>i < length packets.
           (pfc_flags (header (packets ! i)) AND PFC_FIRST_FRAG \<noteq> 0 \<longleftrightarrow> i = 0) \<and>
           (pfc_flags (header (packets ! i)) AND PFC_LAST_FRAG \<noteq> 0 \<longleftrightarrow> Suc i = length packets)))"

lemma request_frames_carry:
  assumes "ndr_ok N" "24 < m" "m \<le> 65535"
  shows "carries_request N U ctx cid opnum stub (request_frames N U m ctx cid opnum stub)"
proof -
  let ?w = "request_wire N U ctx cid opnum (of_nat (length stub))"
  let ?cs = "stub_chunks (m - 24) stub" let ?ts = "tagged True ?cs"
  have k: "0 < m - 24" using assms(2) by simp
  have b: "length (snd x) \<le> 65511" if "x \<in> set ?ts" for x
  proof -
    have "snd x \<in> set (map snd ?ts)" using that by (simp only: set_map) (rule imageI)
    then have "length (snd x) \<le> m - 24" using stub_chunks_bounds by simp
    then show ?thesis using assms(3) by simp
  qed
  define dec where "dec x = body_packet N PduType_Request cid (fst x)
     (RequestPdu_encode U \<lparr>req_alloc_hint = of_nat (length stub), req_ctx_id = ctx, req_opnum = opnum,
        req_object = None, req_stub_data = snd x\<rparr>)" for x
  have d: "PduPacket_decode N (?w x) = Ok (dec x)" if "x \<in> set ?ts" for x
    using b [OF that] assms(1) by (cases x) (simp add: dec_def request_wire_def body_wire_decode)
  have e: "ptype (header (dec x)) = PduType_Request" "call_id (header (dec x)) = cid"
     "pfc_flags (header (dec x)) = fst x"
     "RequestPdu_decode U (body (dec x)) False =
       Ok \<lparr>req_alloc_hint = of_nat (length stub), req_ctx_id = ctx, req_opnum = opnum, req_object = None,
          req_stub_data = snd x\<rparr>" for x
    by (simp_all add: dec_def RequestPdu_decode_plain)
  have "map (PduPacket_decode N) (request_frames N U m ctx cid opnum stub) = map Ok (map dec ?ts)"
    using d by (simp add: request_frames_def)
  moreover have "map (\<lambda>p. RequestPdu_decode U (body p) False) (map dec ?ts) =
      map (\<lambda>s. Ok \<lparr>req_alloc_hint = of_nat (length stub), req_ctx_id = ctx, req_opnum = opnum,
                      req_object = None, req_stub_data = s\<rparr>) (map snd ?ts)"
    by (simp add: e del: snd_tagged)
  moreover have "?ts \<noteq> []"
  proof -
    have "?cs \<noteq> []" using k by (simp add: stub_chunks_def)
    then show ?thesis by (metis length_tagged length_0_conv)
  qed
  moreover have "pfc_flags (header (map dec ?ts ! i)) = fst (?ts ! i)" if "i < length ?ts" for i
    using that by (simp add: e)
  moreover have "list_all (\<lambda>p. ptype (header p) = PduType_Request \<and> call_id (header p) = cid) (map dec ?ts)"
    by (simp add: list_all_iff e)
  ultimately show ?thesis
    unfolding carries_request_def using k
    by (intro exI [of _ "map dec ?ts"] exI [of _ "map snd ?ts"]) (simp add: tagged_nth flag_bits)
qed

lemma length_request_frame:
  assumes "f \<in> set (request_frames N U m ctx cid opnum stub)" "24 < m"
  shows "length f \<le> m"
proof -
  from assms(1) obtain x where x: "x \<in> set (tagged True (stub_chunks (m - 24) stub))"
    and f: "f = request_wire N U ctx cid opnum (of_nat (length stub)) x"
    by (auto simp: request_frames_def)
  have "snd x \<in> set (map snd (tagged True (stub_chunks (m - 24) stub)))"
    using x by (simp only: set_map) (rule imageI)
  then have "length (snd x) \<le> m - 24" using stub_chunks_bounds by simp
  with assms(2) show ?thesis
    by (cases x) (simp add: f request_wire_def)
qed

lemma length_request_frames:
  "24 < m \<Longrightarrow> length (request_frames N U m ctx cid opnum stub) =
     max 1 ((length stub + (m - 24) - 1) div (m - 24))"
  using div_le_mono [of "m - 24" "length stub + (m - 24) - 1" "m - 24"]
  by (cases stub) (simp_all add: request_frames_def stub_chunks_def length_chunks)

section \<open>Reassembly\<close>

text \<open>
  The response loop without the transport: what it does with the PDUs received, and which of them it
  leaves; \<open>None\<close> asks for more.
\<close>

definition frame_step ::
    "ndr_crate \<Rightarrow> u32 \<Rightarrow> bool \<Rightarrow> bytes \<Rightarrow> bytes \<Rightarrow> (bytes + bool \<times> bytes, Error) result" where
  "frame_step N cid saw_first stub f =
     and_then (PduPacket_decode N f) (\<lambda>packet. response_step cid packet saw_first stub)"

fun reassemble ::
    "ndr_crate \<Rightarrow> u32 \<Rightarrow> bool \<Rightarrow> bytes \<Rightarrow> bytes list \<Rightarrow> ((bytes, Error) result \<times> bytes list) option" where
  "reassemble N cid saw_first stub [] = None"
| "reassemble N cid saw_first stub (f # fs) =
     (case frame_step N cid saw_first stub f of
        Ok (Inl response_stub) \<Rightarrow> Some (Ok response_stub, fs)
      | Ok (Inr (saw_first, stub)) \<Rightarrow> reassemble N cid saw_first stub fs
      | Err e \<Rightarrow> Some (Err e, fs)
      | Panic \<Rightarrow> Some (Panic, fs))"

lemma recv_iteration_eq:
  assumes "level_error c = None"
  shows "recv_iteration N T cid saw_first stub c =
     and_then_st (on_transport (recv_pdu T) c) (\<lambda>f c. (frame_step N cid saw_first stub f, c))"
proof -
  obtain r c' where o: "on_transport (recv_pdu T) c = (r, c')" by (metis surj_pair)
  with on_transport_keeps [OF o] assms show ?thesis
    by (cases r; cases "PduPacket_decode N (case r of Ok f \<Rightarrow> f)")
      (simp_all add: recv_iteration_def frame_step_def verify_response_packet_cases)
qed

lemma recv_iteration_error:
  assumes "level_error c = Some e"
  shows "recv_iteration N T cid saw_first stub c =
     and_then_st (on_transport (recv_pdu T) c) (\<lambda>f c. (and_then (PduPacket_decode N f) (\<lambda>_. Err e), c))"
proof -
  obtain r c' where o: "on_transport (recv_pdu T) c = (r, c')" by (metis surj_pair)
  with on_transport_keeps [OF o] assms show ?thesis
    by (cases r; cases "PduPacket_decode N (case r of Ok f \<Rightarrow> f)")
      (simp_all add: recv_iteration_def verify_response_packet_cases)
qed

text \<open>
  How a run of the loop ends: with a verdict on the PDUs received, or with a failure of the
  transport while it still asks for more.
\<close>

definition recv_outcome ::
    "ndr_crate \<Rightarrow> 't RpcTransport \<Rightarrow> u32 \<Rightarrow> bool \<Rightarrow> bytes \<Rightarrow> 't \<Rightarrow> (bytes, Error) result \<Rightarrow> 't \<Rightarrow> bool" where
  "recv_outcome N T cid saw_first stub t r t' \<longleftrightarrow>
     (\<exists>fs. recv_all T (length fs) t = (Ok fs, t') \<and> reassemble N cid saw_first stub fs = Some (r, [])) \<or>
     (\<exists>fs t1. recv_all T (length fs) t = (Ok fs, t1) \<and> reassemble N cid saw_first stub fs = None \<and>
        recv_pdu T t1 = (r, t') \<and> (\<forall>f. r \<noteq> Ok f))"

lemma recv_outcome_step:
  assumes "recv_pdu T t = (Ok f, t1)" "frame_step N cid saw_first stub f = Ok (Inr (saw', stub'))"
    and "recv_outcome N T cid saw' stub' t1 r t'"
  shows "recv_outcome N T cid saw_first stub t r t'"
proof -
  have s: "recv_all T (length (f # fs)) t = (Ok (f # fs), t2) \<and>
      reassemble N cid saw_first stub (f # fs) = reassemble N cid saw' stub' fs"
    if "recv_all T (length fs) t1 = (Ok fs, t2)" for fs t2
    using that assms(1,2) by simp
  from assms(3) show ?thesis
    unfolding recv_outcome_def by (elim disjE exE conjE) (metis s)+
qed

lemma recv_outcome_now:
  assumes "recv_pdu T t = (q, t')"
    and "case q of Ok f \<Rightarrow> reassemble N cid saw_first stub [f] = Some (r, []) | Err e \<Rightarrow> r = Err e | Panic \<Rightarrow> r = Panic"
  shows "recv_outcome N T cid saw_first stub t r t'"
proof (cases q)
  case (Ok f)
  with assms show ?thesis
    unfolding recv_outcome_def by (intro disjI1 exI [of _ "[f]"]) simp
next
  case (Err e)
  with assms show ?thesis
    unfolding recv_outcome_def by (intro disjI2 exI [of _ "[]"]) simp
next
  case Panic
  with assms show ?thesis
    unfolding recv_outcome_def by (intro disjI2 exI [of _ "[]"]) simp
qed

text \<open>One turn of the loop, by the outcome of the receive and of the frame.\<close>

lemma recv_response_loop_unfold:
  assumes "level_error c = None" "recv_pdu T (cl_transport c) = (r, t)"
  shows "recv_response_loop N T cid saw_first stub c =
     (case r of
        Ok f \<Rightarrow>
          (case frame_step N cid saw_first stub f of
             Ok (Inl response_stub) \<Rightarrow> Some (Ok response_stub, c\<lparr>cl_transport := t\<rparr>)
           | Ok (Inr (saw_first, stub)) \<Rightarrow>
               recv_response_loop N T cid saw_first stub (c\<lparr>cl_transport := t\<rparr>)
           | Err e \<Rightarrow> Some (Err e, c\<lparr>cl_transport := t\<rparr>)
           | Panic \<Rightarrow> Some (Panic, c\<lparr>cl_transport := t\<rparr>))
      | Err e \<Rightarrow> Some (Err e, c\<lparr>cl_transport := t\<rparr>)
      | Panic \<Rightarrow> Some (Panic, c\<lparr>cl_transport := t\<rparr>))"
  using assms
  by (subst recv_response_loop.simps)
    (simp add: recv_iteration_eq on_transport_def split: result.splits sum.splits)

lemma recv_loop_sound:
  assumes "recv_response_loop N T cid saw_first stub c = Some (r, c')" "level_error c = None"
  shows "\<exists>t'. c' = c\<lparr>cl_transport := t'\<rparr> \<and> recv_outcome N T cid saw_first stub (cl_transport c) r t'"
proof -
  let ?P = "\<lambda>N T cid saw_first stub c y. level_error c = None \<longrightarrow>
     (\<exists>t'. snd y = c\<lparr>cl_transport := t'\<rparr> \<and>
        recv_outcome N T cid saw_first stub (cl_transport c) (fst y) t')"
  have "?P N T cid saw_first stub c (r, c')"
  proof (rule recv_response_loop.raw_induct [where P = ?P, OF _ assms(1)], intro impI)
    fix loop N T cid saw_first stub c y
    assume IH: "\<And>N T cid saw_first stub c y. loop N T cid saw_first stub c = Some y \<Longrightarrow>
        ?P N T cid saw_first stub c y"
      and y: "(case recv_iteration N T cid saw_first stub c of
         (Ok (Inl response_stub), c) \<Rightarrow> Some (Ok response_stub, c)
       | (Ok (Inr (saw_first, stub)), c) \<Rightarrow> loop N T cid saw_first stub c
       | (Err e, c) \<Rightarrow> Some (Err e, c) | (Panic, c) \<Rightarrow> Some (Panic, c)) = Some y"
      and lv: "level_error c = None"
    obtain q t where q: "recv_pdu T (cl_transport c) = (q, t)" by (metis surj_pair)
    note Y = y [unfolded recv_iteration_eq [OF lv] on_transport_def q, simplified]
    show "\<exists>t'. snd y = c\<lparr>cl_transport := t'\<rparr> \<and>
        recv_outcome N T cid saw_first stub (cl_transport c) (fst y) t'"
    proof (cases "\<exists>f s' a'. q = Ok f \<and> frame_step N cid saw_first stub f = Ok (Inr (s', a'))")
      case True
      then obtain f s' a' where f: "q = Ok f" "frame_step N cid saw_first stub f = Ok (Inr (s', a'))"
        by blast
      with Y have "loop N T cid s' a' (c\<lparr>cl_transport := t\<rparr>) = Some y" by simp
      from IH [OF this] lv show ?thesis
        using recv_outcome_step [OF q [unfolded f(1)] f(2)] by auto
    next
      case False
      have "snd y = c\<lparr>cl_transport := t\<rparr> \<and> recv_outcome N T cid saw_first stub (cl_transport c) (fst y) t"
        using Y False q
        by (cases q; cases "frame_step N cid saw_first stub (case q of Ok f \<Rightarrow> f)")
          (auto intro!: recv_outcome_now [OF q] split: sum.splits)
      then show ?thesis by blast
    qed
  qed
  with assms(2) show ?thesis by simp
qed


lemma recv_all_Ok_Suc:
  "recv_all T (Suc n) t = (Ok fs, t') \<longleftrightarrow>
     (\<exists>f gs t1. fs = f # gs \<and> recv_pdu T t = (Ok f, t1) \<and> recv_all T n t1 = (Ok gs, t'))"
  by (auto simp: and_then_st_eq_Ok)

lemma recv_loop_complete:
  assumes "level_error c = None" "recv_outcome N T cid saw_first stub (cl_transport c) r t'"
  shows "recv_response_loop N T cid saw_first stub c = Some (r, c\<lparr>cl_transport := t'\<rparr>)"
proof -
  have "recv_response_loop N T cid saw_first stub c = Some (r, c\<lparr>cl_transport := t'\<rparr>)"
    if "level_error c = None" "recv_all T (length fs) (cl_transport c) = (Ok fs, t1)"
      and "reassemble N cid saw_first stub fs = Some (r, []) \<and> t1 = t' \<or>
         reassemble N cid saw_first stub fs = None \<and> recv_pdu T t1 = (r, t') \<and> (\<forall>f. r \<noteq> Ok f)" for fs t1
    using that
  proof (induction fs arbitrary: c saw_first stub)
    case Nil
    then have "recv_pdu T (cl_transport c) = (r, t')" "\<forall>f. r \<noteq> Ok f" by auto
    with Nil.prems(1) show ?case
      by (cases r) (simp_all add: recv_response_loop_unfold)
  next
    case (Cons f fs)
    from Cons.prems(2) obtain t2 where f: "recv_pdu T (cl_transport c) = (Ok f, t2)"
      and r: "recv_all T (length fs) t2 = (Ok fs, t1)"
      by (auto simp: and_then_st_eq_Ok)
    note U = recv_response_loop_unfold [OF Cons.prems(1) f, of N cid saw_first stub]
    show ?case
    proof (cases "\<exists>s' a'. frame_step N cid saw_first stub f = Ok (Inr (s', a'))")
      case True
      then obtain s' a' where s: "frame_step N cid saw_first stub f = Ok (Inr (s', a'))" by blast
      with Cons.IH [of "c\<lparr>cl_transport := t2\<rparr>" s' a'] Cons.prems(1,3) r show ?thesis
        by (simp add: U)
    next
      case False
      with Cons.prems(3) have "fs = []" "t1 = t'"
        by (auto split: result.splits sum.splits)
      with False Cons.prems(3) r show ?thesis
        by (auto simp: U split: result.splits sum.splits)
    qed
  qed
  with assms show ?thesis
    unfolding recv_outcome_def by blast
qed

section \<open>Which response sequences are accepted\<close>

text \<open>
  The flags and the data of a response fragment of the call \<open>cid\<close>; a sequence of fragments that is
  still open, and one that is complete.
\<close>

definition response_part :: "ndr_crate \<Rightarrow> u32 \<Rightarrow> bytes \<Rightarrow> (u8 \<times> bytes) option" where
  "response_part N cid f =
     (case PduPacket_decode N f of
        Ok p \<Rightarrow>
          if call_id (header p) = cid \<and> ptype (header p) = PduType_Response
          then (case ResponsePdu_decode (body p) of
                  Ok r \<Rightarrow> Some (pfc_flags (header p), resp_stub_data r)
                | _ \<Rightarrow> None)
          else None
      | _ \<Rightarrow> None)"

definition first_flag :: "u8 \<Rightarrow> bool" where
  "first_flag flags \<longleftrightarrow> flags AND PFC_FIRST_FRAG \<noteq> 0"

definition last_flag :: "u8 \<Rightarrow> bool" where
  "last_flag flags \<longleftrightarrow> flags AND PFC_LAST_FRAG \<noteq> 0"

definition open_response :: "ndr_crate \<Rightarrow> u32 \<Rightarrow> bytes list \<Rightarrow> (u8 \<times> bytes) list \<Rightarrow> bool" where
  "open_response N cid fs parts \<longleftrightarrow>
     map (response_part N cid) fs = map Some parts \<and> list_all (\<lambda>(fl, _). \<not> last_flag fl) parts \<and>
     (parts = [] \<or> first_flag (fst (hd parts)))"

definition complete_response :: "ndr_crate \<Rightarrow> u32 \<Rightarrow> bytes list \<Rightarrow> bytes \<Rightarrow> bool" where
  "complete_response N cid fs stub \<longleftrightarrow>
     (\<exists>parts. map (response_part N cid) fs = map Some parts \<and> parts \<noteq> [] \<and>
        first_flag (fst (hd parts)) \<and> last_flag (fst (last parts)) \<and>
        list_all (\<lambda>(fl, _). \<not> last_flag fl) (butlast parts) \<and> concat (map snd parts) = stub)"

lemma frame_step_Inl:
  "frame_step N cid saw acc f = Ok (Inl s) \<longleftrightarrow>
     (\<exists>fl d. response_part N cid f = Some (fl, d) \<and> (saw \<or> first_flag fl) \<and> last_flag fl \<and> s = acc @ d)"
  by (cases "PduPacket_decode N f"; cases "ResponsePdu_decode (body (case PduPacket_decode N f of Ok p \<Rightarrow> p))")
    (auto simp: frame_step_def response_step_def response_part_def Let_def first_flag_def last_flag_def
      and_then_eq_Ok)

lemma frame_step_Inr:
  "frame_step N cid saw acc f = Ok (Inr (s, a)) \<longleftrightarrow>
     (\<exists>fl d. response_part N cid f = Some (fl, d) \<and> (saw \<or> first_flag fl) \<and> \<not> last_flag fl \<and>
        s \<and> a = acc @ d)"
  by (cases "PduPacket_decode N f"; cases "ResponsePdu_decode (body (case PduPacket_decode N f of Ok p \<Rightarrow> p))")
    (auto simp: frame_step_def response_step_def response_part_def Let_def first_flag_def last_flag_def
      and_then_eq_Ok)

fun accepted_parts :: "bool \<Rightarrow> (u8 \<times> bytes) list \<Rightarrow> bool" where
  "accepted_parts saw [] \<longleftrightarrow> False"
| "accepted_parts saw ((fl, d) # parts) \<longleftrightarrow>
     (saw \<or> first_flag fl) \<and> (if parts = [] then last_flag fl else \<not> last_flag fl \<and> accepted_parts True parts)"

lemma accepted_parts_iff:
  "accepted_parts saw parts \<longleftrightarrow>
     parts \<noteq> [] \<and> (saw \<or> first_flag (fst (hd parts))) \<and> last_flag (fst (last parts)) \<and>
     list_all (\<lambda>(fl, _). \<not> last_flag fl) (butlast parts)"
  by (induction saw parts rule: accepted_parts.induct) auto

lemma reassemble_Ok_iff:
  "reassemble N cid saw acc fs = Some (Ok stub, []) \<longleftrightarrow>
     (\<exists>parts. map (response_part N cid) fs = map Some parts \<and> accepted_parts saw parts \<and>
        stub = acc @ concat (map snd parts))"
proof (induction fs arbitrary: saw acc)
  case Nil
  then show ?case by simp
next
  case (Cons f fs)
  show ?case
  proof (cases "response_part N cid f")
    case None
    then have "\<And>x. frame_step N cid saw acc f \<noteq> Ok x"
      using frame_step_Inl [of N cid saw acc f] frame_step_Inr [of N cid saw acc f]
      by (metis option.distinct(1) surj_pair sum.exhaust)
    with None show ?thesis
      by (auto simp: Cons_eq_map_conv split: result.splits)
  next
    case (Some x)
    obtain fl d where x: "x = (fl, d)" by (metis surj_pair)
    have parts: "(\<exists>parts. map (response_part N cid) (f # fs) = map Some parts \<and> Q parts) \<longleftrightarrow>
        (\<exists>parts. map (response_part N cid) fs = map Some parts \<and> Q ((fl, d) # parts))" for Q
      using Some x by (auto simp: Cons_eq_map_conv)
    consider (reject) "\<not> (saw \<or> first_flag fl)" | (stop) "saw \<or> first_flag fl" "last_flag fl"
      | (go) "saw \<or> first_flag fl" "\<not> last_flag fl" by blast
    then show ?thesis
    proof cases
      case reject
      then have "\<And>x. frame_step N cid saw acc f \<noteq> Ok x"
        using frame_step_Inl [of N cid saw acc f] frame_step_Inr [of N cid saw acc f] Some x
        by (metis option.inject prod.inject surj_pair sum.exhaust)
      with reject show ?thesis
        unfolding parts by (auto split: result.splits)
    next
      case stop
      then have "frame_step N cid saw acc f = Ok (Inl (acc @ d))"
        using frame_step_Inl [of N cid saw acc f] Some x by blast
      moreover have "accepted_parts saw ((fl, d) # ps) \<longleftrightarrow> ps = []" for ps
        using stop by (cases ps) auto
      ultimately show ?thesis
        unfolding parts by auto
    next
      case go
      then have "frame_step N cid saw acc f = Ok (Inr (True, acc @ d))"
        using frame_step_Inr [of N cid saw acc f] Some x by blast
      moreover have "accepted_parts saw ((fl, d) # ps) = accepted_parts True ps" for ps
        using go by (cases ps) auto
      ultimately show ?thesis
        unfolding parts using Cons.IH [of True "acc @ d"] by simp
    qed
  qed
qed

lemma reassemble_open:
  "map (response_part N cid) fs = map Some parts \<Longrightarrow> list_all (\<lambda>(fl, _). \<not> last_flag fl) parts \<Longrightarrow>
   parts = [] \<or> saw \<or> first_flag (fst (hd parts)) \<Longrightarrow>
     reassemble N cid saw acc (fs @ gs) =
       reassemble N cid (saw \<or> fs \<noteq> []) (acc @ concat (map snd parts)) gs"
proof (induction fs arbitrary: saw acc parts)
  case (Cons f fs)
  then obtain fl d ps where p: "parts = (fl, d) # ps" "response_part N cid f = Some (fl, d)"
    "map (response_part N cid) fs = map Some ps"
    by (auto simp: Cons_eq_map_conv)
  with Cons.prems have "frame_step N cid saw acc f = Ok (Inr (True, acc @ d))"
    by (auto simp: frame_step_Inr)
  with Cons.IH [of ps True "acc @ d"] p Cons.prems(2) show ?case
    by simp
qed simp

end
