(* ===== verification/Ncacn_Np.thy ===== *)
theory Ncacn_Np
  imports Pdu Transport
begin

text \<open>
  The named-pipe transport (\<^verbatim>\<open>src/ncacn_np.rs\<close>): UNC endpoints, the trait \<open>NamedPipe\<close>, the adapter of
  \<open>Read + Write\<close> objects, and the transport that cuts a byte stream into PDUs by their fragment
  length.  The debug output that both transport methods write to the standard error stream when
  \<^verbatim>\<open>MSRPCE_DEBUG_RPC_WIRE\<close> is set is left out.
\<close>

section \<open>Endpoints\<close>

record NcacnNpEndpoint =
  ep_server :: string
  ep_pipe :: string

abbreviation backslash :: char where
  "backslash \<equiv> CHR 0x5C"

definition NcacnNpEndpoint_invalid_endpoint :: Error where
  "NcacnNpEndpoint_invalid_endpoint =
     Transport (''ncacn_np endpoint must be '' @ [backslash, backslash] @ ''server'' @ [backslash]
       @ ''pipe'' @ [backslash] @ ''name'')"

definition NcacnNpEndpoint_parse :: "string \<Rightarrow> (NcacnNpEndpoint, Error) result" where
  "NcacnNpEndpoint_parse value =
     and_then (ok_or (strip_prefix [backslash, backslash] value) NcacnNpEndpoint_invalid_endpoint) (\<lambda>rest.
     and_then (ok_or (split_once backslash rest) NcacnNpEndpoint_invalid_endpoint) (\<lambda>(server, path).
     and_then (ok_or (strip_prefix (''pipe'' @ [backslash]) path) NcacnNpEndpoint_invalid_endpoint) (\<lambda>pipe.
     if server = [] \<or> pipe = [] \<or> backslash \<in> set pipe then Err NcacnNpEndpoint_invalid_endpoint
     else Ok \<lparr>ep_server = server, ep_pipe = pipe\<rparr>)))"

definition NcacnNpEndpoint_ipc_share :: "NcacnNpEndpoint \<Rightarrow> string" where
  "NcacnNpEndpoint_ipc_share e = [backslash, backslash] @ ep_server e @ [backslash] @ ''IPC$''"

definition NcacnNpEndpoint_pipe_path :: "NcacnNpEndpoint \<Rightarrow> string" where
  "NcacnNpEndpoint_pipe_path e = [backslash] @ ''pipe'' @ [backslash] @ ep_pipe e"

section \<open>Named pipes\<close>

text \<open>
  \<open>read_exact\<close> fills a buffer of the given length: it returns the bytes of the buffer.
\<close>

record 'p NamedPipe =
  read_exact :: "'p \<Rightarrow> nat \<Rightarrow> (bytes, Error) result \<times> 'p"
  write_all :: "'p \<Rightarrow> bytes \<Rightarrow> (unit, Error) result \<times> 'p"

text \<open>
  \<open>Read + Write\<close> of the standard library, with the text of an \<open>io::Error\<close>, and the adapter.
\<close>

record 'i std_io =
  io_read_exact :: "'i \<Rightarrow> nat \<Rightarrow> (bytes, string) result \<times> 'i"
  io_write_all :: "'i \<Rightarrow> bytes \<Rightarrow> (unit, string) result \<times> 'i"
  io_flush :: "'i \<Rightarrow> (unit, string) result \<times> 'i"

record 'i StdIoNamedPipe =
  np_inner :: 'i

definition StdIoNamedPipe_new :: "'i \<Rightarrow> 'i StdIoNamedPipe" where
  "StdIoNamedPipe_new i = \<lparr>np_inner = i\<rparr>"

definition StdIoNamedPipe_into_inner :: "'i StdIoNamedPipe \<Rightarrow> 'i" where
  "StdIoNamedPipe_into_inner p = np_inner p"

definition StdIoNamedPipe_read_exact ::
    "'i std_io \<Rightarrow> 'i StdIoNamedPipe \<Rightarrow> nat \<Rightarrow> (bytes, Error) result \<times> 'i StdIoNamedPipe" where
  "StdIoNamedPipe_read_exact I p n =
     (let (r, i) = io_read_exact I (np_inner p) n
      in (map_err (\<lambda>err. Transport (''named pipe read failed: '' @ err)) r, p\<lparr>np_inner := i\<rparr>))"

definition StdIoNamedPipe_write_all ::
    "'i std_io \<Rightarrow> 'i StdIoNamedPipe \<Rightarrow> bytes \<Rightarrow> (unit, Error) result \<times> 'i StdIoNamedPipe" where
  "StdIoNamedPipe_write_all I p bs =
     (let (r, i) = io_write_all I (np_inner p) bs
      in and_then_st (map_err (\<lambda>err. Transport (''named pipe write failed: '' @ err)) r, p\<lparr>np_inner := i\<rparr>)
           (\<lambda>_ p'. let (r', i') = io_flush I (np_inner p')
                   in (map_err (\<lambda>err. Transport (''named pipe flush failed: '' @ err)) r',
                       p'\<lparr>np_inner := i'\<rparr>)))"

definition std_io_named_pipe :: "'i std_io \<Rightarrow> 'i StdIoNamedPipe NamedPipe" where
  "std_io_named_pipe I =
     \<lparr>read_exact = StdIoNamedPipe_read_exact I, write_all = StdIoNamedPipe_write_all I\<rparr>"

section \<open>The transport\<close>

record 'p NcacnNpTransport =
  np_pipe :: 'p

definition NcacnNpTransport_new :: "'p \<Rightarrow> 'p NcacnNpTransport" where
  "NcacnNpTransport_new p = \<lparr>np_pipe = p\<rparr>"

definition NcacnNpTransport_into_pipe :: "'p NcacnNpTransport \<Rightarrow> 'p" where
  "NcacnNpTransport_into_pipe t = np_pipe t"

text \<open>A method of the pipe, called on the field of the transport.\<close>

definition on_pipe ::
    "('p \<Rightarrow> ('a, Error) result \<times> 'p) \<Rightarrow> 'p NcacnNpTransport \<Rightarrow> ('a, Error) result \<times> 'p NcacnNpTransport" where
  "on_pipe f t = (let (r, p) = f (np_pipe t) in (r, t\<lparr>np_pipe := p\<rparr>))"

definition NcacnNpTransport_send_pdu ::
    "'p NamedPipe \<Rightarrow> 'p NcacnNpTransport \<Rightarrow> bytes \<Rightarrow> (unit, Error) result \<times> 'p NcacnNpTransport" where
  "NcacnNpTransport_send_pdu P t bs = on_pipe (\<lambda>p. write_all P p bs) t"

definition NcacnNpTransport_recv_pdu ::
    "ndr_crate \<Rightarrow> 'p NamedPipe \<Rightarrow> 'p NcacnNpTransport \<Rightarrow> (bytes, Error) result \<times> 'p NcacnNpTransport" where
  "NcacnNpTransport_recv_pdu N P t =
     and_then_st (on_pipe (\<lambda>p. read_exact P p (unat COMMON_HEADER_LEN)) t) (\<lambda>header_bytes t.
     and_then_st (PduHeader_decode N header_bytes, t) (\<lambda>h t.
     let frag_len = unat (frag_length h) in
     if frag_len < unat COMMON_HEADER_LEN
       then (Err (InvalidPdu ''fragment length is smaller than common header''), t)
     else
       and_then_st (on_pipe (\<lambda>p. read_exact P p (frag_len - unat COMMON_HEADER_LEN)) t) (\<lambda>rest t.
         (Ok (header_bytes @ rest), t))))"

definition ncacn_np :: "ndr_crate \<Rightarrow> 'p NamedPipe \<Rightarrow> 'p NcacnNpTransport RpcTransport" where
  "ncacn_np N P =
     \<lparr>send_pdu = NcacnNpTransport_send_pdu P, recv_pdu = NcacnNpTransport_recv_pdu N P\<rparr>"

section \<open>The chunked pipe of the transport tests\<close>

text \<open>
  \<^verbatim>\<open>tests/ncacn_np_transport.rs\<close>: a pipe whose input arrives in chunks of any size, empty ones
  included; the loop of its \<open>read_exact\<close>.
\<close>

record ChunkedPipe =
  cp_reads :: "bytes list"
  cp_writes :: "bytes list"

function chunked_read :: "nat \<Rightarrow> bytes list \<Rightarrow> bytes \<Rightarrow> (bytes, Error) result \<times> bytes list" where
  "chunked_read missing reads filled =
     (if missing = 0 then (Ok filled, reads)
      else
        (case reads of
           [] \<Rightarrow> (Err (Transport ''pipe has no queued bytes''), [])
         | chunk # rest \<Rightarrow>
             let n = min missing (length chunk)
             in chunked_read (missing - n) (if drop n chunk = [] then rest else drop n chunk # rest)
                  (filled @ take n chunk)))"
  by pat_completeness auto
termination
  by (relation "measures [\<lambda>(missing, _, _). missing, \<lambda>(_, reads, _). length reads]") auto

declare chunked_read.simps [simp del]

definition ChunkedPipe_read_exact :: "ChunkedPipe \<Rightarrow> nat \<Rightarrow> (bytes, Error) result \<times> ChunkedPipe" where
  "ChunkedPipe_read_exact p n =
     (let (r, reads) = chunked_read n (cp_reads p) [] in (r, p\<lparr>cp_reads := reads\<rparr>))"

definition ChunkedPipe_write_all :: "ChunkedPipe \<Rightarrow> bytes \<Rightarrow> (unit, Error) result \<times> ChunkedPipe" where
  "ChunkedPipe_write_all p bs = (Ok (), p\<lparr>cp_writes := cp_writes p @ [bs]\<rparr>)"

definition chunked_pipe :: "ChunkedPipe NamedPipe" where
  "chunked_pipe = \<lparr>read_exact = ChunkedPipe_read_exact, write_all = ChunkedPipe_write_all\<rparr>"

section \<open>The contract of a pipe\<close>

text \<open>
  A PDU as the transport frames it: a decodable header whose fragment length is the length of the
  whole PDU.
\<close>

definition frame :: "ndr_crate \<Rightarrow> bytes \<Rightarrow> bool" where
  "frame N f \<longleftrightarrow> (\<exists>h. PduHeader_decode N f = Ok h \<and> unat (frag_length h) = length f)"

lemma PduHeader_decode_prefix: "16 \<le> length bs \<Longrightarrow> PduHeader_decode N (take 16 bs) = PduHeader_decode N bs"
  by (erule length_ge_16E) (simp add: PduHeader_decode_def)

text \<open>
  The pipe is a byte stream in each direction: \<open>incoming\<close> is what can still be read, \<open>written\<close> what
  has been written.
\<close>

definition np_delivers :: "('p \<Rightarrow> bytes) \<Rightarrow> 'p NcacnNpTransport \<Rightarrow> bytes list \<Rightarrow> bool" where
  "np_delivers incoming t fs \<longleftrightarrow>
     take (length (concat fs)) (incoming (np_pipe t)) = concat fs"

lemma np_delivers_iff:
  "np_delivers incoming t fs \<longleftrightarrow> (\<exists>rest. incoming (np_pipe t) = concat fs @ rest)"
  unfolding np_delivers_def by (metis append_eq_conv_conj append_take_drop_id)

locale stream_pipe =
  fixes P :: "'p NamedPipe" and incoming :: "'p \<Rightarrow> bytes" and written :: "'p \<Rightarrow> bytes"
  assumes read_ok: "n \<le> length (incoming p) \<Longrightarrow>
       \<exists>p'. read_exact P p n = (Ok (take n (incoming p)), p') \<and>
         incoming p' = drop n (incoming p) \<and> written p' = written p"
    and write_ok: "\<exists>p'. write_all P p bs = (Ok (), p') \<and> incoming p' = incoming p \<and>
       written p' = written p @ bs"
begin

lemma recv_frame:
  assumes "incoming (np_pipe t) = f @ rest" "frame N f"
  shows "\<exists>t'. recv_pdu (ncacn_np N P) t = (Ok f, t') \<and> incoming (np_pipe t') = rest \<and>
     written (np_pipe t') = written (np_pipe t)"
proof -
  from assms(2) obtain h where h: "PduHeader_decode N f = Ok h" and l: "unat (frag_length h) = length f"
    by (auto simp: frame_def)
  have 16: "16 \<le> length f"
    using PduHeader_decode_Ok(1) [OF h] .
  then obtain p1 where p1: "read_exact P (np_pipe t) 16 = (Ok (take 16 f), p1)"
    "incoming p1 = drop 16 f @ rest" "written p1 = written (np_pipe t)"
    using read_ok [of 16 "np_pipe t"] assms(1) by auto
  then obtain p2 where p2: "read_exact P p1 (length f - 16) = (Ok (drop 16 f), p2)"
    "incoming p2 = rest" "written p2 = written p1"
    using read_ok [of "length f - 16" p1] by fastforce
  show ?thesis
    using p1 p2 16 l h PduHeader_decode_prefix [OF 16, of N]
    by (simp add: ncacn_np_def NcacnNpTransport_recv_pdu_def on_pipe_def Let_def)
qed

end

sublocale stream_pipe \<subseteq> np: reliable_transport "ncacn_np N P" "frame N" "np_delivers incoming"
    "\<lambda>t. written (np_pipe t)" for N
proof unfold_locales
  fix t bs
  show "\<exists>t'. send_pdu (ncacn_np N P) t bs = (Ok (), t') \<and>
      written (np_pipe t') = written (np_pipe t) @ bs \<and>
      (\<forall>fs. np_delivers incoming t fs \<longrightarrow> np_delivers incoming t' fs)"
    using write_ok [of "np_pipe t" bs]
    by (auto simp: ncacn_np_def NcacnNpTransport_send_pdu_def on_pipe_def np_delivers_iff)
next
  fix t f fs
  assume "np_delivers incoming t (f # fs)" "frame N f"
  then show "\<exists>t'. recv_pdu (ncacn_np N P) t = (Ok f, t') \<and> np_delivers incoming t' fs \<and>
      written (np_pipe t') = written (np_pipe t)"
    using recv_frame [of t f _ N] by (auto simp: np_delivers_iff)
qed

section \<open>Pipes that satisfy the contract\<close>

lemma chunked_read_ok:
  "n \<le> length (concat reads) \<Longrightarrow>
     \<exists>reads'. chunked_read n reads filled = (Ok (filled @ take n (concat reads)), reads') \<and>
       concat reads' = drop n (concat reads)"
proof (induction n reads filled rule: chunked_read.induct)
  case (1 n reads filled)
  show ?case
  proof (cases "n = 0")
    case True
    then show ?thesis by (simp add: chunked_read.simps)
  next
    case False
    then obtain chunk rest where r: "reads = chunk # rest"
      using "1.prems" by (cases reads) simp_all
    let ?k = "min n (length chunk)"
    let ?r = "if drop ?k chunk = [] then rest else drop ?k chunk # rest"
    have c: "concat ?r = drop ?k chunk @ concat rest"
      by simp
    moreover have "n - ?k \<le> length (drop ?k chunk @ concat rest)"
      using "1.prems" by (simp add: r)
    ultimately have "\<exists>reads'. chunked_read (n - ?k) ?r (filled @ take ?k chunk) =
        (Ok ((filled @ take ?k chunk) @ take (n - ?k) (concat ?r)), reads') \<and>
        concat reads' = drop (n - ?k) (concat ?r)"
      by (intro "1.IH" [OF False r refl]) simp
    moreover have "take n (concat reads) = take ?k chunk @ take (n - ?k) (concat ?r)"
      and "drop n (concat reads) = drop (n - ?k) (concat ?r)"
      unfolding c by (auto simp: r min_def)
    moreover have "chunked_read n reads filled = chunked_read (n - ?k) ?r (filled @ take ?k chunk)"
      using False by (subst chunked_read.simps) (simp add: r Let_def)
    ultimately show ?thesis by simp
  qed
qed

interpretation chunked: stream_pipe chunked_pipe "\<lambda>p. concat (cp_reads p)" "\<lambda>p. concat (cp_writes p)"
proof unfold_locales
  fix n and p :: ChunkedPipe
  assume "n \<le> length (concat (cp_reads p))"
  from chunked_read_ok [OF this, of "[]"]
  show "\<exists>p'. read_exact chunked_pipe p n = (Ok (take n (concat (cp_reads p))), p') \<and>
      concat (cp_reads p') = drop n (concat (cp_reads p)) \<and> concat (cp_writes p') = concat (cp_writes p)"
    by (auto simp: chunked_pipe_def ChunkedPipe_read_exact_def)
qed (simp add: chunked_pipe_def ChunkedPipe_write_all_def)

text \<open>
  An open duplex byte stream behind \<open>Read + Write\<close>: \<open>read_exact\<close> takes the next bytes and fails at
  the end of the stream, \<open>write_all\<close> appends, \<open>flush\<close> succeeds.
\<close>

record duplex =
  dx_input :: bytes
  dx_output :: bytes

definition duplex_io :: "duplex std_io" where
  "duplex_io =
     \<lparr>io_read_exact = (\<lambda>d n. if n \<le> length (dx_input d)
        then (Ok (take n (dx_input d)), d\<lparr>dx_input := drop n (dx_input d)\<rparr>)
        else (Err ''failed to fill whole buffer'', d\<lparr>dx_input := []\<rparr>)),
      io_write_all = (\<lambda>d bs. (Ok (), d\<lparr>dx_output := dx_output d @ bs\<rparr>)),
      io_flush = (\<lambda>d. (Ok (), d))\<rparr>"

interpretation duplex: stream_pipe "std_io_named_pipe duplex_io" "\<lambda>p. dx_input (np_inner p)"
    "\<lambda>p. dx_output (np_inner p)"
  by unfold_locales
    (simp_all add: std_io_named_pipe_def StdIoNamedPipe_read_exact_def StdIoNamedPipe_write_all_def
      duplex_io_def)

section \<open>Frames\<close>

lemma frame_encode:
  assumes "PduHeader_valid N (header p)" "PduPacket_encode N p = Ok bs"
  shows "frame N bs"
proof -
  from assms(2) have "PduPacket_size p \<le> 65535"
    and bs: "bs = PduHeader_wire N (header (PduPacket_framed p)) @ body p @ PduPacket_trailer p @ auth_value p"
    by (simp_all add: PduPacket_encode_Ok_iff)
  moreover have "PduHeader_decode N bs = Ok (header (PduPacket_framed p))"
    unfolding bs using assms(1) by (intro PduHeader_decode_encode) simp
  ultimately show ?thesis
    using length_PduPacket_encode [OF assms(2)]
    by (auto simp: frame_def unat_of_nat_u16)
qed

lemma frame_decode:
  assumes "frame N bs"
  shows "PduPacket_decode N bs \<noteq> Err (InvalidPdu ''fragment length does not match input length'')"
    and "PduPacket_decode N bs \<noteq> Err (InvalidPdu ''fragment length is smaller than common header'')"
proof -
  from assms obtain h where h: "PduHeader_decode N bs = Ok h" "unat (frag_length h) = length bs"
    by (auto simp: frame_def)
  have t: "SecurityTrailer_decode x \<noteq> Err (InvalidPdu ''fragment length does not match input length'')"
    "SecurityTrailer_decode x \<noteq> Err (InvalidPdu ''fragment length is smaller than common header'')" for x
    by (auto simp: SecurityTrailer_decode_def and_then_eq_Err idx_def le32_at_def map_err_eq_Err split: if_splits)
  show "PduPacket_decode N bs \<noteq> Err (InvalidPdu ''fragment length does not match input length'')"
    and "PduPacket_decode N bs \<noteq> Err (InvalidPdu ''fragment length is smaller than common header'')"
    using PduHeader_decode_Ok(1) [OF h(1)] h t
    by (auto simp: PduPacket_decode_def Let_def and_then_eq_Err ok_or_eq_Err slice_def split: if_splits)
qed

context stream_pipe
begin

lemma recv_frames:
  "incoming (np_pipe t) = concat fs @ rest \<Longrightarrow> list_all (frame N) fs \<Longrightarrow>
     \<exists>t'. recv_all (ncacn_np N P) (length fs) t = (Ok fs, t') \<and> incoming (np_pipe t') = rest"
proof (induction fs arbitrary: t)
  case (Cons f fs)
  then obtain t1 where "recv_pdu (ncacn_np N P) t = (Ok f, t1)" "incoming (np_pipe t1) = concat fs @ rest"
    using recv_frame [of t f "concat fs @ rest" N] by auto
  with Cons.IH [of t1] Cons.prems(2) show ?case by auto
qed simp

lemma send_frames:
  "\<exists>t'. send_all (ncacn_np N P) t fs = (Ok (), t') \<and> written (np_pipe t') = written (np_pipe t) @ concat fs"
  using np.send_all_ok by blast

end

lemma frames_encode:
  "list_all2 (\<lambda>p f. PduHeader_valid N (header p) \<and> PduPacket_encode N p = Ok f) ps fs \<Longrightarrow>
     list_all (frame N) fs"
  by (induction rule: list_all2_induct) (auto intro: frame_encode)

lemma fst_on_pipe [simp]: "fst (on_pipe f t) = fst (f (np_pipe t))"
  by (simp add: on_pipe_def split: prod.splits)

section \<open>Properties\<close>

text \<open>
  C10: PDUs cross a named pipe intact.  Let a sender write encoded packets to any working pipe, and
  let the bytes it wrote arrive at any working pipe of a receiver, in chunks of any size and
  followed by anything: then \<open>recv_pdu\<close> of the receiver's transport returns exactly the PDUs sent,
  one by one and in order, and leaves what follows them unread.
\<close>

theorem np_transfer:
  assumes "stream_pipe P incoming written" "stream_pipe Q incoming' written'"
    and "list_all2 (\<lambda>p f. PduHeader_valid N (header p) \<and> PduPacket_encode N p = Ok f) ps fs"
    and "written (np_pipe s) = []"
  shows "\<exists>s'. send_all (ncacn_np N P) s fs = (Ok (), s') \<and>
     (\<forall>r rest. incoming' (np_pipe r) = written (np_pipe s') @ rest \<longrightarrow>
        (\<exists>r'. recv_all (ncacn_np N Q) (length ps) r = (Ok fs, r') \<and> incoming' (np_pipe r') = rest))"
  using stream_pipe.send_frames [OF assms(1), of N s fs]
    stream_pipe.recv_frames [OF assms(2) _ frames_encode [OF assms(3)]] list_all2_lengthD [OF assms(3)]
    assms(4)
  by auto

theorem np_transfer_witness:
  "\<exists>s'. send_all (ncacn_np std_ndr chunked_pipe) \<lparr>np_pipe = \<lparr>cp_reads = [], cp_writes = []\<rparr>\<rparr>
       [body_wire std_ndr PduType_Bind 1 3 [7, 8], body_wire std_ndr PduType_Request 2 3 []] = (Ok (), s') \<and>
     (\<forall>r rest. dx_input (np_inner (np_pipe r)) = concat (cp_writes (np_pipe s')) @ rest \<longrightarrow>
        (\<exists>r'. recv_all (ncacn_np std_ndr (std_io_named_pipe duplex_io)) 2 r =
             (Ok [body_wire std_ndr PduType_Bind 1 3 [7, 8], body_wire std_ndr PduType_Request 2 3 []], r') \<and>
           dx_input (np_inner (np_pipe r')) = rest))"
proof -
  have "list_all2 (\<lambda>p f. PduHeader_valid std_ndr (header p) \<and> PduPacket_encode std_ndr p = Ok f)
     [body_packet std_ndr PduType_Bind 1 3 [7, 8], body_packet std_ndr PduType_Request 2 3 []]
     [body_wire std_ndr PduType_Bind 1 3 [7, 8], body_wire std_ndr PduType_Request 2 3 []]"
    by (simp add: body_packet_encode ndr_ok_std_ndr)
  from np_transfer [OF chunked.stream_pipe_axioms duplex.stream_pipe_axioms this,
      of "\<lparr>np_pipe = \<lparr>cp_reads = [], cp_writes = []\<rparr>\<rparr>"]
  show ?thesis by (simp add: numeral_2_eq_2)
qed

text \<open>
  C27: whatever a pipe delivers, a PDU that \<open>recv_pdu\<close> returns is framed: its header decodes and its
  fragment length is its length, so that \<open>PduPacket::decode\<close> never rejects it for its length; and
  \<open>recv_pdu\<close> panics only if the pipe does.  The hypothesis is that \<open>read_exact\<close> fills its buffer.
\<close>

theorem recv_pdu_framed:
  assumes "\<And>p n bs p'. read_exact P p n = (Ok bs, p') \<Longrightarrow> length bs = n"
    and "\<And>p n. fst (read_exact P p n) \<noteq> Panic"
  shows "(NcacnNpTransport_recv_pdu N P t = (Ok bs, t') \<longrightarrow>
      frame N bs \<and>
      PduPacket_decode N bs \<noteq> Err (InvalidPdu ''fragment length does not match input length'')) \<and>
    fst (NcacnNpTransport_recv_pdu N P t) \<noteq> Panic"
proof (intro conjI impI)
  assume "NcacnNpTransport_recv_pdu N P t = (Ok bs, t')"
  then obtain hb p1 h rest p2 where "read_exact P (np_pipe t) 16 = (Ok hb, p1)"
    and h: "PduHeader_decode N hb = Ok h" "16 \<le> unat (frag_length h)"
    and "read_exact P p1 (unat (frag_length h) - 16) = (Ok rest, p2)" and bs: "bs = hb @ rest"
    by (auto simp: NcacnNpTransport_recv_pdu_def and_then_st_eq_Ok on_pipe_def Let_def not_less
        split: prod.splits if_splits)
  then have "length hb = 16" "length rest = unat (frag_length h) - 16"
    using assms(1) by blast+
  moreover from this have "PduHeader_decode N bs = Ok h"
    using h(1) PduHeader_decode_prefix [of bs N] by (simp add: bs)
  ultimately show "frame N bs"
    using h(2) by (simp add: frame_def bs)
  then show "PduPacket_decode N bs \<noteq> Err (InvalidPdu ''fragment length does not match input length'')"
    by (rule frame_decode)
next
  show "fst (NcacnNpTransport_recv_pdu N P t) \<noteq> Panic"
    by (auto simp: NcacnNpTransport_recv_pdu_def fst_and_then_st_eq_Panic Let_def assms(2))
qed

theorem recv_pdu_framed_witness:
  "NcacnNpTransport_recv_pdu std_ndr (std_io_named_pipe duplex_io)
       \<lparr>np_pipe = StdIoNamedPipe_new \<lparr>dx_input = sample_bytes @ [5, 0], dx_output = []\<rparr>\<rparr> =
     (Ok sample_bytes, \<lparr>np_pipe = StdIoNamedPipe_new \<lparr>dx_input = [5, 0], dx_output = []\<rparr>\<rparr>) \<and>
   frame std_ndr sample_bytes"
proof -
  have r: "NcacnNpTransport_recv_pdu std_ndr (std_io_named_pipe duplex_io)
       \<lparr>np_pipe = StdIoNamedPipe_new \<lparr>dx_input = sample_bytes @ [5, 0], dx_output = []\<rparr>\<rparr> =
     (Ok sample_bytes, \<lparr>np_pipe = StdIoNamedPipe_new \<lparr>dx_input = [5, 0], dx_output = []\<rparr>\<rparr>)"
    by code_simp
  have "length bs = n" if "read_exact (std_io_named_pipe duplex_io) p n = (Ok bs, p')" for p n bs p'
    using that by (auto simp: std_io_named_pipe_def StdIoNamedPipe_read_exact_def duplex_io_def
        split: if_splits)
  moreover have "fst (read_exact (std_io_named_pipe duplex_io) p n) \<noteq> Panic" for p n
    by (simp add: std_io_named_pipe_def StdIoNamedPipe_read_exact_def duplex_io_def)
  ultimately show ?thesis
    using recv_pdu_framed [of "std_io_named_pipe duplex_io"] r by blast
qed

text \<open>
  C28: the endpoint parser accepts exactly the paths \<open>\\server\pipe\name\<close> with a server and a name
  that are not empty and contain no backslash, and splits them uniquely; every other string is
  rejected with the endpoint error.
\<close>

theorem endpoint_parse_iff:
  "(NcacnNpEndpoint_parse value = Ok e \<longleftrightarrow>
      value = [backslash, backslash] @ ep_server e @ NcacnNpEndpoint_pipe_path e \<and>
      ep_server e \<noteq> [] \<and> backslash \<notin> set (ep_server e) \<and> ep_pipe e \<noteq> [] \<and> backslash \<notin> set (ep_pipe e)) \<and>
   (NcacnNpEndpoint_parse value = Err NcacnNpEndpoint_invalid_endpoint \<longleftrightarrow>
      (\<nexists>e. NcacnNpEndpoint_parse value = Ok e))"
proof
  show "NcacnNpEndpoint_parse value = Ok e \<longleftrightarrow>
      value = [backslash, backslash] @ ep_server e @ NcacnNpEndpoint_pipe_path e \<and>
      ep_server e \<noteq> [] \<and> backslash \<notin> set (ep_server e) \<and> ep_pipe e \<noteq> [] \<and> backslash \<notin> set (ep_pipe e)"
    by (cases e) (auto simp: NcacnNpEndpoint_parse_def and_then_eq_Ok strip_prefix_eq_Some
        split_once_eq_Some NcacnNpEndpoint_pipe_path_def)
  show "NcacnNpEndpoint_parse value = Err NcacnNpEndpoint_invalid_endpoint \<longleftrightarrow>
      (\<nexists>e. NcacnNpEndpoint_parse value = Ok e)"
    by (cases "NcacnNpEndpoint_parse value")
      (auto simp: NcacnNpEndpoint_parse_def and_then_eq_Err and_then_eq_Panic ok_or_eq_Err split: if_splits)
qed

text \<open>
  The adapter of \<open>Read + Write\<close> objects reports which operation failed, with the message of the
  failure, and flushes after every successful write and only then.
\<close>

lemma std_io_pipe_outcomes:
  "StdIoNamedPipe_read_exact I p n =
     (case io_read_exact I (np_inner p) n of
        (Ok bs, i) \<Rightarrow> (Ok bs, StdIoNamedPipe_new i)
      | (Err e, i) \<Rightarrow> (Err (Transport (''named pipe read failed: '' @ e)), StdIoNamedPipe_new i)
      | (Panic, i) \<Rightarrow> (Panic, StdIoNamedPipe_new i)) \<and>
   StdIoNamedPipe_write_all I p bs =
     (case io_write_all I (np_inner p) bs of
        (Ok _, i) \<Rightarrow>
          (case io_flush I i of
             (Ok _, i') \<Rightarrow> (Ok (), StdIoNamedPipe_new i')
           | (Err e, i') \<Rightarrow> (Err (Transport (''named pipe flush failed: '' @ e)), StdIoNamedPipe_new i')
           | (Panic, i') \<Rightarrow> (Panic, StdIoNamedPipe_new i'))
      | (Err e, i) \<Rightarrow> (Err (Transport (''named pipe write failed: '' @ e)), StdIoNamedPipe_new i)
      | (Panic, i) \<Rightarrow> (Panic, StdIoNamedPipe_new i))"
  by (cases p) (auto simp: StdIoNamedPipe_read_exact_def StdIoNamedPipe_write_all_def
      StdIoNamedPipe_new_def split: prod.splits result.splits)

end
