(* ===== verification/Calls.thy ===== *)
theory Calls
  imports Client Ncacn_Np
begin

text \<open>
  Correctness of calls: what a call puts on the wire, which answers it accepts, how it fails, that
  it returns, and what a client keeps from call to call.
\<close>

section \<open>Reliable transports\<close>

context reliable_transport
begin

lemma send_request_ok:
  assumes "level_error c = None" "24 < unat (cl_max_xmit_frag c)"
  shows "\<exists>t'. send_request_fragments N U T cid opnum stub c = Some (Ok (), c\<lparr>cl_transport := t'\<rparr>) \<and>
     sent t' = sent (cl_transport c) @
       concat (request_frames N U (unat (cl_max_xmit_frag c)) (cl_context_id c) cid opnum stub) \<and>
     (\<forall>fs. delivers (cl_transport c) fs \<longrightarrow> delivers t' fs)"
proof -
  let ?fs = "request_frames N U (unat (cl_max_xmit_frag c)) (cl_context_id c) cid opnum stub"
  obtain t' where "send_all T (cl_transport c) ?fs = (Ok (), t')"
    "sent t' = sent (cl_transport c) @ concat ?fs" "\<forall>fs. delivers (cl_transport c) fs \<longrightarrow> delivers t' fs"
    using send_all_ok by blast
  with assms show ?thesis
    by (intro exI [of _ t']) (simp add: send_request_fragments_eq on_transport_def not_le)
qed

lemma recv_response_ok:
  assumes "level_error c = None" "delivers (cl_transport c) (fs @ gs)" "list_all frame fs"
    and "complete_response N cid fs stub"
  shows "\<exists>t'. recv_response_fragments N T cid c = Some (Ok stub, c\<lparr>cl_transport := t'\<rparr>) \<and>
     delivers t' gs \<and> sent t' = sent (cl_transport c)"
proof -
  obtain t' where t': "recv_all T (length fs) (cl_transport c) = (Ok fs, t')" "delivers t' gs"
    "sent t' = sent (cl_transport c)"
    using recv_all_ok [OF assms(2,3)] by blast
  have "reassemble N cid False [] fs = Some (Ok stub, [])"
    using assms(4) by (auto simp: complete_response_def reassemble_Ok_iff accepted_parts_iff)
  with t' have "recv_outcome N T cid False [] (cl_transport c) (Ok stub) t'"
    by (auto simp: recv_outcome_def)
  with assms(1) t' show ?thesis
    by (auto simp: recv_response_fragments_def recv_loop_complete)
qed

lemma call_raw_ok:
  assumes "level_error c = None" "24 < unat (cl_max_xmit_frag c)"
    and "delivers (cl_transport c) (fs @ gs)" "list_all frame fs"
    and "complete_response N (cl_call_id c) fs stub"
  shows "\<exists>t'. call_raw N U T c opnum request_stub =
       Some (Ok stub, c\<lparr>cl_call_id := max (cl_call_id c + 1) 1, cl_transport := t'\<rparr>) \<and>
     delivers t' gs \<and>
     sent t' = sent (cl_transport c) @
       concat (request_frames N U (unat (cl_max_xmit_frag c)) (cl_context_id c) (cl_call_id c) opnum request_stub)"
proof -
  let ?c = "c\<lparr>cl_call_id := max (cl_call_id c + 1) 1\<rparr>"
  obtain t1 where t1: "send_request_fragments N U T (cl_call_id c) opnum request_stub ?c =
      Some (Ok (), ?c\<lparr>cl_transport := t1\<rparr>)"
    "sent t1 = sent (cl_transport c) @
       concat (request_frames N U (unat (cl_max_xmit_frag c)) (cl_context_id c) (cl_call_id c) opnum request_stub)"
    "delivers t1 (fs @ gs)"
    using send_request_ok [of ?c N U "cl_call_id c" opnum request_stub] assms(1-3) by auto
  obtain t2 where "recv_response_fragments N T (cl_call_id c) (?c\<lparr>cl_transport := t1\<rparr>) =
      Some (Ok stub, ?c\<lparr>cl_transport := t2\<rparr>)" "delivers t2 gs" "sent t2 = sent t1"
    using recv_response_ok [of "?c\<lparr>cl_transport := t1\<rparr>" fs gs N "cl_call_id c" stub] t1(3) assms by auto
  with t1 show ?thesis
    by (intro exI [of _ t2]) (simp add: call_raw_def next_call_id_def)
qed

end

section \<open>Calls over any transport\<close>

lemma recv_response_safe:
  assumes "\<And>t. fst (recv_pdu T t) \<noteq> Panic" "level_error c = None"
    and "recv_response_fragments N T cid c = Some (r, c')"
  shows "r \<noteq> Panic"
proof -
  have no_step: "frame_step N cid saw acc f \<noteq> Panic" for N cid saw acc f
    by (auto simp: frame_step_def response_step_def Let_def and_then_eq_Panic ResponsePdu_decode_safe
        FaultPdu_decode_safe PduPacket_decode_safe)
  have "reassemble N cid saw acc fs \<noteq> Some (Panic, gs)" for saw acc fs gs
    by (induction N cid saw acc fs rule: reassemble.induct)
      (auto simp: no_step split: result.splits sum.splits)
  moreover from recv_loop_sound [OF assms(3) [unfolded recv_response_fragments_def] assms(2)] obtain t'
    where "recv_outcome N T cid False [] (cl_transport c) r t'" by blast
  ultimately show ?thesis
    using assms(1) unfolding recv_outcome_def by (metis fst_conv)
qed

lemma send_all_safe: "(\<And>t bs. fst (send_pdu T t bs) \<noteq> Panic) \<Longrightarrow> fst (send_all T t fs) \<noteq> Panic"
  by (induction fs arbitrary: t) (auto simp: fst_and_then_st_eq_Panic)

lemma on_transport_frame: "\<exists>r t'. on_transport f c = (r, c\<lparr>cl_transport := t'\<rparr>) \<and> f (cl_transport c) = (r, t')"
  by (simp add: on_transport_def split: prod.splits)

text \<open>The three ways a call ends before it receives anything, and the fourth.\<close>

lemma call_raw_cases:
  fixes c :: "('t, 'p) RpcClient"
  defines "c1 \<equiv> c\<lparr>cl_call_id := max (cl_call_id c + 1) 1\<rparr>"
  obtains (small) "unat (cl_max_xmit_frag c) \<le> 24"
      "call_raw N U T c opnum stub = Some (Err (InvalidPdu ''max transmit fragment is too small''), c1)"
    | (level) e where "24 < unat (cl_max_xmit_frag c)" "level_error c = Some e"
      "call_raw N U T c opnum stub = Some (Err e, c1)"
    | (unsent) r t where "24 < unat (cl_max_xmit_frag c)" "level_error c = None" "\<And>x. r \<noteq> Ok x"
      "send_all T (cl_transport c) (request_frames N U (unat (cl_max_xmit_frag c)) (cl_context_id c)
         (cl_call_id c) opnum stub) = (r, t)"
      "call_raw N U T c opnum stub = Some (case r of Err e \<Rightarrow> Err e | _ \<Rightarrow> Panic, c1\<lparr>cl_transport := t\<rparr>)"
    | (sent) t where "24 < unat (cl_max_xmit_frag c)" "level_error c = None"
      "send_all T (cl_transport c) (request_frames N U (unat (cl_max_xmit_frag c)) (cl_context_id c)
         (cl_call_id c) opnum stub) = (Ok (), t)"
      "call_raw N U T c opnum stub =
         recv_response_fragments N T (cl_call_id c) (c1\<lparr>cl_transport := t\<rparr>)"
proof -
  obtain r t where s: "send_all T (cl_transport c) (request_frames N U (unat (cl_max_xmit_frag c))
      (cl_context_id c) (cl_call_id c) opnum stub) = (r, t)"
    by (metis surj_pair)
  have e: "call_raw N U T c opnum stub = and_then_run
      (Some (if unat (cl_max_xmit_frag c) \<le> 24 then (Err (InvalidPdu ''max transmit fragment is too small''), c1)
             else case level_error c of Some e \<Rightarrow> (Err e, c1) | None \<Rightarrow> (r, c1\<lparr>cl_transport := t\<rparr>)))
      (\<lambda>_ c'. recv_response_fragments N T (cl_call_id c) c')"
    using s by (simp add: call_raw_def next_call_id_def send_request_fragments_eq c1_def on_transport_def
        split: option.splits)
  show thesis
  proof (cases "unat (cl_max_xmit_frag c) \<le> 24")
    case True
    with e show thesis by (intro small) auto
  next
    case big: False
    show thesis
    proof (cases "level_error c")
      case (Some x)
      with e big show thesis by (intro level) auto
    next
      case None
      show thesis
      proof (cases r)
        case (Ok u)
        with e big None s show thesis by (intro sent) auto
      next
        case (Err x)
        with e big None s show thesis by (intro unsent) auto
      next
        case Panic
        with e big None s show thesis by (intro unsent) auto
      qed
    qed
  qed
qed

lemma call_raw_frame:
  assumes "call_raw N U T c opnum stub = Some (r, c')"
  shows "\<exists>t'. c' = c\<lparr>cl_call_id := max (cl_call_id c + 1) 1, cl_transport := t'\<rparr>"
proof (cases rule: call_raw_cases [of c N U T opnum stub])
  case small
  with assms show ?thesis by (intro exI [of _ "cl_transport c"]) (cases c, auto)
next
  case (level e)
  with assms show ?thesis by (intro exI [of _ "cl_transport c"]) (cases c, auto)
next
  case (unsent q t)
  with assms show ?thesis by auto
next
  case (sent t)
  with assms have "recv_response_loop N T (cl_call_id c) False []
      (c\<lparr>cl_call_id := max (cl_call_id c + 1) 1, cl_transport := t\<rparr>) = Some (r, c')"
    by (simp add: recv_response_fragments_def)
  from recv_loop_sound [OF this] sent(2) show ?thesis by auto
qed

lemma call_raw_safe:
  assumes "\<And>t bs. fst (send_pdu T t bs) \<noteq> Panic" "\<And>t. fst (recv_pdu T t) \<noteq> Panic"
    and "call_raw N U T c opnum stub = Some (r, c')"
  shows "r \<noteq> Panic"
proof (cases rule: call_raw_cases [of c N U T opnum stub])
  case (unsent q t)
  with assms(3) send_all_safe [OF assms(1), of "cl_transport c"] show ?thesis
    by (auto split: result.splits) (metis fst_conv)+
next
  case (sent t)
  then have "level_error (c\<lparr>cl_call_id := max (cl_call_id c + 1) 1, cl_transport := t\<rparr>) = None" by simp
  from recv_response_safe [OF assms(2) this] sent(4) assms(3) show ?thesis by metis
qed (use assms(3) in auto)

lemma recv_loop_memory:
  assumes "level_error c = None"
  shows "\<exists>r c'. recv_response_loop N memory_transport cid saw acc c = Some (r, c')"
  using assms
proof (induction "mt_incoming (cl_transport c)" arbitrary: c saw acc)
  case Nil
  then have "recv_pdu memory_transport (cl_transport c) =
      (Err (Transport ''no queued PDU available''), cl_transport c)"
    by simp
  from recv_response_loop_unfold [OF Nil(2) this] show ?case by simp
next
  case (Cons f fs)
  let ?t = "(cl_transport c)\<lparr>mt_incoming := fs\<rparr>"
  from Cons(2) have "recv_pdu memory_transport (cl_transport c) = (Ok f, ?t)" by simp
  note U = recv_response_loop_unfold [OF Cons(3) this]
  have "\<exists>r c'. recv_response_loop N memory_transport cid s a (c\<lparr>cl_transport := ?t\<rparr>) = Some (r, c')" for s a
    using Cons(3) by (intro Cons(1)) simp_all
  then show ?case
    by (simp add: U split: result.splits sum.splits)
qed

section \<open>Call identifiers\<close>

lemma unat_next_call_id: "unat (max (w + 1) 1 :: u32) = unat w mod (2 ^ 32 - 1) + 1"
proof (cases "w = - 1")
  case True
  moreover have "unat (- 1 :: u32) = 4294967295" by (simp add: unsigned_minus_1_eq_mask mask_eq_exp_minus_1)
  ultimately show ?thesis by simp
next
  case False
  then have "unat (w + 1) = Suc (unat w)"
    using unatSuc [of w] by (simp add: add.commute add_eq_0_iff)
  moreover have "Suc (unat w) < 2 ^ 32"
    using calculation unsigned_less [of "w + 1", where ?'a = nat] by simp
  moreover from this have "unat w mod (2 ^ 32 - 1) = unat w" by simp
  moreover have "max (w + 1) 1 = w + 1"
    using False by (simp add: max_def word_le_nat_alt calculation unat_eq_zero)
  ultimately show ?thesis by simp
qed

lemma call_id_iterate:
  assumes "cl_call_id c \<noteq> 0"
  shows "unat (cl_call_id (((\<lambda>c. snd (next_call_id c)) ^^ n) c)) =
     (unat (cl_call_id c) - 1 + n) mod (2 ^ 32 - 1) + 1"
proof (induction n)
  case 0
  have "0 < unat (cl_call_id c)" "unat (cl_call_id c) < 2 ^ 32"
    using assms unsigned_less [of "cl_call_id c"] by (simp_all add: unat_gt_0)
  then show ?case by simp
next
  case (Suc n)
  then show ?case
    by (simp add: next_call_id_def unat_next_call_id mod_Suc_eq)
qed

lemma recv_loop_level_error:
  assumes "level_error c = Some e"
  shows "recv_response_loop N T cid saw acc c \<noteq> Some (Ok stub, c')"
proof -
  obtain r t where "recv_pdu T (cl_transport c) = (r, t)" by (metis surj_pair)
  with assms show ?thesis
    by (cases r; cases "PduPacket_decode N (case r of Ok f \<Rightarrow> f)"; subst recv_response_loop.simps)
      (simp_all add: recv_iteration_error on_transport_def)
qed

text \<open>How the packet that ends an open response is answered, when it is not a response fragment.\<close>

definition rejection :: "u32 \<Rightarrow> bool \<Rightarrow> PduPacket \<Rightarrow> Error option" where
  "rejection cid saw_first p =
     (if call_id (header p) \<noteq> cid then Some (InvalidPdu ''response call id does not match request'')
      else if ptype (header p) = PduType_Response then
        (if \<not> saw_first \<and> \<not> first_flag (pfc_flags (header p))
         then Some (InvalidPdu ''response is missing first fragment'') else None)
      else if ptype (header p) = PduType_Fault then
        (case FaultPdu_decode (body p) of Ok f \<Rightarrow> Some (Fault (fault_status f)) | Err e \<Rightarrow> Some e | Panic \<Rightarrow> None)
      else Some (InvalidPdu ''expected response or fault PDU''))"

lemma frame_step_rejection:
  "PduPacket_decode N f = Ok p \<Longrightarrow> rejection cid saw p = Some e \<Longrightarrow> frame_step N cid saw acc f = Err e"
  by (auto simp: frame_step_def rejection_def response_step_def Let_def first_flag_def
      split: if_splits result.splits)

lemma recv_all_frames_append:
  "recv_all T (length (fs @ gs)) t = (Ok (fs @ gs), t') \<longleftrightarrow>
     (\<exists>t1. recv_all T (length fs) t = (Ok fs, t1) \<and> recv_all T (length gs) t1 = (Ok gs, t'))"
  by (induction fs arbitrary: t) (auto simp: and_then_st_eq_Ok)

section \<open>Properties\<close>

definition sample_client :: "bytes list \<Rightarrow> (MemoryTransport, unit) RpcClient" where
  "sample_client incoming = with_max_xmit_frag (new_bound (MemoryTransport_new incoming) 4) 28"

lemma sample_client_simps [simp]:
  "cl_transport (sample_client fs) = \<lparr>mt_incoming = fs, mt_sent = []\<rparr>"
  "cl_max_xmit_frag (sample_client fs) = 28" "cl_context_id (sample_client fs) = 4"
  "cl_call_id (sample_client fs) = 1" "cl_auth_provider (sample_client fs) = None"
  "level_error (sample_client fs) = None"
  by (simp_all add: sample_client_def with_max_xmit_frag_def new_bound_def MemoryTransport_new_def level_error_def)

definition response_wire :: "ndr_crate \<Rightarrow> u32 \<Rightarrow> u8 \<Rightarrow> bytes \<Rightarrow> bytes" where
  "response_wire N cid flags stub =
     body_wire N PduType_Response cid flags
       (ResponsePdu_encode \<lparr>resp_alloc_hint = of_nat (length stub), resp_ctx_id = 0, resp_cancel_count = 0,
          resp_stub_data = stub\<rparr>)"

lemma response_part_wire:
  "ndr_ok N \<Longrightarrow> length stub \<le> 65511 \<Longrightarrow> response_part N cid (response_wire N cid flags stub) = Some (flags, stub)"
  by (simp add: response_part_def response_wire_def body_wire_decode)

text \<open>
  C2: request fragmentation refines its specification.  Over any transport, sending a request is
  sending, one after another and up to the first failure, exactly the PDUs of \<open>request_frames\<close>: the
  chunks of the stub, each as long as the negotiated fragment size allows, with the first and last
  fragment flags at the ends.  A fragment size that leaves no room for data and an authentication
  level above Connect are errors, and then nothing is sent.  The loop always ends.
\<close>

theorem request_fragmentation:
  "send_request_fragments N U T cid opnum stub c =
     Some (if unat (cl_max_xmit_frag c) \<le> 24
             then (Err (InvalidPdu ''max transmit fragment is too small''), c)
           else
             (case level_error c of
                Some e \<Rightarrow> (Err e, c)
              | None \<Rightarrow>
                  on_transport (\<lambda>t. send_all T t
                    (request_frames N U (unat (cl_max_xmit_frag c)) (cl_context_id c) cid opnum stub)) c))"
  by (rule send_request_fragments_eq)

text \<open>
  C3: the server can reassemble the request.  For a client whose fragment size exceeds 24 bytes, the
  size of the two headers, and whose provider, if any, does not ask for packet integrity or privacy,
  \<open>send_request_fragments\<close> hands a sequence of PDUs to the transport, whatever the transport, one after
  another and up to the first failure.  The PDUs decode to request packets of the call, all with the
  context, operation number and allocation hint of the request; their stub data concatenates to the
  stub; exactly the first has the first-fragment flag and exactly the last the last-fragment flag;
  none is longer than the fragment size, and their number is the least possible (one for an empty
  stub).
\<close>

theorem request_on_wire:
  assumes "ndr_ok N" "level_error c = None" "24 < unat (cl_max_xmit_frag c)"
  shows "\<exists>frames.
     (\<forall>T. send_request_fragments N U T cid opnum stub c = Some (on_transport (\<lambda>t. send_all T t frames) c)) \<and>
     carries_request N U (cl_context_id c) cid opnum stub frames \<and>
     list_all (\<lambda>f. length f \<le> unat (cl_max_xmit_frag c)) frames \<and>
     length frames = max 1 ((length stub + (unat (cl_max_xmit_frag c) - 24) - 1) div (unat (cl_max_xmit_frag c) - 24))"
proof (intro exI conjI)
  let ?m = "unat (cl_max_xmit_frag c)" and ?f = "request_frames N U (unat (cl_max_xmit_frag c)) (cl_context_id c) cid opnum stub"
  have "?m \<le> 65535" using unat_u16_less [of "cl_max_xmit_frag c"] by linarith
  then show "carries_request N U (cl_context_id c) cid opnum stub ?f"
    by (rule request_frames_carry [OF assms(1,3)])
  show "\<forall>T. send_request_fragments N U T cid opnum stub c = Some (on_transport (\<lambda>t. send_all T t ?f) c)"
    using assms(2,3) by (simp add: send_request_fragments_eq)
  show "list_all (\<lambda>f. length f \<le> ?m) ?f"
    using length_request_frame [OF _ assms(3)] by (auto simp: list_all_iff)
  show "length ?f = max 1 ((length stub + (?m - 24) - 1) div (?m - 24))"
    by (rule length_request_frames [OF assms(3)])
qed

text \<open>Five bytes in fragments of at most 28 bytes: what the in-memory transport records.\<close>

theorem request_on_wire_witness:
  "\<exists>frames. (\<forall>T. send_request_fragments std_ndr std_uuid T 1 9 [1, 2, 3, 4, 5] (sample_client []) =
       Some (on_transport (\<lambda>t. send_all T t frames) (sample_client []))) \<and>
     carries_request std_ndr std_uuid (cl_context_id (sample_client [])) 1 9 [1, 2, 3, 4, 5] frames \<and>
     length frames = 2"
proof -
  have "24 < unat (cl_max_xmit_frag (sample_client []))" by simp
  from request_on_wire [OF ndr_ok_std_ndr sample_client_simps(6) this, of std_uuid 1 9 "[1, 2, 3, 4, 5]"]
  show ?thesis by auto
qed

text \<open>
  C1: a call accepts exactly the complete responses.  Over any transport, receiving returns \<open>stub\<close> iff
  the level is supported and the PDUs received are response fragments of this call, the first of
  them with the first-fragment flag, the last and only the last of them with the last-fragment
  flag, and \<open>stub\<close> is the concatenation of their data; it then has read exactly those PDUs.
\<close>

theorem response_accepted_iff:
  "recv_response_fragments N T cid c = Some (Ok stub, c') \<longleftrightarrow>
     level_error c = None \<and>
     (\<exists>fs t'. recv_all T (length fs) (cl_transport c) = (Ok fs, t') \<and>
        complete_response N cid fs stub \<and> c' = c\<lparr>cl_transport := t'\<rparr>)"
proof (cases "level_error c")
  case (Some e)
  then show ?thesis by (simp add: recv_response_fragments_def recv_loop_level_error)
next
  case None
  have "recv_response_fragments N T cid c = Some (Ok stub, c') \<longleftrightarrow>
      (\<exists>t'. c' = c\<lparr>cl_transport := t'\<rparr> \<and> recv_outcome N T cid False [] (cl_transport c) (Ok stub) t')"
    unfolding recv_response_fragments_def
    using recv_loop_sound [OF _ None] recv_loop_complete [OF None] by blast
  then show ?thesis
    using None
    by (auto simp: recv_outcome_def reassemble_Ok_iff complete_response_def accepted_parts_iff)
qed

text \<open>
  C11: how a response is rejected.  When the PDUs received so far are an open response of this call
  and the next one decodes to a packet of another call, to a fault, to a response without the
  first-fragment flag where the first fragment is due, or to any other type, the call returns the
  corresponding error (for a fault its status) and has read exactly the PDUs up to that one.
\<close>

theorem response_rejected:
  assumes "level_error c = None" "open_response N cid fs parts" "PduPacket_decode N f = Ok p"
    and "rejection cid (fs \<noteq> []) p = Some e"
    and "recv_all T (length (fs @ [f])) (cl_transport c) = (Ok (fs @ [f]), t')"
  shows "recv_response_fragments N T cid c = Some (Err e, c\<lparr>cl_transport := t'\<rparr>)"
proof -
  have "reassemble N cid False [] (fs @ [f]) = Some (Err e, [])"
    using reassemble_open [of N cid fs parts False "[]" "[f]"] assms(2)
      frame_step_rejection [OF assms(3,4)]
    by (simp add: open_response_def)
  with assms(5) have "recv_outcome N T cid False [] (cl_transport c) (Err e) t'"
    unfolding recv_outcome_def by blast
  with assms(1) show ?thesis
    by (simp add: recv_response_fragments_def recv_loop_complete)
qed

definition sample_fault :: FaultPdu where
  "sample_fault = \<lparr>fault_alloc_hint = 0, fault_ctx_id = 4, fault_cancel_count = 0,
     fault_status = 0x1C010002, fault_stub_data = []\<rparr>"

theorem response_rejected_witness:
  "recv_response_fragments std_ndr memory_transport 1
     (sample_client [response_wire std_ndr 1 1 [7, 8], body_wire std_ndr PduType_Fault 1 3 (FaultPdu_encode sample_fault)]) =
   Some (Err (Fault 0x1C010002), (sample_client []))"
proof -
  let ?r = "response_wire std_ndr 1 1 [7, 8]"
  let ?f = "body_wire std_ndr PduType_Fault 1 3 (FaultPdu_encode sample_fault)"
  have "response_part std_ndr 1 ?r = Some (1, [7, 8])"
    by (rule response_part_wire [OF ndr_ok_std_ndr]) simp
  then have o: "open_response std_ndr 1 [?r] [(1, [7, 8])]"
    by (simp add: open_response_def last_flag_def first_flag_def PFC_LAST_FRAG_def PFC_FIRST_FRAG_def)
  have d: "PduPacket_decode std_ndr ?f = Ok (body_packet std_ndr PduType_Fault 1 3 (FaultPdu_encode sample_fault))"
    by (rule body_wire_decode [OF ndr_ok_std_ndr]) (simp add: sample_fault_def)
  have r: "rejection 1 ([?r] \<noteq> []) (body_packet std_ndr PduType_Fault 1 3 (FaultPdu_encode sample_fault)) =
      Some (Fault 0x1C010002)"
    by (simp add: rejection_def) (simp add: sample_fault_def)
  have a: "recv_all memory_transport (length ([?r] @ [?f])) (cl_transport (sample_client [?r, ?f])) =
      (Ok ([?r] @ [?f]), \<lparr>mt_incoming = [], mt_sent = []\<rparr>)"
    by simp
  show ?thesis
    using response_rejected [OF _ o d r a]
    by (simp add: sample_client_def with_max_xmit_frag_def new_bound_def MemoryTransport_new_def level_error_def)
qed

text \<open>
  C4: a call over a working transport succeeds, for a client whose provider, if any, does not ask for
  packet integrity or privacy and whose fragment size exceeds 24 bytes, the size of the two headers
  of a request.  If the transport will deliver PDUs that form a complete response to the next call
  identifier, then \<open>call_raw\<close> returns its data, has sent exactly the PDUs of the request, and leaves the
  PDUs after the response for the next call.
\<close>

theorem call_raw_succeeds:
  assumes "reliable_transport T frm delivers sent" "level_error c = None" "24 < unat (cl_max_xmit_frag c)"
    and "delivers (cl_transport c) (fs @ gs)" "list_all frm fs" "complete_response N (cl_call_id c) fs stub"
  shows "\<exists>t'. call_raw N U T c opnum request_stub =
       Some (Ok stub, c\<lparr>cl_call_id := max (cl_call_id c + 1) 1, cl_transport := t'\<rparr>) \<and>
     delivers t' gs \<and>
     sent t' = sent (cl_transport c) @
       concat (request_frames N U (unat (cl_max_xmit_frag c)) (cl_context_id c) (cl_call_id c) opnum request_stub)"
  using reliable_transport.call_raw_ok [OF assms] .

definition sample_np_client :: "bytes list \<Rightarrow> (ChunkedPipe NcacnNpTransport, unit) RpcClient" where
  "sample_np_client reads = new_bound (NcacnNpTransport_new \<lparr>cp_reads = reads, cp_writes = []\<rparr>) 4"

text \<open>The response arrives in two fragments, cut into three reads at other places.\<close>

theorem call_raw_succeeds_witness:
  "\<exists>t'. call_raw std_ndr std_uuid (ncacn_np std_ndr chunked_pipe)
       (sample_np_client [take 5 (response_wire std_ndr 1 1 [7, 8]),
          drop 5 (response_wire std_ndr 1 1 [7, 8]) @ take 20 (response_wire std_ndr 1 2 [9]),
          drop 20 (response_wire std_ndr 1 2 [9])]) 9 [1, 2, 3] =
     Some (Ok [7, 8, 9], (sample_np_client [])\<lparr>cl_call_id := 2, cl_transport := t'\<rparr>) \<and>
   concat (cp_writes (np_pipe t')) = concat (request_frames std_ndr std_uuid 4280 4 1 9 [1, 2, 3])"
proof -
  let ?f = "response_wire std_ndr 1 1 [7, 8]" let ?g = "response_wire std_ndr 1 2 [9]"
  let ?c = "sample_np_client [take 5 ?f, drop 5 ?f @ take 20 ?g, drop 20 ?g]"
  have n: "response_part std_ndr 1 ?f = Some (1, [7, 8])" "response_part std_ndr 1 ?g = Some (2, [9])"
    by (rule response_part_wire [OF ndr_ok_std_ndr], simp)+
  have f: "list_all (frame std_ndr) [?f, ?g]"
    using frame_encode [OF _ body_packet_encode] ndr_ok_std_ndr by (simp add: response_wire_def)
  have r: "complete_response std_ndr (cl_call_id ?c) [?f, ?g] [7, 8, 9]"
    unfolding complete_response_def using n
    by (intro exI [of _ "[(1, [7, 8]), (2, [9])]"])
      (simp add: sample_np_client_def new_bound_def first_flag_def last_flag_def PFC_FIRST_FRAG_def PFC_LAST_FRAG_def)
  have d: "np_delivers (\<lambda>p. concat (cp_reads p)) (cl_transport ?c) ([?f, ?g] @ [])"
    by (simp add: np_delivers_def sample_np_client_def new_bound_def NcacnNpTransport_new_def response_wire_def)
  have m: "level_error ?c = None" "24 < unat (cl_max_xmit_frag ?c)"
    by (simp_all add: sample_np_client_def new_bound_def level_error_def DEFAULT_MAX_XMIT_FRAG_def)
  show ?thesis
    using call_raw_succeeds [OF chunked.np.reliable_transport_axioms m d f r, of std_uuid 9 "[1, 2, 3]"]
    by (auto simp: sample_np_client_def new_bound_def NcacnNpTransport_new_def DEFAULT_MAX_XMIT_FRAG_def)
qed

lemma call_raw_memory: "\<exists>r c'. call_raw N U memory_transport c opnum stub = Some (r, c')"
proof (cases rule: call_raw_cases [of c N U memory_transport opnum stub])
  case (sent t)
  then show ?thesis
    using recv_loop_memory [of "c\<lparr>cl_call_id := max (cl_call_id c + 1) 1, cl_transport := t\<rparr>"]
    by (simp add: recv_response_fragments_def)
qed auto

text \<open>
  C19: a call returns and never panics when the peer falls silent or misbehaves.  Over the in-memory
  transport, whatever PDUs are queued, \<open>call_raw\<close> ends with a value or an error.
\<close>

theorem call_raw_returns:
  "\<exists>r c'. call_raw N U memory_transport c opnum stub = Some (r, c') \<and> r \<noteq> Panic"
proof -
  have recv: "fst (recv_pdu memory_transport t) \<noteq> Panic" for t
    by (cases "mt_incoming t") simp_all
  obtain r c' where r: "call_raw N U memory_transport c opnum stub = Some (r, c')"
    using call_raw_memory by blast
  with call_raw_safe [OF _ recv r] show ?thesis by auto
qed

text \<open>
  C20: what a call may change.  Whatever its outcome and whatever the transport does, a call that
  returns leaves the client's context, fragment size and authentication provider as they were,
  advances the call identifier once, and otherwise changes only the transport; and it panics only if
  the transport does.
\<close>

theorem call_raw_effect:
  assumes "call_raw N U T c opnum stub = Some (r, c')"
  shows "cl_context_id c' = cl_context_id c \<and> cl_max_xmit_frag c' = cl_max_xmit_frag c \<and>
     cl_auth_provider c' = cl_auth_provider c \<and> cl_call_id c' = max (cl_call_id c + 1) 1 \<and>
     (r = Panic \<longrightarrow> (\<exists>t bs. fst (send_pdu T t bs) = Panic) \<or> (\<exists>t. fst (recv_pdu T t) = Panic))"
  using call_raw_frame [OF assms] call_raw_safe [OF _ _ assms] by fastforce

theorem call_raw_effect_witness:
  "\<exists>r c'. call_raw std_ndr std_uuid memory_transport (sample_client []) 9 [1] = Some (r, c') \<and>
     cl_call_id c' = 2 \<and> cl_context_id c' = 4"
proof -
  obtain r c' where "call_raw std_ndr std_uuid memory_transport (sample_client []) 9 [1] = Some (r, c')"
    using call_raw_memory by blast
  with call_raw_effect [OF this] show ?thesis by simp
qed

text \<open>
  C21: call identifiers count up from the current one and skip zero: the \<open>n\<close>-th identifier is given in
  closed form, it is never zero, and any \<open>2 ^ 32 - 1\<close> consecutive identifiers are distinct.
\<close>

theorem call_id_sequence:
  assumes "cl_call_id c \<noteq> 0"
  defines "call_id_at \<equiv> \<lambda>n. unat (cl_call_id (((\<lambda>c. snd (next_call_id c)) ^^ n) c))"
  shows "call_id_at n = (unat (cl_call_id c) - 1 + n) mod (2 ^ 32 - 1) + 1 \<and>
     (i < j \<and> j < i + (2 ^ 32 - 1) \<longrightarrow> call_id_at i \<noteq> call_id_at j)"
proof -
  have c: "call_id_at n = (unat (cl_call_id c) - 1 + n) mod (2 ^ 32 - 1) + 1" for n
    unfolding call_id_at_def by (rule call_id_iterate [OF assms(1)])
  have "(a + i) mod m \<noteq> (a + j) mod m" if "i < j" "j < i + m" for a i j m :: nat
  proof
    assume "(a + i) mod m = (a + j) mod m"
    then have "m dvd (a + j) - (a + i)"
      by (metis mod_eq_dvd_iff_nat add_le_cancel_left less_imp_le that(1))
    then show False
      using that by (auto dest!: dvd_imp_le)
  qed
  with c show ?thesis by (metis add_right_cancel)
qed

theorem call_id_sequence_witness:
  "unat (cl_call_id (((\<lambda>c. snd (next_call_id c)) ^^ 3) ((sample_client [])\<lparr>cl_call_id := 0xFFFFFFFE\<rparr>))) = 2"
  using call_id_sequence [of "(sample_client [])\<lparr>cl_call_id := 0xFFFFFFFE\<rparr>" 3] by simp

text \<open>
  C22: a client whose provider asks for packet integrity or privacy never sends a request.  Every call
  fails without touching the transport and changes nothing but the call identifier; the error is the
  one that names the provider's level, unless the fragment size leaves no room for data, which is
  reported first.
\<close>

theorem unsupported_level_sends_nothing:
  assumes "cl_auth_provider c = Some (A, p)"
    and "auth_level A p \<in> {AuthLevel_PacketIntegrity, AuthLevel_PacketPrivacy}"
  shows "call_raw N U T c opnum stub =
     Some (Err (if unat (cl_max_xmit_frag c) \<le> 24 then InvalidPdu ''max transmit fragment is too small''
                else if auth_level A p = AuthLevel_PacketIntegrity
                  then Auth ''RPC auth level PacketIntegrity is not supported in v1''
                else Auth ''RPC auth level PacketPrivacy is not supported in v1''),
           c\<lparr>cl_call_id := max (cl_call_id c + 1) 1\<rparr>)"
proof -
  have e: "level_error c = Some (if auth_level A p = AuthLevel_PacketIntegrity
      then Auth ''RPC auth level PacketIntegrity is not supported in v1''
      else Auth ''RPC auth level PacketPrivacy is not supported in v1'')"
    using assms by (auto simp: level_error_def)
  show ?thesis
    by (cases rule: call_raw_cases [of c N U T opnum stub]) (simp_all add: e)
qed

definition sample_provider :: "AuthLevel RpcAuthProvider" where
  "sample_provider =
     \<lparr>mechanism = (\<lambda>_. AuthMechanism_Kerberos), auth_level = (\<lambda>level. level),
      init_context = (\<lambda>level _. (Ok [], level)), provider_step = (\<lambda>level _. (Ok [], level)),
      auth_type = (\<lambda>_. RpcAuthProvider_auth_type AuthMechanism_Kerberos),
      auth_context_id = (\<lambda>_. RpcAuthProvider_auth_context_id),
      is_context_established = (\<lambda>_. RpcAuthProvider_is_context_established)\<rparr>"

theorem unsupported_level_sends_nothing_witness:
  "\<exists>c'. call_raw std_ndr std_uuid memory_transport
     (new_bound_with_auth (MemoryTransport_new []) 4 (sample_provider, AuthLevel_PacketPrivacy)) 9 [1] =
       Some (Err (Auth ''RPC auth level PacketPrivacy is not supported in v1''), c') \<and>
     mt_sent (cl_transport c') = []"
  using unsupported_level_sends_nothing [of
      "new_bound_with_auth (MemoryTransport_new []) 4 (sample_provider, AuthLevel_PacketPrivacy)"
      sample_provider AuthLevel_PacketPrivacy std_ndr std_uuid memory_transport 9 "[1]"]
  by (simp add: new_bound_with_auth_def sample_provider_def DEFAULT_MAX_XMIT_FRAG_def MemoryTransport_new_def)

end
