(* ===== verification/Binding.thy ===== *)
theory Binding
  imports Client Ncacn_Np
begin

text \<open>
  Correctness of binding: what a bind puts on the wire, how the server's answer decides its outcome,
  the three legs of an authenticated bind, and what holds of every client that a bind returns.
\<close>

section \<open>The PDUs of a bind\<close>

lemma new_packet_encode:
  "length b \<le> 65519 \<Longrightarrow>
     PduPacket_encode N (PduPacket_new (PduHeader_new N ty flags cid) b []) = Ok (body_wire N ty cid flags b)"
  by (simp add: PduPacket_encode_Ok_iff PduPacket_new_def PduPacket_size_def PduPacket_trailer_def body_wire_def
      body_packet_def PduHeader_new_def)

text \<open>The bytes a bind sends first, and its treatment of the reply.\<close>

definition bind_bytes ::
    "ndr_crate \<Rightarrow> 'u uuid_crate \<Rightarrow> 'u PresentationContext list \<Rightarrow> ('p boxed_provider \<times> bytes) option
       \<Rightarrow> (bytes, Error) result" where
  "bind_bytes N U proposed ap =
     and_then (BindPdu_with_contexts U DEFAULT_MAX_XMIT_FRAG DEFAULT_MAX_XMIT_FRAG 0 proposed) (\<lambda>b.
     and_then (bind_packet N 1 (BindPdu_encode b) ap) (PduPacket_encode N))"

definition bind_reply ::
    "ndr_crate \<Rightarrow> 'u uuid_crate \<Rightarrow> 't RpcTransport \<Rightarrow> 'u PresentationContext list
       \<Rightarrow> ('p boxed_provider \<times> bytes) option \<Rightarrow> bytes \<Rightarrow> 't \<Rightarrow> (('t, 'p) RpcClient, Error) result \<times> 't" where
  "bind_reply N U T proposed ap reply t =
     and_then_st (PduPacket_decode N reply, t) (\<lambda>response t.
     if call_id (header response) \<noteq> 1 then (Err (InvalidPdu ''bind response call id mismatch''), t)
     else bind_response N U T 1 proposed response ap t)"

lemma bind_inner_eq:
  assumes "proposed \<noteq> []" "init_auth auth = Ok ap"
  shows "bind_with_contexts_inner N U T t proposed auth =
     and_then_st (bind_bytes N U proposed ap, t) (\<lambda>bs t.
     and_then_st (send_pdu T t bs) (\<lambda>_ t.
     and_then_st (recv_pdu T t) (\<lambda>reply t. bind_reply N U T proposed ap reply t)))"
proof -
  have l: "and_then_st (r, s) (\<lambda>x s. and_then_st (f x, s) g) = and_then_st (and_then r f, s) g"
    for r :: "('x, Error) result" and s :: 't and f :: "'x \<Rightarrow> ('y, Error) result"
      and g :: "'y \<Rightarrow> 't \<Rightarrow> (('t, 'p) RpcClient, Error) result \<times> 't"
    by (cases r) simp_all
  show ?thesis
    using assms
    by (simp add: bind_with_contexts_inner_def bind_bytes_def bind_reply_def [abs_def] Let_def)
      (cases "BindPdu_with_contexts U DEFAULT_MAX_XMIT_FRAG DEFAULT_MAX_XMIT_FRAG 0 proposed :: (BindPdu, Error) result";
       simp add: l)
qed

text \<open>The body of the bind PDU.\<close>

definition bind_body_bytes :: "'u uuid_crate \<Rightarrow> 'u PresentationContext list \<Rightarrow> bytes" where
  "bind_body_bytes U proposed =
     BindPdu_encode \<lparr>bind_max_xmit_frag = DEFAULT_MAX_XMIT_FRAG, bind_max_recv_frag = DEFAULT_MAX_XMIT_FRAG,
       bind_assoc_group_id = 0, bind_presentation_context_list = context_list_bytes U proposed\<rparr>"

definition few_syntaxes :: "'u PresentationContext list \<Rightarrow> bool" where
  "few_syntaxes proposed \<longleftrightarrow> list_all (\<lambda>c. length (ctx_transfer_syntaxes c) \<le> 255) proposed"

lemma bind_bytes_eq:
  assumes "few_syntaxes proposed"
  shows "bind_bytes N U proposed ap =
     and_then (bind_packet N 1 (bind_body_bytes U proposed) ap) (PduPacket_encode N)"
  using assms
  by (simp add: bind_bytes_def BindPdu_with_contexts_def PresentationContextList_encode_cases
      PresentationContextList_new_def few_syntaxes_def bind_body_bytes_def)

lemma bind_bytes_plain:
  assumes "few_syntaxes proposed" "length (bind_body_bytes U proposed) \<le> 65519"
  shows "bind_bytes N U proposed None =
     Ok (body_wire N PduType_Bind 1 (PFC_FIRST_FRAG OR PFC_LAST_FRAG) (bind_body_bytes U proposed))"
  using assms by (simp add: bind_bytes_eq bind_packet_def new_packet_encode)

section \<open>Authenticated PDUs\<close>

definition level_allowed :: "'p boxed_provider \<Rightarrow> bool" where
  "level_allowed provider \<longleftrightarrow>
     auth_level (fst provider) (snd provider) \<in> {AuthLevel_None, AuthLevel_Connect}"

definition auth_pdu :: "ndr_crate \<Rightarrow> PduType \<Rightarrow> u32 \<Rightarrow> bytes \<Rightarrow> 'p boxed_provider \<Rightarrow> bytes \<Rightarrow> PduPacket" where
  "auth_pdu N ty cid b provider token =
     PduPacket_with_security_trailer (PduHeader_new N ty (PFC_FIRST_FRAG OR PFC_LAST_FRAG) cid) b
       (provider_security_trailer provider (auth_padding_len (length b))) token"

lemma authenticated_packet_cases:
  "authenticated_packet N ty cid (auth_pfc_flags provider) b provider token =
     (if level_allowed provider then Ok (auth_pdu N ty cid b provider token)
      else Err (Auth ''RPC auth levels above Connect are not supported in v1''))"
  by (cases "auth_level (fst provider) (snd provider)")
    (simp_all add: authenticated_packet_def level_allowed_def auth_pdu_def auth_pfc_flags_def Let_def)

lemma auth_padding_len_nat: "unat (auth_padding_len n) = (4 - n mod 4) mod 4"
proof -
  have "(4 - n mod 4) mod 4 < (4 :: nat)" by (rule mod_less_divisor) simp
  then show ?thesis
    unfolding auth_padding_len_def by (intro unat_of_nat_u8) linarith
qed

lemma auth_padding_aligns: "unat (auth_padding_len n) < 4 \<and> (n + unat (auth_padding_len n)) mod 4 = 0"
proof -
  have "n mod 4 < 4" by simp
  then consider "n mod 4 = 0" | "n mod 4 = 1" | "n mod 4 = 2" | "n mod 4 = 3" by linarith
  moreover have "(n + k) mod 4 = (n mod 4 + k) mod 4" for k by (simp only: mod_add_left_eq)
  ultimately show ?thesis
    unfolding auth_padding_len_nat by cases (simp_all add: mod_Suc)
qed

lemma auth_pdu_simps [simp]:
  "body (auth_pdu N ty cid b provider token) = b"
  "auth_value (auth_pdu N ty cid b provider token) = token"
  "security_trailer (auth_pdu N ty cid b provider token) =
     Some (provider_security_trailer provider (auth_padding_len (length b)))"
  "ptype (header (auth_pdu N ty cid b provider token)) = ty"
  "call_id (header (auth_pdu N ty cid b provider token)) = cid"
  "auth_pad_length (provider_security_trailer provider k) = k"
  by (simp_all add: auth_pdu_def PduPacket_with_security_trailer_def PduHeader_new_def
      provider_security_trailer_def split: prod.splits)

lemma auth_pdu_valid:
  "PduPacket_valid N (auth_pdu N ty cid b provider token) \<longleftrightarrow> ndr_ok N \<and> token \<noteq> []"
  by (simp add: PduPacket_valid_def) (simp add: auth_pdu_def PduPacket_with_security_trailer_def)

lemma auth_pdu_size:
  "PduPacket_size (auth_pdu N ty cid b provider token) =
     24 + length b + unat (auth_padding_len (length b)) + length token"
  by (simp add: PduPacket_size_def PduPacket_trailer_def)

lemma auth_pdu_encode:
  assumes "length b + length token \<le> 65508"
  obtains bs where "PduPacket_encode N (auth_pdu N ty cid b provider token) = Ok bs"
proof -
  have "PduPacket_size (auth_pdu N ty cid b provider token) \<le> 65535"
    using assms auth_padding_aligns [of "length b"] unfolding auth_pdu_size by linarith
  then show thesis
    using that by (simp add: PduPacket_encode_Ok_iff)
qed

section \<open>The reply\<close>

lemma bind_reply_ack:
  assumes "PduPacket_decode N reply = Ok p" "call_id (header p) = 1" "ptype (header p) = PduType_BindAck"
    and "BindAckPdu_decode U (body p) = Ok ack"
    and "accepted_context_spec proposed (ack_results ack) = Ok acc"
  shows "bind_reply N U T proposed ap reply t =
     and_then_st (complete_auth N T 1 p ap t) (\<lambda>provider t.
       (Ok \<lparr>cl_transport = t, cl_context_id = acc_context_id acc, cl_call_id = 2,
            cl_max_xmit_frag = ack_max_xmit_frag ack, cl_auth_provider = provider\<rparr>, t))"
  using assms
  by (simp add: bind_reply_def bind_response_def accepted_context_eq)

lemma bind_reply_Ok:
  assumes "bind_reply N U T proposed ap reply t = (Ok c, t')"
  obtains p ack acc provider where "PduPacket_decode N reply = Ok p" "call_id (header p) = 1"
    "ptype (header p) = PduType_BindAck" "BindAckPdu_decode U (body p) = Ok ack"
    "accepted_context_spec proposed (ack_results ack) = Ok acc"
    "complete_auth N T 1 p ap t = (Ok provider, t')"
    "c = \<lparr>cl_transport = t', cl_context_id = acc_context_id acc, cl_call_id = 2,
            cl_max_xmit_frag = ack_max_xmit_frag ack, cl_auth_provider = provider\<rparr>"
  using assms that
  by (auto simp: bind_reply_def bind_response_def and_then_st_eq_Ok and_then_eq_Ok accepted_context_eq
      split: if_splits)

lemma bind_inner_Ok:
  assumes "bind_with_contexts_inner N U T t proposed auth = (Ok c, t')"
  obtains ap bs t1 reply t2 where "proposed \<noteq> []" "init_auth auth = Ok ap" "bind_bytes N U proposed ap = Ok bs"
    "send_pdu T t bs = (Ok (), t1)" "recv_pdu T t1 = (Ok reply, t2)"
    "bind_reply N U T proposed ap reply t2 = (Ok c, t')"
proof -
  from assms have ne: "proposed \<noteq> []"
    by (auto simp: bind_with_contexts_inner_def)
  with assms obtain ap where ap: "init_auth auth = Ok ap"
    by (auto simp: bind_with_contexts_inner_def and_then_st_eq_Ok)
  from that [OF ne ap] assms show thesis
    unfolding bind_inner_eq [OF ne ap] by (auto simp: and_then_st_eq_Ok)
qed

lemma accepted_context_spec_member:
  assumes "accepted_context_spec proposed results = Ok acc"
  shows "acc_context_id acc \<in> ctx_context_id ` set proposed"
proof -
  from assms obtain c r where "(c, r) \<in> set (zip proposed results)" "acc_context_id acc = ctx_context_id c"
    by (auto simp: accepted_context_spec_def find_Some_iff in_set_conv_nth split: option.splits if_splits)
      (metis length_zip min_less_iff_conj nth_zip)
  then show ?thesis by (auto dest: set_zip_leftD)
qed

lemma bind_bytes_few: "bind_bytes N U proposed ap = Ok bs \<Longrightarrow> few_syntaxes proposed"
  by (auto simp: bind_bytes_def BindPdu_with_contexts_def PresentationContextList_encode_cases
      PresentationContextList_new_def few_syntaxes_def and_then_eq_Ok split: if_splits)

lemma bind_bytes_plain_iff:
  "bind_bytes N U proposed None = Ok bs \<longleftrightarrow>
     few_syntaxes proposed \<and> length (bind_body_bytes U proposed) \<le> 65519 \<and>
     bs = body_wire N PduType_Bind 1 (PFC_FIRST_FRAG OR PFC_LAST_FRAG) (bind_body_bytes U proposed)"
  (is "?l \<longleftrightarrow> ?r")
proof
  assume l: ?l
  then have f: "few_syntaxes proposed" by (rule bind_bytes_few)
  with l have "PduPacket_encode N (PduPacket_new (PduHeader_new N PduType_Bind
      (PFC_FIRST_FRAG OR PFC_LAST_FRAG) 1) (bind_body_bytes U proposed) []) = Ok bs"
    by (simp add: bind_bytes_eq bind_packet_def)
  then have "length (bind_body_bytes U proposed) \<le> 65519"
    by (simp add: PduPacket_encode_Ok_iff PduPacket_new_def PduPacket_size_def PduPacket_trailer_def)
  with f l show ?r
    by (simp add: bind_bytes_plain)
qed (simp add: bind_bytes_plain)

lemma bind_inner_run:
  assumes "proposed \<noteq> []" "init_auth auth = Ok ap" "bind_bytes N U proposed ap = Ok bs"
    and "send_pdu T t bs = (Ok (), t1)" "recv_pdu T t1 = (Ok reply, t2)"
  shows "bind_with_contexts_inner N U T t proposed auth = bind_reply N U T proposed ap reply t2"
  using assms by (simp add: bind_inner_eq)

lemma complete_auth_None [simp]: "complete_auth N T cid p None t = (Ok None, t)"
  by (simp add: complete_auth_def)

section \<open>Providers with an invariant\<close>

text \<open>
  A property of a provider's state that its two operations keep, however they end; the client
  changes the state of a provider only through them.
\<close>

locale provider_invariant =
  fixes A :: "'p RpcAuthProvider" and I :: "'p \<Rightarrow> bool"
  assumes init_keeps: "I p \<Longrightarrow> I (snd (init_context A p target))"
    and step_keeps: "I p \<Longrightarrow> I (snd (provider_step A p challenge))"
begin

lemma complete_auth_keeps:
  assumes "complete_auth N T cid q (Some ((A, p), token)) t = (Ok provider, t')" "I p"
  shows "\<exists>p'. provider = Some (A, p') \<and> I p'"
  using assms step_keeps [of p "auth_value q"]
  by (auto simp: complete_auth_def and_then_st_eq_Ok Let_def split: if_splits prod.splits)

lemma init_auth_keeps:
  assumes "init_auth (Some (target, A, p)) = Ok ap" "I p"
  shows "\<exists>p' token. ap = Some ((A, p'), token) \<and> I p'"
  using assms init_keeps [of p target]
  by (auto simp: init_auth_def and_then_eq_Ok split: prod.splits)

lemma bound_keeps:
  assumes "bind_with_auth_provider N U T t proposed target (A, p) = (Ok c, t')" "I p"
  shows "\<exists>p'. cl_auth_provider c = Some (A, p') \<and> I p'"
proof -
  from assms(1) obtain ap bs t1 reply t2 where ap: "init_auth (Some (target, A, p)) = Ok ap"
    and r: "bind_reply N U T proposed ap reply t2 = (Ok c, t')"
    unfolding bind_with_auth_provider_def by (rule bind_inner_Ok)
  from init_auth_keeps [OF ap assms(2)] obtain p1 token where p1: "ap = Some ((A, p1), token)" "I p1" by blast
  from r obtain q provider where "complete_auth N T 1 q ap t2 = (Ok provider, t')"
    and "cl_auth_provider c = provider"
    by (rule bind_reply_Ok) auto
  with complete_auth_keeps [of N T 1 q p1 token t2] p1 show ?thesis by auto
qed

end

text \<open>
  What the client relies on when it checks the level of a provider once per PDU: the provider does
  not change its level on the way.
\<close>

locale stable_provider =
  fixes A :: "'p RpcAuthProvider"
  assumes init_level: "auth_level A (snd (init_context A p target)) = auth_level A p"
    and step_level: "auth_level A (snd (provider_step A p challenge)) = auth_level A p"
begin

end

sublocale stable_provider \<subseteq> same_level: provider_invariant A "\<lambda>p'. auth_level A p' = level" for level
  by unfold_locales (simp_all add: init_level step_level)

context stable_provider
begin

lemma bound_level:
  assumes "bind_with_auth_provider N U T t proposed target (A, p) = (Ok c, t')"
  shows "level_error c = None \<and> (\<exists>p'. cl_auth_provider c = Some (A, p') \<and> auth_level A p' = auth_level A p)"
proof -
  from assms obtain ap bs t1 reply t2 where ap: "init_auth (Some (target, A, p)) = Ok ap"
    and bs: "bind_bytes N U proposed ap = Ok bs" and r: "bind_reply N U T proposed ap reply t2 = (Ok c, t')"
    unfolding bind_with_auth_provider_def by (rule bind_inner_Ok)
  from same_level.init_auth_keeps [OF ap refl] obtain p1 token where p1: "ap = Some ((A, p1), token)"
    "auth_level A p1 = auth_level A p" by blast
  from r obtain q provider where "complete_auth N T 1 q ap t2 = (Ok provider, t')"
    and c: "cl_auth_provider c = provider"
    by (rule bind_reply_Ok) auto
  with same_level.complete_auth_keeps [of N T 1 q p1 token t2 provider t' "auth_level A p"] p1 obtain p2 where
    p2: "cl_auth_provider c = Some (A, p2)" "auth_level A p2 = auth_level A p" by auto
  have "level_allowed (A, p1)"
    using bs bind_bytes_few [OF bs]
    by (auto simp: bind_bytes_eq p1(1) bind_packet_def authenticated_packet_cases split: if_splits)
  with p1 p2 show ?thesis
    by (auto simp: level_error_def level_allowed_def)
qed

end

section \<open>Properties\<close>

text \<open>
  C5: when a bind succeeds.  Over any transport, an unauthenticated bind returns a client iff the
  proposal is not empty and can be encoded in one fragment, exactly the bind PDU with call
  identifier 1 was sent, and the one PDU received is a bind-ack of that call in which a proposed
  context is accepted.  The client then has the identifier of the first accepted context, the
  fragment size the server announced, and continues with call identifier 2.
\<close>

theorem bind_succeeds_iff:
  "bind_with_contexts N U T t proposed = (Ok c, t') \<longleftrightarrow>
     proposed \<noteq> [] \<and> few_syntaxes proposed \<and> length (bind_body_bytes U proposed) \<le> 65519 \<and>
     (\<exists>t1 reply p ack acc.
        send_pdu T t (body_wire N PduType_Bind 1 (PFC_FIRST_FRAG OR PFC_LAST_FRAG) (bind_body_bytes U proposed))
          = (Ok (), t1) \<and>
        recv_pdu T t1 = (Ok reply, t') \<and> PduPacket_decode N reply = Ok p \<and> call_id (header p) = 1 \<and>
        ptype (header p) = PduType_BindAck \<and> BindAckPdu_decode U (body p) = Ok ack \<and>
        accepted_context_spec proposed (ack_results ack) = Ok acc \<and>
        c = \<lparr>cl_transport = t', cl_context_id = acc_context_id acc, cl_call_id = 2,
             cl_max_xmit_frag = ack_max_xmit_frag ack, cl_auth_provider = None\<rparr>)"
  (is "?l \<longleftrightarrow> ?r")
proof
  assume ?l
  then obtain ap bs t1 reply t2 where ne: "proposed \<noteq> []" and ap: "init_auth None = Ok ap"
    and bs: "bind_bytes N U proposed ap = Ok bs" and s: "send_pdu T t bs = (Ok (), t1)"
    and r: "recv_pdu T t1 = (Ok reply, t2)" and b: "bind_reply N U T proposed ap reply t2 = (Ok c, t')"
    unfolding bind_with_contexts_def by (rule bind_inner_Ok)
  from ap have "ap = None" by (simp add: init_auth_def)
  with b have b: "bind_reply N U T proposed None reply t2 = (Ok c, t')" by simp
  from b show ?r
    by (rule bind_reply_Ok) (use ne bs s r \<open>ap = None\<close> in \<open>auto simp: bind_bytes_plain_iff\<close>)
next
  assume ?r
  then show ?l
    by (auto simp: bind_with_contexts_def bind_inner_run [OF _ _ bind_bytes_plain] init_auth_def bind_reply_ack)
qed

text \<open>
  C12: how the server's answer makes a bind fail, with or without authentication.  An answer to
  another call, a bind-nak (with the reason it carries), a bind-ack in which every result is a
  rejection (with the identifier, result and reason of the first one), and a PDU of any other type
  each give the corresponding error, and nothing more is sent or received.
\<close>

theorem bind_refused:
  assumes "proposed \<noteq> []" "init_auth auth = Ok ap" "bind_bytes N U proposed ap = Ok bs"
    and "send_pdu T t bs = (Ok (), t1)" "recv_pdu T t1 = (Ok reply, t2)"
    and "PduPacket_decode N reply = Ok p"
  shows "(call_id (header p) \<noteq> 1 \<longrightarrow>
      bind_with_contexts_inner N U T t proposed auth = (Err (InvalidPdu ''bind response call id mismatch''), t2)) \<and>
    (call_id (header p) = 1 \<and> ptype (header p) = PduType_BindNak \<and>
       body p = u16_to_le_bytes (RejectReason_as_u16 reason) @ rest \<longrightarrow>
      bind_with_contexts_inner N U T t proposed auth = (Err (BindRejected reason), t2)) \<and>
    (call_id (header p) = 1 \<and> ptype (header p) = PduType_BindAck \<and> BindAckPdu_decode U (body p) = Ok ack \<and>
       ack_results ack = r # rs \<and> length (ack_results ack) \<le> length proposed \<and>
       list_all (\<lambda>r. pr_result r \<in> {PresentationResultCode_UserRejection, PresentationResultCode_ProviderRejection})
         (ack_results ack) \<longrightarrow>
      bind_with_contexts_inner N U T t proposed auth =
        (Err (PresentationContextRejected (ctx_context_id (hd proposed)) (pr_result r) (pr_reason r)), t2)) \<and>
    (call_id (header p) = 1 \<and> ptype (header p) \<notin> {PduType_BindAck, PduType_BindNak} \<longrightarrow>
      bind_with_contexts_inner N U T t proposed auth =
        (Err (InvalidPdu ''expected bind ack or bind nak PDU''), t2))"
proof -
  note run = bind_inner_run [OF assms(1-5)]
  have nak: "BindNakPdu_decode (u16_to_le_bytes (RejectReason_as_u16 reason) @ rest) =
      Ok \<lparr>nak_reject_reason = reason\<rparr>"
    by (simp add: BindNakPdu_decode_def u16_to_le_bytes_def)
  have rej: "BindAckPdu_accepted_context ack proposed =
      Err (PresentationContextRejected (ctx_context_id (hd proposed)) (pr_result r) (pr_reason r))"
    if l: "length (ack_results ack) \<le> length proposed" and a: "ack_results ack = r # rs"
      and all: "list_all (\<lambda>r. pr_result r \<in> {PresentationResultCode_UserRejection,
         PresentationResultCode_ProviderRejection}) (ack_results ack)"
  proof -
    obtain c cs where "proposed = c # cs" using assms(1) by (cases proposed) auto
    moreover have "find (\<lambda>(c, r). pr_result r = PresentationResultCode_Acceptance) (zip proposed (ack_results ack)) = None"
      using all by (force simp: find_None_iff list_all_iff dest: set_zip_rightD)
    moreover have "pr_result r \<noteq> PresentationResultCode_NegotiateAck"
      using all a by auto
    ultimately show ?thesis
      using l a
      by (auto simp: accepted_context_eq accepted_context_spec_def split: if_splits)
  qed
  show ?thesis
    unfolding run using assms(6)
    by (auto simp: bind_reply_def bind_response_def nak rej)
qed

text \<open>
  C13: a bind that must fail fails before it touches the transport: with an empty proposal, with a
  provider that cannot start its context (its message becomes the error), and with a provider whose
  level is above Connect.
\<close>

theorem bind_sends_nothing:
  assumes "proposed \<noteq> []" "few_syntaxes proposed"
  shows "bind_with_contexts_inner N U T t [] auth =
      (Err (InvalidPdu ''bind requires at least one presentation context''), t) \<and>
    (init_context A p target = (Err e, p') \<longrightarrow>
      bind_with_auth_provider N U T t proposed target (A, p) = (Err (Error_from_RpcAuthError e), t)) \<and>
    (init_context A p target = (Ok token, p') \<and>
       auth_level A p' \<in> {AuthLevel_PacketIntegrity, AuthLevel_PacketPrivacy} \<longrightarrow>
      bind_with_auth_provider N U T t proposed target (A, p) =
        (Err (Auth ''RPC auth levels above Connect are not supported in v1''), t))"
proof (intro conjI impI)
  show "bind_with_contexts_inner N U T t [] auth =
      (Err (InvalidPdu ''bind requires at least one presentation context''), t)"
    by (simp add: bind_with_contexts_inner_def)
next
  assume "init_context A p target = (Err e, p')"
  with assms show "bind_with_auth_provider N U T t proposed target (A, p) = (Err (Error_from_RpcAuthError e), t)"
    by (simp add: bind_with_auth_provider_def bind_with_contexts_inner_def init_auth_def)
next
  assume i: "init_context A p target = (Ok token, p') \<and>
     auth_level A p' \<in> {AuthLevel_PacketIntegrity, AuthLevel_PacketPrivacy}"
  then have "init_auth (Some (target, A, p)) = Ok (Some ((A, p'), token))"
    by (simp add: init_auth_def)
  moreover have "bind_bytes N U proposed (Some ((A, p'), token)) =
      Err (Auth ''RPC auth levels above Connect are not supported in v1'')"
    using i assms(2)
    by (auto simp: bind_bytes_eq bind_packet_def authenticated_packet_cases level_allowed_def)
  ultimately show "bind_with_auth_provider N U T t proposed target (A, p) =
      (Err (Auth ''RPC auth levels above Connect are not supported in v1''), t)"
    using assms(1) by (simp add: bind_with_auth_provider_def bind_inner_eq)
qed

section \<open>Authenticated binds\<close>

definition auth_packet_of :: "'p boxed_provider \<Rightarrow> PduType \<Rightarrow> u32 \<Rightarrow> bytes \<Rightarrow> bytes \<Rightarrow> PduPacket \<Rightarrow> bool" where
  "auth_packet_of provider ty cid b token q \<longleftrightarrow>
     ptype (header q) = ty \<and> call_id (header q) = cid \<and> body q = b \<and> auth_value q = token \<and>
     (\<exists>tr. security_trailer q = Some tr \<and>
        tr_auth_type tr = auth_type (fst provider) (snd provider) \<and>
        tr_auth_level tr = auth_level (fst provider) (snd provider) \<and>
        tr_auth_context_id tr = auth_context_id (fst provider) (snd provider) \<and>
        (length b + unat (auth_pad_length tr)) mod 4 = 0)"

lemma auth_pdu_wire:
  assumes "ndr_ok N" "token \<noteq> []" "length b + length token \<le> 65508"
  obtains f q where "PduPacket_encode N (auth_pdu N ty cid b provider token) = Ok f"
    "PduPacket_decode N f = Ok q" "auth_packet_of provider ty cid b token q"
proof -
  let ?p = "auth_pdu N ty cid b provider token"
  obtain f where f: "PduPacket_encode N ?p = Ok f"
    using assms(3) by (rule auth_pdu_encode)
  have "PduPacket_decode N f = Ok (PduPacket_framed ?p)"
    using PduPacket_decode_encode [OF _ f] assms by (simp add: auth_pdu_valid)
  moreover have "auth_packet_of provider ty cid b token (PduPacket_framed ?p)"
    using auth_padding_aligns [of "length b"]
    by (cases provider) (simp add: auth_packet_of_def provider_security_trailer_def)
  ultimately show thesis using that f by blast
qed

text \<open>
  The provider of the bind tests (\<^verbatim>\<open>tests/client_bind.rs\<close>), which records what it was given.
\<close>

record ConnectAuthProvider =
  cap_init_target :: "string option"
  cap_stepped_challenge :: "bytes option"
  cap_fail_init :: bool
  cap_fail_step :: bool

definition ConnectAuthProvider_new :: ConnectAuthProvider where
  "ConnectAuthProvider_new =
     \<lparr>cap_init_target = None, cap_stepped_challenge = None, cap_fail_init = False, cap_fail_step = False\<rparr>"

definition connect_provider :: "ConnectAuthProvider RpcAuthProvider" where
  "connect_provider =
     \<lparr>mechanism = (\<lambda>_. AuthMechanism_Ntlm), auth_level = (\<lambda>_. AuthLevel_Connect),
      init_context = (\<lambda>p target.
        if cap_fail_init p then (Err (RpcAuthError_Provider ''init failed''), p)
        else (Ok [0xAA, 0xBB], p\<lparr>cap_init_target := Some target\<rparr>)),
      provider_step = (\<lambda>p challenge.
        if cap_fail_step p then (Err (RpcAuthError_Provider ''step failed''), p)
        else (Ok [0xCC, 0xDD, 0xEE], p\<lparr>cap_stepped_challenge := Some challenge\<rparr>)),
      auth_type = (\<lambda>_. RpcAuthProvider_auth_type AuthMechanism_Ntlm),
      auth_context_id = (\<lambda>_. 11),
      is_context_established = (\<lambda>_. RpcAuthProvider_is_context_established)\<rparr>"

interpretation connect: stable_provider connect_provider
  by unfold_locales (simp_all add: connect_provider_def)

lemma complete_auth_ok:
  assumes "auth_value q \<noteq> []" "provider_step A p (auth_value q) = (Ok answer, p')"
    and "answer \<noteq> [] \<longrightarrow> level_allowed (A, p') \<and>
      PduPacket_encode N (auth_pdu N PduType_Auth3 cid [0x20, 0x20, 0x20, 0x20] (A, p') answer) = Ok f"
  shows "complete_auth N T cid q (Some ((A, p), token)) t =
     (if answer = [] then (Ok (Some (A, p')), t)
      else and_then_st (send_pdu T t f) (\<lambda>_ t. (Ok (Some (A, p')), t)))"
  using assms by (simp add: complete_auth_def authenticated_packet_cases)

text \<open>
  C7: the three legs of an authenticated bind.  Assume a working transport; a non-empty proposal with at
  most 255 transfer syntaxes per context; a provider whose first token is not empty (an empty one loses
  the trailer on the wire), which is at level None or Connect after each of its steps, and whose tokens
  fit a fragment (bind body and first token at most 65508 bytes, answer at most 65504); and a bind-ack
  of the call that accepts a context and carries a token the provider answers.  Then the bind PDU
  carries the first token, the provider answers the token of the bind-ack, and its answer, if not
  empty, is sent as an AUTH3 PDU (if empty, nothing more is sent).  Both PDUs decode to the expected
  type, body and token, with a security trailer that names the provider's type, level and context and
  starts at a multiple of four bytes, and the client keeps the provider in its last state.
\<close>

theorem authenticated_bind_three_legs:
  assumes T: "reliable_transport T frm delivers sent" and N: "ndr_ok N"
    and proposed: "proposed \<noteq> []" "few_syntaxes proposed"
    and init: "init_context A p target = (Ok token, p1)" "token \<noteq> []" "level_allowed (A, p1)"
    and fits: "length (bind_body_bytes U proposed) + length token \<le> 65508" "length answer \<le> 65504"
    and reply: "delivers t (reply # gs)" "frm reply" "PduPacket_decode N reply = Ok q"
      "call_id (header q) = 1" "ptype (header q) = PduType_BindAck" "auth_value q \<noteq> []"
    and ack: "BindAckPdu_decode U (body q) = Ok ack" "accepted_context_spec proposed (ack_results ack) = Ok acc"
    and step: "provider_step A p1 (auth_value q) = (Ok answer, p2)" "level_allowed (A, p2)"
  shows "\<exists>c t' bind_pdu x auth3_pdu y.
     bind_with_auth_provider N U T t proposed target (A, p) = (Ok c, t') \<and>
     sent t' = sent t @ bind_pdu @ (if answer = [] then [] else auth3_pdu) \<and>
     PduPacket_decode N bind_pdu = Ok x \<and>
     auth_packet_of (A, p1) PduType_Bind 1 (bind_body_bytes U proposed) token x \<and>
     (answer = [] \<or> PduPacket_decode N auth3_pdu = Ok y \<and>
        auth_packet_of (A, p2) PduType_Auth3 1 [0x20, 0x20, 0x20, 0x20] answer y) \<and>
     cl_auth_provider c = Some (A, p2) \<and> cl_context_id c = acc_context_id acc \<and> cl_call_id c = 2 \<and>
     cl_max_xmit_frag c = ack_max_xmit_frag ack \<and> delivers t' gs"
proof -
  from N init(2) fits(1) obtain f x where f: "PduPacket_encode N
      (auth_pdu N PduType_Bind 1 (bind_body_bytes U proposed) (A, p1) token) = Ok f"
    "PduPacket_decode N f = Ok x" "auth_packet_of (A, p1) PduType_Bind 1 (bind_body_bytes U proposed) token x"
    by (rule auth_pdu_wire)
  obtain g y where g: "answer \<noteq> [] \<longrightarrow>
      PduPacket_encode N (auth_pdu N PduType_Auth3 1 [0x20, 0x20, 0x20, 0x20] (A, p2) answer) = Ok g \<and>
      PduPacket_decode N g = Ok y \<and> auth_packet_of (A, p2) PduType_Auth3 1 [0x20, 0x20, 0x20, 0x20] answer y"
  proof (cases "answer = []")
    case False
    then show thesis
      using auth_pdu_wire [OF N False, of "[0x20, 0x20, 0x20, 0x20]" PduType_Auth3 1 "(A, p2)"] fits(2) that by auto
  qed (use that in blast)
  have i: "init_auth (Some (target, A, p)) = Ok (Some ((A, p1), token))"
    using init(1) by (simp add: init_auth_def)
  have b: "bind_bytes N U proposed (Some ((A, p1), token)) = Ok f"
    using f(1) init(3) proposed(2) by (simp add: bind_bytes_eq bind_packet_def authenticated_packet_cases)
  obtain t1 where t1: "send_pdu T t f = (Ok (), t1)" "sent t1 = sent t @ f" "delivers t1 (reply # gs)"
    using reliable_transport.send_ok [OF T, of t f] reply(1) by blast
  obtain t2 where t2: "recv_pdu T t1 = (Ok reply, t2)" "delivers t2 gs" "sent t2 = sent t1"
    using reliable_transport.recv_ok [OF T t1(3) reply(2)] by blast
  obtain t3 where t3: "send_pdu T t2 g = (Ok (), t3)" "sent t3 = sent t2 @ g" "delivers t3 gs"
    using reliable_transport.send_ok [OF T, of t2 g] t2(2) by blast
  have ca: "complete_auth N T 1 q (Some ((A, p1), token)) t2 =
      (Ok (Some (A, p2)), if answer = [] then t2 else t3)"
    using complete_auth_ok [OF reply(6) step(1), of N 1 g T token t2] step(2) g t3(1) by auto
  show ?thesis
    unfolding bind_with_auth_provider_def bind_inner_run [OF proposed(1) i b t1(1) t2(1)]
      bind_reply_ack [OF reply(3-5) ack] ca
    using f(2,3) g t1 t2 t3 by auto
qed

definition sample_bind_reply :: PduPacket where
  "sample_bind_reply =
     PduPacket_with_security_trailer (PduHeader_new std_ndr PduType_BindAck 3 1) (bind_ack_body std_uuid sample_ack)
       \<lparr>tr_auth_type = RpcAuthType_WinNt, tr_auth_level = AuthLevel_Connect, auth_pad_length = 0,
        auth_reserved = 0, tr_auth_context_id = 11\<rparr> [1, 2, 3]"

lemma sample_bind_reply_encodes:
  obtains reply q where "PduPacket_encode std_ndr sample_bind_reply = Ok reply"
    "PduPacket_decode std_ndr reply = Ok q" "call_id (header q) = 1" "ptype (header q) = PduType_BindAck"
    "auth_value q = [1, 2, 3]" "BindAckPdu_decode std_uuid (body q) = Ok sample_ack"
proof -
  have len: "length (bind_ack_body std_uuid sample_ack) = 40"
    by code_simp
  have v: "PduPacket_valid std_ndr sample_bind_reply"
    using ndr_ok_std_ndr
    by (simp add: PduPacket_valid_def sample_bind_reply_def PduPacket_with_security_trailer_def)
  have size: "PduPacket_size sample_bind_reply = 67"
    by (simp add: PduPacket_size_def PduPacket_trailer_def sample_bind_reply_def
        PduPacket_with_security_trailer_def len)
  obtain reply where r: "PduPacket_encode std_ndr sample_bind_reply = Ok reply"
    using size by (auto simp: PduPacket_encode_Ok_iff sample_bind_reply_def PduPacket_with_security_trailer_def)
  have "BindAckPdu_decode std_uuid (bind_ack_body std_uuid sample_ack) = Ok sample_ack"
    by (rule BindAckPdu_decode_encode) (simp_all add: uuid_ok_std_uuid sample_ack_def)
  with that r PduPacket_decode_encode [OF v r] show thesis
    by (simp add: sample_bind_reply_def PduPacket_with_security_trailer_def PduHeader_new_def)
qed

lemma sample_proposal:
  "few_syntaxes [sample_context]" "length (bind_body_bytes std_uuid [sample_context]) = 56"
  "accepted_context_spec [sample_context] (ack_results sample_ack) =
     Ok \<lparr>acc_context_id = 5, acc_transfer_syntax = TransferSyntax_syntax_id std_uuid TransferSyntax_Ndr32\<rparr>"
  by (simp_all add: few_syntaxes_def sample_context_def PresentationContext_new_def accepted_context_spec_def sample_ack_def)
    code_simp

theorem authenticated_bind_three_legs_witness:
  "\<exists>reply c t' bind_pdu x auth3_pdu y.
     PduPacket_encode std_ndr sample_bind_reply = Ok reply \<and>
     bind_with_auth_provider std_ndr std_uuid memory_transport (MemoryTransport_new [reply]) [sample_context]
       ''cifs/dc01'' (connect_provider, ConnectAuthProvider_new) = (Ok c, t') \<and>
     concat (mt_sent t') = bind_pdu @ auth3_pdu \<and>
     PduPacket_decode std_ndr bind_pdu = Ok x \<and> auth_value x = [0xAA, 0xBB] \<and>
     PduPacket_decode std_ndr auth3_pdu = Ok y \<and> auth_value y = [0xCC, 0xDD, 0xEE] \<and>
     cl_context_id c = 5"
proof -
  obtain reply q where e: "PduPacket_encode std_ndr sample_bind_reply = Ok reply"
    and d: "PduPacket_decode std_ndr reply = Ok q" "call_id (header q) = 1"
      "ptype (header q) = PduType_BindAck" "auth_value q = [1, 2, 3]"
      "BindAckPdu_decode std_uuid (body q) = Ok sample_ack"
    by (rule sample_bind_reply_encodes)
  let ?p1 = "ConnectAuthProvider_new\<lparr>cap_init_target := Some ''cifs/dc01''\<rparr>"
  have i: "init_context connect_provider ConnectAuthProvider_new ''cifs/dc01'' = (Ok [0xAA, 0xBB], ?p1)"
    and s: "provider_step connect_provider ?p1 (auth_value q) =
      (Ok [0xCC, 0xDD, 0xEE], ?p1\<lparr>cap_stepped_challenge := Some [1, 2, 3]\<rparr>)"
    and l: "level_allowed (connect_provider, r)" for r
    by (simp_all add: connect_provider_def ConnectAuthProvider_new_def d(4) level_allowed_def)
  have m: "memory_delivers (MemoryTransport_new [reply]) (reply # [])"
    by (simp add: memory_delivers_def MemoryTransport_new_def)
  have "concat (mt_sent (MemoryTransport_new [reply])) = []"
    by (simp add: MemoryTransport_new_def)
  moreover from authenticated_bind_three_legs [OF memory.reliable_transport_axioms ndr_ok_std_ndr _ sample_proposal(1)
      i _ l _ _ m _ d(1-3) _ d(5) sample_proposal(3) s l]
  obtain c t' bind_pdu x auth3_pdu y where
    "bind_with_auth_provider std_ndr std_uuid memory_transport (MemoryTransport_new [reply]) [sample_context]
       ''cifs/dc01'' (connect_provider, ConnectAuthProvider_new) = (Ok c, t')"
    "concat (mt_sent t') = concat (mt_sent (MemoryTransport_new [reply])) @ bind_pdu @ auth3_pdu"
    "PduPacket_decode std_ndr bind_pdu = Ok x" "auth_value x = [0xAA, 0xBB]"
    "PduPacket_decode std_ndr auth3_pdu = Ok y" "auth_value y = [0xCC, 0xDD, 0xEE]" "cl_context_id c = 5"
    by (auto simp: sample_proposal(2) d(4) auth_packet_of_def)
  ultimately show ?thesis
    using e by (metis append_Nil)
qed

theorem bind_sends_nothing_witness:
  "bind_with_auth_provider std_ndr std_uuid memory_transport (MemoryTransport_new []) [sample_context] ''t''
       (connect_provider, ConnectAuthProvider_new\<lparr>cap_fail_init := True\<rparr>) =
     (Err (Auth ''init failed''), MemoryTransport_new [])"
proof -
  let ?p = "ConnectAuthProvider_new\<lparr>cap_fail_init := True\<rparr>"
  have "init_context connect_provider ?p ''t'' = (Err (RpcAuthError_Provider ''init failed''), ?p)"
    by (simp add: connect_provider_def)
  with bind_sends_nothing [of "[sample_context]" std_ndr std_uuid memory_transport "MemoryTransport_new []"]
    sample_proposal(1)
  show ?thesis by fastforce
qed

theorem bind_refused_witness:
  "bind_with_contexts_inner std_ndr std_uuid memory_transport
     (MemoryTransport_new [body_wire std_ndr PduType_BindNak 1 3 [4, 0, 0]]) [sample_context]
     (None :: (string \<times> unit boxed_provider) option) =
   (Err (BindRejected RejectReason_ProtocolVersionNotSpecified),
    \<lparr>mt_incoming = [], mt_sent = [body_wire std_ndr PduType_Bind 1 (PFC_FIRST_FRAG OR PFC_LAST_FRAG)
       (bind_body_bytes std_uuid [sample_context])]\<rparr>)"
proof -
  let ?reply = "body_wire std_ndr PduType_BindNak 1 3 [4, 0, 0]"
  let ?t = "MemoryTransport_new [?reply]"
  let ?bind = "body_wire std_ndr PduType_Bind 1 (PFC_FIRST_FRAG OR PFC_LAST_FRAG)
       (bind_body_bytes std_uuid [sample_context])"
  have b: "bind_bytes std_ndr std_uuid [sample_context] (None :: (unit boxed_provider \<times> bytes) option) = Ok ?bind"
    using sample_proposal by (simp add: bind_bytes_plain)
  have i: "init_auth (None :: (string \<times> unit boxed_provider) option) = Ok None"
    by (simp add: init_auth_def)
  have s: "send_pdu memory_transport ?t ?bind = (Ok (), \<lparr>mt_incoming = [?reply], mt_sent = [?bind]\<rparr>)"
    and r: "recv_pdu memory_transport \<lparr>mt_incoming = [?reply], mt_sent = [?bind]\<rparr> =
      (Ok ?reply, \<lparr>mt_incoming = [], mt_sent = [?bind]\<rparr>)"
    by (simp_all add: MemoryTransport_new_def)
  have d: "PduPacket_decode std_ndr ?reply = Ok (body_packet std_ndr PduType_BindNak 1 3 [4, 0, 0])"
    by (rule body_wire_decode [OF ndr_ok_std_ndr]) simp
  from bind_refused [OF _ i b s r d, of RejectReason_ProtocolVersionNotSpecified "[0]"] show ?thesis
    by (simp add: u16_to_le_bytes_def)
qed

end
