(* ===== verification/Lifecycle.thy ===== *)
theory Lifecycle
  imports Calls Binding
begin

text \<open>
  The life of a client: the ways to obtain one, the operations on it as a step relation, the
  invariants of every client that can be reached, and binding followed by a call.
\<close>

section \<open>Steps of a client\<close>

text \<open>
  Where a client comes from, and what can happen to it: a raw call, a typed call (whatever their
  outcome), a new fragment size, and any change of the transport through \<open>transport_mut\<close>.  A typed
  call is given by the result of serialising its request and by what reading a response yields; the
  value read does not matter to the client.
\<close>

inductive client_start ::
    "ndr_crate \<Rightarrow> 'u uuid_crate \<Rightarrow> 't RpcTransport \<Rightarrow> ('t, 'p) RpcClient \<Rightarrow> bool" for N U T where
  bound: "bind_with_contexts_inner N U T t proposed auth = (Ok c, t') \<Longrightarrow> client_start N U T c"
| assumed: "client_start N U T (new_bound t ctx)"
| assumed_auth: "client_start N U T (new_bound_with_auth t ctx provider)"

inductive client_step ::
    "ndr_crate \<Rightarrow> 'u uuid_crate \<Rightarrow> 't RpcTransport \<Rightarrow> ('t, 'p) RpcClient \<Rightarrow> ('t, 'p) RpcClient \<Rightarrow> bool"
    for N U T where
  raw: "call_raw N U T c opnum stub = Some (r, c') \<Longrightarrow> client_step N U T c c'"
| typed: "RpcClient_call N U T (\<lambda>_. ser) deser c opnum () = Some (r :: (unit, Error) result, c') \<Longrightarrow>
     client_step N U T c c'"
| resize: "client_step N U T c (with_max_xmit_frag c m)"
| transport: "client_step N U T c (c\<lparr>cl_transport := t\<rparr>)"

inductive_cases client_stepE: "client_step N U T c c'"

abbreviation client_steps where
  "client_steps N U T \<equiv> (client_step N U T)\<^sup>*\<^sup>*"

definition client_reachable where
  "client_reachable N U T c \<longleftrightarrow> (\<exists>c0. client_start N U T c0 \<and> client_steps N U T c0 c)"

section \<open>What steps keep\<close>

lemma typed_call_frame:
  assumes "RpcClient_call N U T ser deser c opnum x = Some (r, c')"
  shows "c' = c \<or> (\<exists>t'. c' = c\<lparr>cl_call_id := max (cl_call_id c + 1) 1, cl_transport := t'\<rparr>)"
proof (cases "ser x")
  case (Inl e)
  with assms show ?thesis by (simp add: RpcClient_call_def)
next
  case (Inr stub)
  with assms obtain q c1 where "call_raw N U T c opnum stub = Some (q, c1)" "c' = c1"
    by (cases "call_raw N U T c opnum stub")
      (auto simp: RpcClient_call_def and_then_run_def split: result.splits)
  with call_raw_frame [of N U T c opnum stub q c1] show ?thesis by blast
qed

definition keeps_binding :: "('t, 'p) RpcClient \<Rightarrow> ('t, 'p) RpcClient \<Rightarrow> bool" where
  "keeps_binding c c' \<longleftrightarrow> cl_context_id c' = cl_context_id c \<and> cl_auth_provider c' = cl_auth_provider c \<and>
     (cl_call_id c \<noteq> 0 \<longrightarrow> cl_call_id c' \<noteq> 0)"

lemma next_id_nonzero [simp]: "max (w + 1) 1 \<noteq> (0 :: u32)"
  using unat_next_call_id [of w] by (metis add_is_0 one_neq_zero unat_0)

lemma client_step_keeps: "client_step N U T c c' \<Longrightarrow> keeps_binding c c'"
proof (induction rule: client_step.induct)
  case (raw c opnum stub r c')
  then show ?case using call_raw_frame by (fastforce simp: keeps_binding_def)
next
  case (typed ser deser c opnum r c')
  then show ?case using typed_call_frame by (fastforce simp: keeps_binding_def)
qed (simp_all add: keeps_binding_def with_max_xmit_frag_def)

lemma client_steps_keep: "client_steps N U T c c' \<Longrightarrow> keeps_binding c c'"
  by (induction rule: rtranclp_induct) (auto simp: keeps_binding_def dest: client_step_keeps)

lemma client_start_id: "client_start N U T c \<Longrightarrow> cl_call_id c \<noteq> 0"
  by (induction rule: client_start.induct)
    (auto simp: new_bound_def new_bound_with_auth_def elim!: bind_inner_Ok bind_reply_Ok)

lemma bound_client_facts:
  assumes "bind_with_contexts_inner N U T t proposed auth = (Ok c, t')"
  shows "cl_transport c = t' \<and> cl_call_id c = 2 \<and> cl_context_id c \<in> ctx_context_id ` set proposed"
  using assms accepted_context_spec_member by (elim bind_inner_Ok bind_reply_Ok) fastforce

section \<open>Properties\<close>

text \<open>
  C8: invariants of every client.  Whatever calls are made on a client and however they end, its
  call identifier is never zero; and a client that a bind returned keeps the context it was bound
  to, one of the proposed contexts, and its provider.
\<close>

theorem client_invariant:
  "(client_reachable N U T c \<longrightarrow> cl_call_id c \<noteq> 0) \<and>
   (bind_with_contexts_inner N U T t proposed auth = (Ok c0, t0) \<and> client_steps N U T c0 c \<longrightarrow>
      cl_context_id c = cl_context_id c0 \<and> cl_context_id c \<in> ctx_context_id ` set proposed \<and>
      cl_auth_provider c = cl_auth_provider c0)"
  using client_steps_keep [of N U T _ c] client_start_id [of N U T] bound_client_facts [of N U T t proposed auth c0 t0]
  by (fastforce simp: client_reachable_def keeps_binding_def)

text \<open>
  C14: a client obtained with a provider of fixed level is never refused for that level: the bind
  fails already if the level is not supported, so every later request is sent and every response
  considered without an authentication error of the client.
\<close>

theorem bound_level_supported:
  assumes "stable_provider A" "bind_with_auth_provider N U T t proposed target (A, p) = (Ok c0, t0)"
    and "client_steps N U T c0 c"
  shows "auth_level A p \<in> {AuthLevel_None, AuthLevel_Connect} \<and>
     request_packet N U c cid flags r = PduPacket_from_request_with_flags N U cid flags r \<and>
     verify_response_packet c bs packet = Ok ()"
proof -
  from stable_provider.bound_level [OF assms(1,2)] obtain p' where
    l: "level_error c0 = None" "cl_auth_provider c0 = Some (A, p')" "auth_level A p' = auth_level A p"
    by blast
  moreover have "cl_auth_provider c = cl_auth_provider c0"
    using client_steps_keep [OF assms(3)] by (simp add: keeps_binding_def)
  ultimately have "level_error c = None" by (simp add: level_error_def)
  moreover have "auth_level A p \<in> {AuthLevel_None, AuthLevel_Connect}"
    using l by (cases "auth_level A p") (simp_all add: level_error_def)
  ultimately show ?thesis
    by (simp add: request_packet_cases verify_response_packet_cases)
qed

section \<open>Concrete clients\<close>

lemma sample_bound:
  assumes "init_auth auth = Ok ap" "bind_bytes std_ndr std_uuid [sample_context] ap = Ok bs"
  shows "\<exists>c t'. bind_with_contexts_inner std_ndr std_uuid memory_transport
     (MemoryTransport_new [body_wire std_ndr PduType_BindAck 1 3 (bind_ack_body std_uuid sample_ack)])
     [sample_context] auth = (Ok c, t')"
proof -
  let ?reply = "body_wire std_ndr PduType_BindAck 1 3 (bind_ack_body std_uuid sample_ack)"
  have len: "length (bind_ack_body std_uuid sample_ack) = 40"
    by code_simp
  have d: "PduPacket_decode std_ndr ?reply =
      Ok (body_packet std_ndr PduType_BindAck 1 3 (bind_ack_body std_uuid sample_ack))"
    by (rule body_wire_decode [OF ndr_ok_std_ndr]) (simp add: len)
  have a: "BindAckPdu_decode std_uuid (bind_ack_body std_uuid sample_ack) = Ok sample_ack"
    by (rule BindAckPdu_decode_encode) (simp_all add: uuid_ok_std_uuid sample_ack_def)
  have s: "send_pdu memory_transport (MemoryTransport_new [?reply]) bs =
      (Ok (), \<lparr>mt_incoming = [?reply], mt_sent = [bs]\<rparr>)"
    and r: "recv_pdu memory_transport \<lparr>mt_incoming = [?reply], mt_sent = [bs]\<rparr> =
      (Ok ?reply, \<lparr>mt_incoming = [], mt_sent = [bs]\<rparr>)"
    by (simp_all add: MemoryTransport_new_def)
  have c: "\<exists>provider. complete_auth std_ndr memory_transport 1
      (body_packet std_ndr PduType_BindAck 1 3 (bind_ack_body std_uuid sample_ack)) ap t = (Ok provider, t)" for t
    by (cases ap) (auto simp: complete_auth_def)
  have "bind_reply std_ndr std_uuid memory_transport [sample_context] ap ?reply t =
      and_then_st (complete_auth std_ndr memory_transport 1
        (body_packet std_ndr PduType_BindAck 1 3 (bind_ack_body std_uuid sample_ack)) ap t) (\<lambda>provider t.
       (Ok \<lparr>cl_transport = t, cl_context_id = 5, cl_call_id = 2,
            cl_max_xmit_frag = ack_max_xmit_frag sample_ack, cl_auth_provider = provider\<rparr>, t))" for t
    using bind_reply_ack [OF d _ _ _ sample_proposal(3)] a by simp
  then have "\<exists>c t'. bind_reply std_ndr std_uuid memory_transport [sample_context] ap ?reply t = (Ok c, t')" for t
    using c [of t] by auto
  then show ?thesis
    using bind_inner_run [OF _ assms s r] by auto
qed

theorem client_invariant_witness:
  "\<exists>c0 t0 c. bind_with_contexts_inner std_ndr std_uuid memory_transport
     (MemoryTransport_new [body_wire std_ndr PduType_BindAck 1 3 (bind_ack_body std_uuid sample_ack)])
     [sample_context] (None :: (string \<times> unit boxed_provider) option) = (Ok c0, t0) \<and>
     client_steps std_ndr std_uuid memory_transport c0 c \<and> cl_max_xmit_frag c = 100 \<and>
     cl_call_id c \<noteq> 0 \<and> cl_context_id c = 5"
proof -
  let ?t = "MemoryTransport_new [body_wire std_ndr PduType_BindAck 1 3 (bind_ack_body std_uuid sample_ack)]"
  have "bind_bytes std_ndr std_uuid [sample_context] (None :: (unit boxed_provider \<times> bytes) option) =
      Ok (body_wire std_ndr PduType_Bind 1 (PFC_FIRST_FRAG OR PFC_LAST_FRAG) (bind_body_bytes std_uuid [sample_context]))"
    using sample_proposal by (simp add: bind_bytes_plain)
  then obtain c0 t0 where b: "bind_with_contexts_inner std_ndr std_uuid memory_transport ?t [sample_context]
      (None :: (string \<times> unit boxed_provider) option) = (Ok c0, t0)"
    using sample_bound [of "None :: (string \<times> unit boxed_provider) option" None] by (auto simp: init_auth_def)
  let ?c = "with_max_xmit_frag c0 100"
  have st: "client_steps std_ndr std_uuid memory_transport c0 ?c"
    by (intro r_into_rtranclp client_step.resize)
  have "client_reachable std_ndr std_uuid memory_transport ?c"
    unfolding client_reachable_def using client_start.bound [OF b] st by blast
  with client_invariant [of std_ndr std_uuid memory_transport ?c ?t "[sample_context]" None c0 t0] b st
  have "cl_call_id ?c \<noteq> 0" "cl_context_id ?c \<in> ctx_context_id ` set [sample_context]"
    by auto
  with b st show ?thesis
    by (intro exI [of _ c0] exI [of _ t0] exI [of _ ?c])
      (simp add: with_max_xmit_frag_def sample_context_def PresentationContext_new_def)
qed

theorem bound_level_supported_witness:
  "\<exists>c0 t0. bind_with_auth_provider std_ndr std_uuid memory_transport
     (MemoryTransport_new [body_wire std_ndr PduType_BindAck 1 3 (bind_ack_body std_uuid sample_ack)])
     [sample_context] ''t'' (connect_provider, ConnectAuthProvider_new) = (Ok c0, t0) \<and>
     verify_response_packet c0 [] (sample_packet) = Ok ()"
proof -
  let ?t = "MemoryTransport_new [body_wire std_ndr PduType_BindAck 1 3 (bind_ack_body std_uuid sample_ack)]"
  let ?p1 = "ConnectAuthProvider_new\<lparr>cap_init_target := Some ''t''\<rparr>"
  have i: "init_auth (Some (''t'', connect_provider, ConnectAuthProvider_new)) =
      Ok (Some ((connect_provider, ?p1), [0xAA, 0xBB]))"
    by (simp add: init_auth_def connect_provider_def ConnectAuthProvider_new_def)
  have "length (bind_body_bytes std_uuid [sample_context]) + length [0xAA, 0xBB :: u8] \<le> 65508"
    by (simp add: sample_proposal(2))
  then obtain bs where "PduPacket_encode std_ndr (auth_pdu std_ndr PduType_Bind 1
      (bind_body_bytes std_uuid [sample_context]) (connect_provider, ?p1) [0xAA, 0xBB]) = Ok bs"
    by (rule auth_pdu_encode)
  then have "bind_bytes std_ndr std_uuid [sample_context] (Some ((connect_provider, ?p1), [0xAA, 0xBB])) = Ok bs"
    by (simp add: bind_bytes_eq sample_proposal(1) bind_packet_def authenticated_packet_cases level_allowed_def)
      (simp add: connect_provider_def)
  from sample_bound [OF i this] obtain c0 t0 where
    b: "bind_with_auth_provider std_ndr std_uuid memory_transport ?t [sample_context] ''t''
      (connect_provider, ConnectAuthProvider_new) = (Ok c0, t0)"
    by (auto simp: bind_with_auth_provider_def)
  from bound_level_supported [OF connect.stable_provider_axioms b rtranclp.rtrancl_refl] b show ?thesis
    by blast
qed

section \<open>Binding and calling\<close>

text \<open>
  C6: bind and call together.  Let the proposal be non-empty, with at most 255 transfer syntaxes per
  context and a bind body of at most 65519 bytes, so that it can be sent, and let a working transport
  deliver a bind-ack that accepts a proposed context and announces a fragment size above 24 bytes, the
  size of the two headers of a request, and then a complete response to call 2.  The bind returns a client, its first call returns
  the data of the response, and what was sent is the bind PDU followed by the fragments of the
  request, for the accepted context and within the fragment size the server announced.
\<close>

theorem bind_then_call:
  assumes T: "reliable_transport T frm delivers sent"
    and proposed: "proposed \<noteq> []" "few_syntaxes proposed" "length (bind_body_bytes U proposed) \<le> 65519"
    and reply: "delivers t (reply # fs @ gs)" "frm reply" "PduPacket_decode N reply = Ok q"
      "call_id (header q) = 1" "ptype (header q) = PduType_BindAck"
    and ack: "BindAckPdu_decode U (body q) = Ok ack" "accepted_context_spec proposed (ack_results ack) = Ok acc"
      "24 < unat (ack_max_xmit_frag ack)"
    and response: "list_all frm fs" "complete_response N 2 fs stub"
  shows "\<exists>c t1 t2. bind_with_contexts N U T t proposed = (Ok (c :: ('t, 'p) RpcClient), t1) \<and>
     call_raw N U T c opnum request_stub = Some (Ok stub, c\<lparr>cl_call_id := 3, cl_transport := t2\<rparr>) \<and>
     delivers t2 gs \<and>
     sent t2 = sent t
       @ body_wire N PduType_Bind 1 (PFC_FIRST_FRAG OR PFC_LAST_FRAG) (bind_body_bytes U proposed)
       @ concat (request_frames N U (unat (ack_max_xmit_frag ack)) (acc_context_id acc) 2 opnum request_stub)"
proof -
  let ?bind = "body_wire N PduType_Bind 1 (PFC_FIRST_FRAG OR PFC_LAST_FRAG) (bind_body_bytes U proposed)"
  have b: "bind_bytes N U proposed (None :: ('p boxed_provider \<times> bytes) option) = Ok ?bind"
    using proposed by (simp add: bind_bytes_plain)
  have i: "init_auth (None :: (string \<times> 'p boxed_provider) option) = Ok None"
    by (simp add: init_auth_def)
  obtain t1 where t1: "send_pdu T t ?bind = (Ok (), t1)" "sent t1 = sent t @ ?bind" "delivers t1 (reply # fs @ gs)"
    using reliable_transport.send_ok [OF T, of t ?bind] reply(1) by blast
  obtain t2 where t2: "recv_pdu T t1 = (Ok reply, t2)" "delivers t2 (fs @ gs)" "sent t2 = sent t1"
    using reliable_transport.recv_ok [OF T t1(3) reply(2)] by blast
  let ?c = "\<lparr>cl_transport = t2, cl_context_id = acc_context_id acc, cl_call_id = 2,
            cl_max_xmit_frag = ack_max_xmit_frag ack, cl_auth_provider = None\<rparr> :: ('t, 'p) RpcClient"
  have "bind_with_contexts N U T t proposed = (Ok ?c, t2)"
    unfolding bind_with_contexts_def bind_inner_run [OF proposed(1) i b t1(1) t2(1)]
      bind_reply_ack [OF reply(3-5) ack(1,2)] by simp
  moreover have "level_error ?c = None" by (simp add: level_error_def)
  note reliable_transport.call_raw_ok [OF T this, of fs gs N stub U opnum request_stub]
  ultimately show ?thesis
    using t1 t2 ack(3) response by (intro exI [of _ ?c]) auto
qed

text \<open>
  The program \<^verbatim>\<open>examples/in_memory_bind_call.rs\<close>.
\<close>

definition example_interface :: "'u uuid_crate \<Rightarrow> 'u InterfaceId" where
  "example_interface U = InterfaceId_new (uuid_from_u128 U 0x11111111222233334444555555555555) 1 0"

definition example_ack :: "'u uuid_crate \<Rightarrow> 'u BindAckPdu" where
  "example_ack U = \<lparr>ack_max_xmit_frag = 4280, ack_max_recv_frag = 4280, ack_assoc_group_id = 1,
     ack_secondary_addr = [], ack_results =
       [\<lparr>pr_result = PresentationResultCode_Acceptance,
         pr_reason = PresentationRejectReason_ReasonNotSpecified,
         pr_transfer_syntax = TransferSyntax_syntax_id U TransferSyntax_Ndr32\<rparr>]\<rparr>"

definition bind_ack_packet :: "ndr_crate \<Rightarrow> 'u uuid_crate \<Rightarrow> u32 \<Rightarrow> (bytes, Error) result" where
  "bind_ack_packet N U cid =
     expect (PduPacket_encode N
       (PduPacket_new (PduHeader_new N PduType_BindAck 3 cid) (bind_ack_body U (example_ack U)) []))"

definition example_client ::
    "ndr_crate \<Rightarrow> 'u uuid_crate \<Rightarrow> ((MemoryTransport, unit) RpcClient, Error) result" where
  "example_client N U =
     and_then (bind_ack_packet N U 1) (\<lambda>bind_ack.
     and_then (PduPacket_from_response N 2
       \<lparr>resp_alloc_hint = 3, resp_ctx_id = 0, resp_cancel_count = 0, resp_stub_data = [0xAA, 0xBB, 0xCC]\<rparr>)
       (\<lambda>packet.
     and_then (PduPacket_encode N packet) (\<lambda>response.
       fst (RpcClient_bind N U memory_transport (MemoryTransport_new [bind_ack, response]) (example_interface U)))))"

text \<open>\<open>main\<close>: a failed \<open>assert_eq!\<close> is a panic.\<close>

definition example_main :: "ndr_crate \<Rightarrow> 'u uuid_crate \<Rightarrow> (unit, Error) result option" where
  "example_main N U =
     (case example_client N U of
        Ok client \<Rightarrow>
          map_option (\<lambda>(r, client). and_then r (\<lambda>response_stub.
              if response_stub = [0xAA, 0xBB, 0xCC] \<and> length (mt_sent (cl_transport client)) = 2
              then Ok () else Panic))
            (call_raw N U memory_transport client 0 [0x01, 0x02, 0x03])
      | Err e \<Rightarrow> Some (Err e)
      | Panic \<Rightarrow> Some Panic)"

lemma example_ack_frag [simp]: "ack_max_xmit_frag (example_ack U) = 4280"
  by (simp add: example_ack_def)

lemma example_ack_wire:
  assumes "uuid_ok U"
  shows "length (bind_ack_body U (example_ack U)) = 40"
    "BindAckPdu_decode U (bind_ack_body U (example_ack U)) = Ok (example_ack U)"
proof -
  have "align4 10 = 12" by (simp add: align4.simps)
  then show "length (bind_ack_body U (example_ack U)) = 40"
    using assms by (simp add: bind_ack_body_def example_ack_def Let_def result_bytes_def length_SyntaxId_encode)
  show "BindAckPdu_decode U (bind_ack_body U (example_ack U)) = Ok (example_ack U)"
    by (rule BindAckPdu_decode_encode [OF assms]) (simp_all add: example_ack_def)
qed

lemma example_proposal:
  fixes U :: "'u uuid_crate"
  assumes "uuid_ok U"
  defines "proposed \<equiv> [PresentationContext_new U 0 (InterfaceId_syntax_id (example_interface U)) [TransferSyntax_Ndr32]]"
  shows "few_syntaxes proposed" "length (bind_body_bytes U proposed) \<le> 65519"
    "accepted_context_spec proposed (ack_results (example_ack U)) =
      Ok \<lparr>acc_context_id = 0, acc_transfer_syntax = TransferSyntax_syntax_id U TransferSyntax_Ndr32\<rparr>"
  using assms(1)
  by (simp_all add: proposed_def few_syntaxes_def PresentationContext_new_def accepted_context_spec_def
      example_ack_def bind_body_bytes_def context_list_bytes_def context_bytes_def length_SyntaxId_encode)

text \<open>
  C15: the example program runs to its end.  For every implementation of the two external crates that
  behaves as documented, \<open>main\<close> binds, calls, and both of its assertions hold.
\<close>

theorem example_main_ok:
  assumes N: "ndr_ok N" and U: "uuid_ok U"
  shows "example_main N U = Some (Ok ())"
proof -
  let ?pr = "[PresentationContext_new U 0 (InterfaceId_syntax_id (example_interface U)) [TransferSyntax_Ndr32]]"
  let ?ack = "body_wire N PduType_BindAck 1 3 (bind_ack_body U (example_ack U))"
  let ?resp = "response_wire N 2 3 [0xAA, 0xBB, 0xCC]"
  let ?bind = "body_wire N PduType_Bind 1 (PFC_FIRST_FRAG OR PFC_LAST_FRAG) (bind_body_bytes U ?pr)"
  let ?t = "\<lparr>mt_incoming = [?resp], mt_sent = [?bind]\<rparr>"
  let ?c = "\<lparr>cl_transport = ?t, cl_context_id = 0, cl_call_id = 2, cl_max_xmit_frag = 4280,
     cl_auth_provider = None\<rparr> :: (MemoryTransport, unit) RpcClient"
  let ?req = "request_frames N U 4280 0 2 0 [1, 2, 3]"
  note pr = example_proposal [OF U]
  have i: "init_auth (None :: (string \<times> unit boxed_provider) option) = Ok None"
    by (simp add: init_auth_def)
  have b: "bind_bytes N U ?pr (None :: (unit boxed_provider \<times> bytes) option) = Ok ?bind"
    using pr by (simp add: bind_bytes_plain)
  have d: "PduPacket_decode N ?ack = Ok (body_packet N PduType_BindAck 1 3 (bind_ack_body U (example_ack U)))"
    by (rule body_wire_decode [OF N]) (simp add: example_ack_wire U)
  have s: "send_pdu memory_transport (MemoryTransport_new [?ack, ?resp]) ?bind =
      (Ok (), \<lparr>mt_incoming = [?ack, ?resp], mt_sent = [?bind]\<rparr>)"
    and r: "recv_pdu memory_transport \<lparr>mt_incoming = [?ack, ?resp], mt_sent = [?bind]\<rparr> = (Ok ?ack, ?t)"
    by (simp_all add: MemoryTransport_new_def)
  have bind: "RpcClient_bind N U memory_transport (MemoryTransport_new [?ack, ?resp]) (example_interface U) =
      (Ok ?c, ?t)"
    unfolding RpcClient_bind_def bind_with_contexts_def
    by (simp add: bind_inner_run [OF _ i b s r] bind_reply_ack [OF d _ _ _ pr(3)] example_ack_wire(2) [OF U])
  have cl: "example_client N U = Ok ?c"
    using bind example_ack_wire(1) [OF U]
    by (simp add: example_client_def bind_ack_packet_def new_packet_encode PduPacket_from_response_def
        PduPacket_from_response_with_flags_def from_body_with_flags_cases body_packet_encode response_wire_def)
      (simp add: PFC_FIRST_FRAG_def PFC_LAST_FRAG_def)
  let ?t2 = "\<lparr>mt_incoming = [], mt_sent = ?bind # ?req\<rparr>"
  have "reassemble N 2 False [] [?resp] = Some (Ok [0xAA, 0xBB, 0xCC], [])"
    unfolding reassemble_Ok_iff using response_part_wire [OF N, of "[0xAA, 0xBB, 0xCC]" 2 3]
    by (intro exI [of _ "[(3, [0xAA, 0xBB, 0xCC])]"])
      (simp add: first_flag_def last_flag_def PFC_FIRST_FRAG_def PFC_LAST_FRAG_def)
  then have "recv_outcome N memory_transport 2 False [] \<lparr>mt_incoming = [?resp], mt_sent = ?bind # ?req\<rparr>
      (Ok [0xAA, 0xBB, 0xCC]) ?t2"
    unfolding recv_outcome_def by (intro disjI1 exI [of _ "[?resp]"]) simp
  then have "call_raw N U memory_transport ?c 0 [1, 2, 3] =
      Some (Ok [0xAA, 0xBB, 0xCC], ?c\<lparr>cl_call_id := 3, cl_transport := ?t2\<rparr>)"
    by (simp add: call_raw_def next_call_id_def send_request_fragments_eq level_error_def on_transport_def
        recv_response_fragments_def recv_loop_complete)
  moreover have "length ?req = 1"
    by (simp add: length_request_frames)
  ultimately show ?thesis
    by (simp add: example_main_def cl)
qed

theorem example_main_ok_witness: "example_main std_ndr std_uuid = Some (Ok ())"
  by (rule example_main_ok [OF ndr_ok_std_ndr uuid_ok_std_uuid])

theorem bind_then_call_witness:
  "\<exists>c t1 t2. bind_with_contexts std_ndr std_uuid memory_transport
       (MemoryTransport_new [body_wire std_ndr PduType_BindAck 1 3 (bind_ack_body std_uuid sample_ack),
          response_wire std_ndr 2 1 [7], response_wire std_ndr 2 2 [8]]) [sample_context] =
       (Ok (c :: (MemoryTransport, unit) RpcClient), t1) \<and>
     call_raw std_ndr std_uuid memory_transport c 9 [1, 2] =
       Some (Ok [7, 8], c\<lparr>cl_call_id := 3, cl_transport := t2\<rparr>)"
proof -
  let ?ack = "body_wire std_ndr PduType_BindAck 1 3 (bind_ack_body std_uuid sample_ack)"
  let ?fs = "[response_wire std_ndr 2 1 [7], response_wire std_ndr 2 2 [8]]"
  have "length (bind_ack_body std_uuid sample_ack) = 40" by code_simp
  then have d: "PduPacket_decode std_ndr ?ack =
      Ok (body_packet std_ndr PduType_BindAck 1 3 (bind_ack_body std_uuid sample_ack))"
    by (intro body_wire_decode [OF ndr_ok_std_ndr]) simp
  have a: "BindAckPdu_decode std_uuid (bind_ack_body std_uuid sample_ack) = Ok sample_ack"
    by (rule BindAckPdu_decode_encode) (simp_all add: uuid_ok_std_uuid sample_ack_def)
  have m: "memory_delivers (MemoryTransport_new (?ack # ?fs)) (?ack # ?fs @ [])"
    by (simp add: memory_delivers_def MemoryTransport_new_def)
  have r: "complete_response std_ndr 2 ?fs [7, 8]"
    unfolding complete_response_def
    by (intro exI [of _ "[(1, [7]), (2, [8])]"])
      (simp add: response_part_wire ndr_ok_std_ndr first_flag_def last_flag_def PFC_FIRST_FRAG_def PFC_LAST_FRAG_def)
  have "length (bind_body_bytes std_uuid [sample_context]) \<le> 65519" "24 < unat (ack_max_xmit_frag sample_ack)"
    by (simp_all add: sample_proposal(2)) (simp add: sample_ack_def)
  note bind_then_call [where U = std_uuid and opnum = 9 and request_stub = "[1, 2]" and ?'p = unit,
      OF memory.reliable_transport_axioms _ sample_proposal(1) this(1) m _ d _ _ _ sample_proposal(3) this(2) _ r]
  then show ?thesis
    using a by simp blast
qed

end
