(* ===== verification/Auth_Ntlm.thy ===== *)
theory Auth_Ntlm
  imports Binding
begin

text \<open>
  The NTLM provider (\<^verbatim>\<open>src/auth.rs\<close>, feature \<^verbatim>\<open>ntlm-sspi\<close>): \<open>NtlmRpcAuthProvider\<close> over the external
  crate \<^verbatim>\<open>sspi\<close>, which is a parameter \<open>S\<close> of the model, with the state \<open>'n\<close> of its NTLM package, its
  user names \<open>'v\<close> and its credential handles \<open>'h\<close>.
\<close>

section \<open>The crate \<open>sspi\<close>\<close>

text \<open>
  The status values the provider distinguishes; every other one is \<open>SecurityStatus_Other\<close>.
\<close>

datatype SecurityStatus =
    SecurityStatus_Ok
  | SecurityStatus_ContinueNeeded
  | SecurityStatus_CompleteNeeded
  | SecurityStatus_CompleteAndContinue
  | SecurityStatus_Other

record 'v AuthIdentity =
  id_username :: 'v
  id_password :: string

text \<open>
  The functions the provider calls; an error is given by its text.  \<open>initialize_security_context_impl\<close>
  takes what the builder was given (credentials handle, context requirements, target name, input
  token), fails at once or yields a generator whose \<open>resolve_to_result\<close> fails or yields the status,
  and updates the handle, the output buffers and the package.
\<close>

record ('n, 'v, 'h) sspi_crate =
  sspi_Ntlm_new :: 'n
  sspi_Username_new :: "string \<Rightarrow> string option \<Rightarrow> string + 'v"
  sspi_acquire_credentials_handle :: "'n \<Rightarrow> 'v AuthIdentity \<Rightarrow> (string + 'h) \<times> 'n"
  sspi_initialize_security_context ::
    "'n \<Rightarrow> 'h \<Rightarrow> u32 \<Rightarrow> string \<Rightarrow> bytes option \<Rightarrow> bytes list
       \<Rightarrow> (string + (string + SecurityStatus)) \<times> 'h \<times> bytes list \<times> 'n"
  sspi_complete_auth_token :: "'n \<Rightarrow> bytes list \<Rightarrow> (string + unit) \<times> bytes list \<times> 'n"
  sspi_USE_DCE_STYLE :: u32

section \<open>The provider\<close>

record ('n, 'v, 'h) NtlmRpcAuthProvider =
  nt_ntlm :: 'n
  nt_identity :: "'v AuthIdentity"
  nt_credentials_handle :: "'h option"
  nt_target :: "string option"
  nt_auth_level :: AuthLevel
  nt_auth_context_id :: u32
  nt_established :: bool

definition NtlmRpcAuthProvider_new ::
    "('n, 'v, 'h) sspi_crate \<Rightarrow> string \<Rightarrow> string \<Rightarrow> string \<Rightarrow> (('n, 'v, 'h) NtlmRpcAuthProvider, RpcAuthError) result" where
  "NtlmRpcAuthProvider_new S domain username password =
     and_then (of_sum (\<lambda>err. RpcAuthError_Provider (''NTLM username setup failed: '' @ err))
         (sspi_Username_new S username (Some domain))) (\<lambda>username.
       Ok \<lparr>nt_ntlm = sspi_Ntlm_new S,
           nt_identity = \<lparr>id_username = username, id_password = password\<rparr>,
           nt_credentials_handle = None, nt_target = None, nt_auth_level = AuthLevel_Connect,
           nt_auth_context_id = 0, nt_established = False\<rparr>)"

definition NtlmRpcAuthProvider_with_auth_level ::
    "('n, 'v, 'h) NtlmRpcAuthProvider \<Rightarrow> AuthLevel \<Rightarrow> ('n, 'v, 'h) NtlmRpcAuthProvider" where
  "NtlmRpcAuthProvider_with_auth_level p level = p\<lparr>nt_auth_level := level\<rparr>"

definition NtlmRpcAuthProvider_with_auth_context_id ::
    "('n, 'v, 'h) NtlmRpcAuthProvider \<Rightarrow> u32 \<Rightarrow> ('n, 'v, 'h) NtlmRpcAuthProvider" where
  "NtlmRpcAuthProvider_with_auth_context_id p cid = p\<lparr>nt_auth_context_id := cid\<rparr>"

definition ntlm_rpc_context_flags :: "('n, 'v, 'h) sspi_crate \<Rightarrow> u32" where
  "ntlm_rpc_context_flags S = sspi_USE_DCE_STYLE S"

text \<open>The token is completed when the status asks for it.\<close>

definition ntlm_complete_token ::
    "('n, 'v, 'h) sspi_crate \<Rightarrow> SecurityStatus \<Rightarrow> bytes list \<Rightarrow> ('n, 'v, 'h) NtlmRpcAuthProvider
       \<Rightarrow> (bytes list, RpcAuthError) result \<times> ('n, 'v, 'h) NtlmRpcAuthProvider" where
  "ntlm_complete_token S status output_buffer p =
     (if status \<in> {SecurityStatus_CompleteAndContinue, SecurityStatus_CompleteNeeded} then
        let (r, output_buffer, n) = sspi_complete_auth_token S (nt_ntlm p) output_buffer in
        (and_then (of_sum (\<lambda>err. RpcAuthError_Provider (''NTLM complete token failed: '' @ err)) r)
           (\<lambda>_. Ok output_buffer), p\<lparr>nt_ntlm := n\<rparr>)
      else (Ok output_buffer, p))"

definition ntlm_next_token ::
    "('n, 'v, 'h) sspi_crate \<Rightarrow> bytes option \<Rightarrow> ('n, 'v, 'h) NtlmRpcAuthProvider
       \<Rightarrow> (bytes, RpcAuthError) result \<times> ('n, 'v, 'h) NtlmRpcAuthProvider" where
  "ntlm_next_token S input p =
     and_then_st (ok_or (nt_credentials_handle p)
         (RpcAuthError_Provider ''NTLM credentials are not initialized''), p) (\<lambda>credentials_handle p.
     and_then_st (ok_or (nt_target p) (RpcAuthError_Provider ''NTLM target is not initialized''), p) (\<lambda>target p.
     let (r, credentials_handle, output_buffer, n) =
           sspi_initialize_security_context S (nt_ntlm p) credentials_handle (ntlm_rpc_context_flags S)
             target input [[]];
         p = p\<lparr>nt_ntlm := n, nt_credentials_handle := Some credentials_handle\<rparr>
     in
     and_then_st (of_sum (\<lambda>err. RpcAuthError_Provider (''NTLM initialize failed: '' @ err)) r, p) (\<lambda>r p.
     and_then_st (of_sum (\<lambda>err. RpcAuthError_Provider (''NTLM token generation failed: '' @ err)) r, p) (\<lambda>status p.
     and_then_st (ntlm_complete_token S status output_buffer p) (\<lambda>output_buffer p.
     let p = p\<lparr>nt_established :=
                 (status \<notin> {SecurityStatus_ContinueNeeded, SecurityStatus_CompleteAndContinue})\<rparr>
     in (idx output_buffer 0, p))))))"

definition ntlm_init_context ::
    "('n, 'v, 'h) sspi_crate \<Rightarrow> ('n, 'v, 'h) NtlmRpcAuthProvider \<Rightarrow> string
       \<Rightarrow> (bytes, RpcAuthError) result \<times> ('n, 'v, 'h) NtlmRpcAuthProvider" where
  "ntlm_init_context S p target =
     (let (r, n) = sspi_acquire_credentials_handle S (nt_ntlm p) (nt_identity p);
          p = p\<lparr>nt_ntlm := n\<rparr>
      in and_then_st (of_sum (\<lambda>err. RpcAuthError_Provider (''NTLM acquire credentials failed: '' @ err)) r, p)
           (\<lambda>credentials_handle p.
         ntlm_next_token S None
           (p\<lparr>nt_credentials_handle := Some credentials_handle, nt_target := Some target\<rparr>)))"

definition ntlm_step ::
    "('n, 'v, 'h) sspi_crate \<Rightarrow> ('n, 'v, 'h) NtlmRpcAuthProvider \<Rightarrow> bytes
       \<Rightarrow> (bytes, RpcAuthError) result \<times> ('n, 'v, 'h) NtlmRpcAuthProvider" where
  "ntlm_step S p challenge = ntlm_next_token S (Some challenge) p"

definition ntlm_provider ::
    "('n, 'v, 'h) sspi_crate \<Rightarrow> ('n, 'v, 'h) NtlmRpcAuthProvider RpcAuthProvider" where
  "ntlm_provider S =
     \<lparr>mechanism = (\<lambda>_. AuthMechanism_Ntlm), auth_level = nt_auth_level,
      init_context = ntlm_init_context S, provider_step = ntlm_step S,
      auth_type = (\<lambda>_. RpcAuthProvider_auth_type AuthMechanism_Ntlm),
      auth_context_id = nt_auth_context_id, is_context_established = nt_established\<rparr>"

section \<open>What tokens keep\<close>

text \<open>The part of a provider that negotiation leaves alone.\<close>

definition same_config ::
    "('n, 'v, 'h) NtlmRpcAuthProvider \<Rightarrow> ('n, 'v, 'h) NtlmRpcAuthProvider \<Rightarrow> bool" where
  "same_config p p' \<longleftrightarrow> nt_auth_level p' = nt_auth_level p \<and> nt_auth_context_id p' = nt_auth_context_id p \<and>
     nt_identity p' = nt_identity p"

lemma ntlm_complete_token_frame:
  "\<exists>n. snd (ntlm_complete_token S status out p) = p\<lparr>nt_ntlm := n\<rparr>"
  by (cases p) (auto simp: ntlm_complete_token_def split: prod.splits)

text \<open>
  A turn of the negotiation: it fails at once without credentials or target, and otherwise the
  package is consulted exactly with the stored handle and target.
\<close>

lemma ntlm_next_token_frame:
  "\<exists>n h e. snd (ntlm_next_token S input p) = p \<or>
     (nt_credentials_handle p \<noteq> None \<and> nt_target p \<noteq> None \<and>
      snd (ntlm_next_token S input p) = p\<lparr>nt_ntlm := n, nt_credentials_handle := Some h, nt_established := e\<rparr>)"
proof (cases "nt_credentials_handle p = None \<or> nt_target p = None")
  case True
  then show ?thesis
    by (cases "nt_credentials_handle p") (auto simp: ntlm_next_token_def)
next
  case False
  then obtain h t where ht: "nt_credentials_handle p = Some h" "nt_target p = Some t" by auto
  obtain r h' out n where i: "sspi_initialize_security_context S (nt_ntlm p) h (ntlm_rpc_context_flags S) t input [[]] =
      (r, h', out, n)" by (metis surj_pair)
  let ?p = "p\<lparr>nt_ntlm := n, nt_credentials_handle := Some h'\<rparr>"
  show ?thesis
  proof (cases r)
    case (Inl x)
    with ht i show ?thesis
      by (intro exI [of _ n] exI [of _ h'] exI [of _ "nt_established p"]) (cases p, simp add: ntlm_next_token_def)
  next
    case r: (Inr r')
    show ?thesis
    proof (cases r')
      case (Inl x)
      with ht i r show ?thesis
        by (intro exI [of _ n] exI [of _ h'] exI [of _ "nt_established p"]) (cases p, simp add: ntlm_next_token_def)
    next
      case (Inr status)
      obtain q p2 where c: "ntlm_complete_token S status out ?p = (q, p2)" by (metis surj_pair)
      with ntlm_complete_token_frame [of S status out ?p] obtain n2 where p2: "p2 = ?p\<lparr>nt_ntlm := n2\<rparr>" by auto
      show ?thesis
        using ht i r Inr c p2
        by (intro exI [of _ n2] exI [of _ h'] exI [of _ "nt_established (snd (ntlm_next_token S input p))"])
          (cases p; cases q; simp add: ntlm_next_token_def)
    qed
  qed
qed

lemma ntlm_next_token_config: "same_config p (snd (ntlm_next_token S input p))"
  using ntlm_next_token_frame [of S input p] by (auto simp: same_config_def)

lemma ntlm_init_context_config: "same_config p (snd (ntlm_init_context S p target))"
proof -
  obtain r n where a: "sspi_acquire_credentials_handle S (nt_ntlm p) (nt_identity p) = (r, n)"
    by (metis surj_pair)
  show ?thesis
  proof (cases r)
    case (Inl e)
    with a show ?thesis by (simp add: ntlm_init_context_def same_config_def)
  next
    case (Inr h)
    with a ntlm_next_token_config [of "p\<lparr>nt_ntlm := n, nt_credentials_handle := Some h, nt_target := Some target\<rparr>" S None]
    show ?thesis by (simp add: ntlm_init_context_def same_config_def)
  qed
qed

interpretation ntlm: stable_provider "ntlm_provider S" for S
  by unfold_locales
    (simp_all add: ntlm_provider_def ntlm_step_def ntlm_init_context_config [unfolded same_config_def]
      ntlm_next_token_config [unfolded same_config_def])

section \<open>Reachable providers\<close>

inductive ntlm_reachable ::
    "('n, 'v, 'h) sspi_crate \<Rightarrow> ('n, 'v, 'h) NtlmRpcAuthProvider \<Rightarrow> bool" for S where
  new: "NtlmRpcAuthProvider_new S domain username password = Ok p \<Longrightarrow> ntlm_reachable S p"
| level: "ntlm_reachable S p \<Longrightarrow> ntlm_reachable S (NtlmRpcAuthProvider_with_auth_level p l)"
| context_id: "ntlm_reachable S p \<Longrightarrow> ntlm_reachable S (NtlmRpcAuthProvider_with_auth_context_id p cid)"
| init: "ntlm_reachable S p \<Longrightarrow> ntlm_reachable S (snd (ntlm_init_context S p target))"
| step: "ntlm_reachable S p \<Longrightarrow> ntlm_reachable S (snd (ntlm_step S p challenge))"

definition ntlm_inv :: "('n, 'v, 'h) NtlmRpcAuthProvider \<Rightarrow> bool" where
  "ntlm_inv p \<longleftrightarrow> (nt_credentials_handle p = None \<longleftrightarrow> nt_target p = None) \<and>
     (nt_established p \<longrightarrow> nt_credentials_handle p \<noteq> None)"

lemma ntlm_inv_next_token: "ntlm_inv p \<Longrightarrow> ntlm_inv (snd (ntlm_next_token S input p))"
  using ntlm_next_token_frame [of S input p] by (auto simp: ntlm_inv_def)

lemma ntlm_inv_init: "ntlm_inv p \<Longrightarrow> ntlm_inv (snd (ntlm_init_context S p target))"
proof -
  assume inv: "ntlm_inv p"
  obtain r n where a: "sspi_acquire_credentials_handle S (nt_ntlm p) (nt_identity p) = (r, n)"
    by (metis surj_pair)
  show ?thesis
  proof (cases r)
    case (Inl e)
    with a inv show ?thesis by (auto simp: ntlm_init_context_def ntlm_inv_def)
  next
    case (Inr h)
    let ?p = "p\<lparr>nt_ntlm := n, nt_credentials_handle := Some h, nt_target := Some target\<rparr>"
    have "ntlm_inv ?p" by (simp add: ntlm_inv_def)
    with a Inr ntlm_inv_next_token [of ?p] show ?thesis by (simp add: ntlm_init_context_def)
  qed
qed

lemma ntlm_reachable_inv: "ntlm_reachable S p \<Longrightarrow> ntlm_inv p"
proof (induction rule: ntlm_reachable.induct)
  case (new domain username password p)
  then show ?case by (auto simp: NtlmRpcAuthProvider_new_def and_then_eq_Ok ntlm_inv_def)
next
  case (step p challenge)
  then show ?case by (simp add: ntlm_step_def ntlm_inv_next_token)
qed (auto simp: ntlm_inv_init, auto simp: ntlm_inv_def NtlmRpcAuthProvider_with_auth_level_def
  NtlmRpcAuthProvider_with_auth_context_id_def)

lemma ntlm_next_token_no_target_error:
  assumes "nt_target p \<noteq> None"
  shows "fst (ntlm_next_token S input p) \<noteq> Err (RpcAuthError_Provider ''NTLM target is not initialized'')"
  using assms
  by (cases "nt_credentials_handle p")
    (auto simp: ntlm_next_token_def Let_def and_then_st_def ntlm_complete_token_def and_then_def of_sum_def
      idx_def split: prod.splits result.splits sum.splits)

lemma ntlm_next_token_failed:
  assumes "fst (ntlm_next_token S input p) = Err e"
  shows "nt_established (snd (ntlm_next_token S input p)) = nt_established p"
proof -
  have "nt_established p' = nt_established q" if "ntlm_complete_token S st out q = (r, p')" for st out q r p'
    using that ntlm_complete_token_frame [of S st out q] by auto
  then show ?thesis
    using assms
    by (cases "nt_credentials_handle p"; cases "nt_target p")
      (auto simp: ntlm_next_token_def Let_def and_then_st_def idx_def split: prod.splits result.splits if_splits)
qed

interpretation ntlm_run: provider_invariant "ntlm_provider S" "ntlm_reachable S" for S
  by unfold_locales (simp_all add: ntlm_provider_def ntlm_reachable.init ntlm_reachable.step)

section \<open>Properties\<close>

text \<open>A package that needs one challenge, as NTLM does.\<close>

definition sample_sspi :: "(nat, string, nat) sspi_crate" where
  "sample_sspi =
     \<lparr>sspi_Ntlm_new = 0,
      sspi_Username_new = (\<lambda>username domain. if username = [] then Inl ''empty name'' else Inr username),
      sspi_acquire_credentials_handle = (\<lambda>n i. (Inr 7, n + 1)),
      sspi_initialize_security_context = (\<lambda>n h flags target input out.
        (case input of
           None \<Rightarrow> (Inr (Inr SecurityStatus_ContinueNeeded), h, [[1, 2]], n + 1)
         | Some challenge \<Rightarrow> (Inr (Inr SecurityStatus_CompleteNeeded), h, [challenge], n + 1))),
      sspi_complete_auth_token = (\<lambda>n out. (Inr (), map (\<lambda>b. b @ [9]) out, n + 1)),
      sspi_USE_DCE_STYLE = 0x200\<rparr>"

text \<open>
  C18: the states of the NTLM provider.  However a provider was configured and used, it has credentials
  iff it has a target, so the error for a missing target cannot occur; it reports an established
  context only after credentials were acquired; a step before the initialisation is refused and
  changes nothing; and a step that fails does not change whether the context is established.
\<close>

theorem ntlm_states:
  assumes "ntlm_reachable S p"
  shows "(nt_credentials_handle p = None \<longleftrightarrow> nt_target p = None) \<and>
     (is_context_established (ntlm_provider S) p \<longrightarrow> nt_credentials_handle p \<noteq> None) \<and>
     fst (ntlm_step S p challenge) \<noteq> Err (RpcAuthError_Provider ''NTLM target is not initialized'') \<and>
     (nt_credentials_handle p = None \<longrightarrow>
        ntlm_step S p challenge = (Err (RpcAuthError_Provider ''NTLM credentials are not initialized''), p)) \<and>
     (fst (ntlm_step S p challenge) = Err e \<longrightarrow>
        is_context_established (ntlm_provider S) (snd (ntlm_step S p challenge)) =
        is_context_established (ntlm_provider S) p)"
proof -
  have inv: "ntlm_inv p" using assms by (rule ntlm_reachable_inv)
  have none: "ntlm_step S p challenge = (Err (RpcAuthError_Provider ''NTLM credentials are not initialized''), p)"
    if "nt_credentials_handle p = None"
    using that by (simp add: ntlm_step_def ntlm_next_token_def)
  moreover have "fst (ntlm_step S p challenge) \<noteq> Err (RpcAuthError_Provider ''NTLM target is not initialized'')"
  proof (cases "nt_credentials_handle p")
    case None
    then show ?thesis by (simp add: none)
  next
    case (Some h)
    with inv have "nt_target p \<noteq> None" by (auto simp: ntlm_inv_def)
    then show ?thesis
      unfolding ntlm_step_def by (rule ntlm_next_token_no_target_error)
  qed
  moreover have "fst (ntlm_step S p challenge) = Err e \<longrightarrow>
      nt_established (snd (ntlm_step S p challenge)) = nt_established p"
    using ntlm_next_token_failed [of S "Some challenge" p] by (simp add: ntlm_step_def)
  ultimately show ?thesis
    using inv by (auto simp: ntlm_inv_def ntlm_provider_def)
qed

theorem ntlm_states_witness:
  "\<exists>p. NtlmRpcAuthProvider_new sample_sspi ''LAB'' ''Administrator'' ''pw'' = Ok p \<and>
     fst (ntlm_step sample_sspi p [3]) = Err (RpcAuthError_Provider ''NTLM credentials are not initialized'') \<and>
     fst (ntlm_init_context sample_sspi p ''dc01'') = Ok [1, 2] \<and>
     nt_target (snd (ntlm_init_context sample_sspi p ''dc01'')) \<noteq> None \<and>
     nt_credentials_handle (snd (ntlm_init_context sample_sspi p ''dc01'')) \<noteq> None"
proof -
  obtain p where p: "NtlmRpcAuthProvider_new sample_sspi ''LAB'' ''Administrator'' ''pw'' = Ok p"
    and n: "nt_credentials_handle p = None"
    and i: "fst (ntlm_init_context sample_sspi p ''dc01'') = Ok [1, 2]"
      "nt_target (snd (ntlm_init_context sample_sspi p ''dc01'')) \<noteq> None"
    by (simp add: NtlmRpcAuthProvider_new_def sample_sspi_def ntlm_init_context_def ntlm_next_token_def
        ntlm_complete_token_def)
  from p have r: "ntlm_reachable sample_sspi p" by (rule ntlm_reachable.new)
  then have "ntlm_reachable sample_sspi (snd (ntlm_init_context sample_sspi p ''dc01''))"
    by (rule ntlm_reachable.init)
  from ntlm_states [OF this] ntlm_states [OF r, of "[3]"] p n i show ?thesis by auto
qed

end
