(* ===== verification/Auth_Gssapi.thy ===== *)
theory Auth_Gssapi
  imports Binding
begin

text \<open>
  The Kerberos provider (\<^verbatim>\<open>src/auth.rs\<close>, feature \<^verbatim>\<open>gssapi\<close>): \<open>GssapiKerberosRpcAuthProvider\<close> and the
  wrapper \<open>GssapiClientContext\<close> around the C library behind \<^verbatim>\<open>libgssapi_sys\<close>.  The library is a
  parameter \<open>G\<close> of the model with a state \<open>'w\<close>; its handles and the addresses of its buffers are raw
  pointers, of which \<open>0\<close> is the null pointer.  Destructors are calls of \<open>GssapiClientContext_drop\<close> at the
  places where a context goes out of scope or is overwritten.
\<close>

section \<open>The library\<close>

type_synonym gss_ptr = nat

record gss_buffer_desc =
  buf_length :: nat
  buf_value :: gss_ptr

record gss_OID_desc =
  oid_length :: u32
  oid_elements :: bytes

text \<open>
  The functions the wrapper calls, without the arguments that are always null or the same constant.
  An input buffer is the bytes it points to; \<open>gss_memory\<close> reads the memory behind a buffer; an output
  argument is a component of the result: major and minor status, then the handle or the handle and
  the output token.
\<close>

record 'w gss_crate =
  gss_import_name :: "'w \<Rightarrow> bytes \<Rightarrow> u32 \<times> u32 \<times> gss_ptr \<times> 'w"
  gss_acquire_cred :: "'w \<Rightarrow> u32 \<times> u32 \<times> gss_ptr \<times> 'w"
  gss_init_sec_context ::
    "'w \<Rightarrow> gss_ptr \<Rightarrow> gss_ptr \<Rightarrow> gss_ptr \<Rightarrow> gss_OID_desc \<Rightarrow> u32 \<Rightarrow> bytes option
       \<Rightarrow> u32 \<times> u32 \<times> gss_ptr \<times> gss_buffer_desc \<times> 'w"
  gss_delete_sec_context :: "'w \<Rightarrow> gss_ptr \<Rightarrow> 'w"
  gss_release_cred :: "'w \<Rightarrow> gss_ptr \<Rightarrow> 'w"
  gss_release_name :: "'w \<Rightarrow> gss_ptr \<Rightarrow> 'w"
  gss_release_buffer :: "'w \<Rightarrow> gss_buffer_desc \<Rightarrow> 'w"
  gss_memory :: "'w \<Rightarrow> gss_ptr \<Rightarrow> nat \<Rightarrow> bytes"
  GSS_S_COMPLETE :: u32
  GSS_S_CONTINUE_NEEDED :: u32
  GSS_C_MUTUAL_FLAG :: u32
  GSS_C_INTEG_FLAG :: u32
  GSS_C_DCE_STYLE :: u32

text \<open>Documented behaviour: a name or a credential is returned only with \<open>GSS_S_COMPLETE\<close>.\<close>

definition gss_ok :: "'w gss_crate \<Rightarrow> bool" where
  "gss_ok G \<longleftrightarrow>
     (\<forall>w b major minor name w'. gss_import_name G w b = (major, minor, name, w') \<longrightarrow>
        major \<noteq> GSS_S_COMPLETE G \<longrightarrow> name = 0) \<and>
     (\<forall>w major minor cred w'. gss_acquire_cred G w = (major, minor, cred, w') \<longrightarrow>
        major \<noteq> GSS_S_COMPLETE G \<longrightarrow> cred = 0)"

section \<open>Buffers, names and credentials\<close>

definition copy_gssapi_buffer :: "'w gss_crate \<Rightarrow> 'w \<Rightarrow> gss_buffer_desc \<Rightarrow> bytes" where
  "copy_gssapi_buffer G w b =
     (if buf_value b = 0 \<or> buf_length b = 0 then [] else gss_memory G w (buf_value b) (buf_length b))"

definition release_gssapi_buffer :: "'w gss_crate \<Rightarrow> gss_buffer_desc \<Rightarrow> 'w \<Rightarrow> 'w" where
  "release_gssapi_buffer G b w = (if buf_value b \<noteq> 0 then gss_release_buffer G w b else w)"

definition release_gssapi_name :: "'w gss_crate \<Rightarrow> gss_ptr \<Rightarrow> 'w \<Rightarrow> 'w" where
  "release_gssapi_name G name w = (if name \<noteq> 0 then gss_release_name G w name else w)"

definition oid_from_static_bytes :: "bytes \<Rightarrow> gss_OID_desc" where
  "oid_from_static_bytes bs = \<lparr>oid_length = of_nat (length bs), oid_elements = bs\<rparr>"

definition kerberos_mech_oid :: gss_OID_desc where
  "kerberos_mech_oid = oid_from_static_bytes [0x2A, 0x86, 0x48, 0x86, 0xF7, 0x12, 0x01, 0x02, 0x02]"

text \<open>\<open>str::as_bytes\<close>.\<close>

definition as_bytes :: "string \<Rightarrow> bytes" where
  "as_bytes s = map of_char s"

definition gss_error :: "string \<Rightarrow> u32 \<Rightarrow> u32 \<Rightarrow> RpcAuthError" where
  "gss_error message major minor =
     RpcAuthError_Provider (message @ '' failed: major=0x'' @ fmt_hex 8 (unat major)
       @ '' minor=0x'' @ fmt_hex 8 (unat minor))"

definition import_gssapi_service_name ::
    "'w gss_crate \<Rightarrow> string \<Rightarrow> 'w \<Rightarrow> (gss_ptr, RpcAuthError) result \<times> 'w" where
  "import_gssapi_service_name G service_name w =
     (let (major, minor, name, w) = gss_import_name G w (as_bytes service_name) in
      if major = GSS_S_COMPLETE G then (Ok name, w)
      else (Err (gss_error ''GSSAPI import service name'' major minor), w))"

definition acquire_gssapi_credentials :: "'w gss_crate \<Rightarrow> 'w \<Rightarrow> (gss_ptr, RpcAuthError) result \<times> 'w" where
  "acquire_gssapi_credentials G w =
     (let (major, minor, credential, w) = gss_acquire_cred G w in
      if major = GSS_S_COMPLETE G then (Ok credential, w)
      else (Err (gss_error ''GSSAPI acquire default credentials'' major minor), w))"

section \<open>The client context\<close>

record GssapiClientContext =
  gc_credential :: gss_ptr
  gc_name :: gss_ptr
  gc_context :: gss_ptr
  gc_established :: bool

definition GssapiClientContext_new ::
    "'w gss_crate \<Rightarrow> string \<Rightarrow> 'w \<Rightarrow> (GssapiClientContext, RpcAuthError) result \<times> 'w" where
  "GssapiClientContext_new G service_name w =
     and_then_st (import_gssapi_service_name G service_name w) (\<lambda>name w.
       (case acquire_gssapi_credentials G w of
          (Ok credential, w) \<Rightarrow>
            (Ok \<lparr>gc_credential = credential, gc_name = name, gc_context = 0, gc_established = False\<rparr>, w)
        | (Err err, w) \<Rightarrow> (Err err, release_gssapi_name G name w)
        | (Panic, w) \<Rightarrow> (Panic, w)))"

definition GssapiClientContext_request_flags :: "'w gss_crate \<Rightarrow> u32" where
  "GssapiClientContext_request_flags G = GSS_C_MUTUAL_FLAG G OR GSS_C_INTEG_FLAG G OR GSS_C_DCE_STYLE G"

definition GssapiClientContext_step ::
    "'w gss_crate \<Rightarrow> bytes option \<Rightarrow> GssapiClientContext \<times> 'w
       \<Rightarrow> (bytes option, RpcAuthError) result \<times> GssapiClientContext \<times> 'w" where
  "GssapiClientContext_step G input = (\<lambda>(c, w).
     let (major, minor, ctx, output_token, w) =
           gss_init_sec_context G w (gc_credential c) (gc_context c) (gc_name c) kerberos_mech_oid
             (GssapiClientContext_request_flags G) input;
         c = c\<lparr>gc_context := ctx\<rparr>
     in
     if major \<noteq> GSS_S_COMPLETE G \<and> major \<noteq> GSS_S_CONTINUE_NEEDED G then
       (Err (gss_error ''GSSAPI init security context'' major minor), c, release_gssapi_buffer G output_token w)
     else
       let c = c\<lparr>gc_established := (major = GSS_S_COMPLETE G)\<rparr>;
           token = copy_gssapi_buffer G w output_token;
           w = release_gssapi_buffer G output_token w
       in (Ok (if token \<noteq> [] then Some token else None), c, w))"

definition GssapiClientContext_drop :: "'w gss_crate \<Rightarrow> GssapiClientContext \<Rightarrow> 'w \<Rightarrow> 'w" where
  "GssapiClientContext_drop G c w =
     (let w = (if gc_context c \<noteq> 0 then gss_delete_sec_context G w (gc_context c) else w);
          w = (if gc_credential c \<noteq> 0 then gss_release_cred G w (gc_credential c) else w)
      in release_gssapi_name G (gc_name c) w)"

section \<open>The provider\<close>

record GssapiKerberosRpcAuthProvider =
  gk_service_principal :: "string option"
  gk_context :: "GssapiClientContext option"
  gk_auth_level :: AuthLevel

definition GssapiKerberosRpcAuthProvider_new :: GssapiKerberosRpcAuthProvider where
  "GssapiKerberosRpcAuthProvider_new =
     \<lparr>gk_service_principal = None, gk_context = None, gk_auth_level = AuthLevel_Connect\<rparr>"

definition GssapiKerberosRpcAuthProvider_with_service_principal ::
    "GssapiKerberosRpcAuthProvider \<Rightarrow> string \<Rightarrow> GssapiKerberosRpcAuthProvider" where
  "GssapiKerberosRpcAuthProvider_with_service_principal p service = p\<lparr>gk_service_principal := Some service\<rparr>"

definition GssapiKerberosRpcAuthProvider_with_auth_level ::
    "GssapiKerberosRpcAuthProvider \<Rightarrow> AuthLevel \<Rightarrow> GssapiKerberosRpcAuthProvider" where
  "GssapiKerberosRpcAuthProvider_with_auth_level p level = p\<lparr>gk_auth_level := level\<rparr>"

definition service_name_for_target :: "string \<Rightarrow> string" where
  "service_name_for_target target =
     (if CHR ''@'' \<in> set target then target
      else (case split_once (CHR ''/'') target of
              Some (service, host) \<Rightarrow> service @ ''@'' @ host
            | None \<Rightarrow> target))"

definition gssapi_build_context ::
    "'w gss_crate \<Rightarrow> GssapiKerberosRpcAuthProvider \<Rightarrow> string \<Rightarrow> 'w
       \<Rightarrow> (GssapiClientContext, RpcAuthError) result \<times> 'w" where
  "gssapi_build_context G p target w =
     (let service_name =
            (case gk_service_principal p of Some s \<Rightarrow> s | None \<Rightarrow> service_name_for_target target)
      in GssapiClientContext_new G service_name w)"

text \<open>Dropping an \<open>Option<GssapiClientContext>\<close>, as an assignment or the end of the provider does.\<close>

definition drop_context :: "'w gss_crate \<Rightarrow> GssapiClientContext option \<Rightarrow> 'w \<Rightarrow> 'w" where
  "drop_context G c w = (case c of Some c \<Rightarrow> GssapiClientContext_drop G c w | None \<Rightarrow> w)"

definition gssapi_init_context ::
    "'w gss_crate \<Rightarrow> GssapiKerberosRpcAuthProvider \<times> 'w \<Rightarrow> string
       \<Rightarrow> (bytes, RpcAuthError) result \<times> GssapiKerberosRpcAuthProvider \<times> 'w" where
  "gssapi_init_context G = (\<lambda>(p, w) target.
     (case gssapi_build_context G p target w of
        (Ok context, w) \<Rightarrow>
          (case GssapiClientContext_step G None (context, w) of
             (Ok (Some token), context, w) \<Rightarrow>
               (Ok token, p\<lparr>gk_context := Some context\<rparr>, drop_context G (gk_context p) w)
           | (Ok None, context, w) \<Rightarrow>
               (Err (RpcAuthError_Provider ''GSSAPI initial token is empty''), p,
                GssapiClientContext_drop G context w)
           | (Err err, context, w) \<Rightarrow> (Err err, p, GssapiClientContext_drop G context w)
           | (Panic, context, w) \<Rightarrow> (Panic, p, GssapiClientContext_drop G context w))
      | (Err err, w) \<Rightarrow> (Err err, p, w)
      | (Panic, w) \<Rightarrow> (Panic, p, w)))"

definition gssapi_step ::
    "'w gss_crate \<Rightarrow> GssapiKerberosRpcAuthProvider \<times> 'w \<Rightarrow> bytes
       \<Rightarrow> (bytes, RpcAuthError) result \<times> GssapiKerberosRpcAuthProvider \<times> 'w" where
  "gssapi_step G = (\<lambda>(p, w) challenge.
     (case gk_context p of
        None \<Rightarrow> (Err (RpcAuthError_Provider ''GSSAPI context is not initialized''), p, w)
      | Some context \<Rightarrow>
          (let (r, context, w) = GssapiClientContext_step G (Some challenge) (context, w)
           in (and_then r (\<lambda>token. Ok (case token of Some t \<Rightarrow> t | None \<Rightarrow> [])),
               p\<lparr>gk_context := Some context\<rparr>, w))))"

definition gssapi_is_context_established :: "GssapiKerberosRpcAuthProvider \<Rightarrow> bool" where
  "gssapi_is_context_established p = (case gk_context p of Some c \<Rightarrow> gc_established c | None \<Rightarrow> False)"

definition gssapi_provider :: "'w gss_crate \<Rightarrow> (GssapiKerberosRpcAuthProvider \<times> 'w) RpcAuthProvider" where
  "gssapi_provider G =
     \<lparr>mechanism = (\<lambda>_. AuthMechanism_Kerberos), auth_level = (\<lambda>(p, _). gk_auth_level p),
      init_context = gssapi_init_context G, provider_step = gssapi_step G,
      auth_type = (\<lambda>_. RpcAuthProvider_auth_type AuthMechanism_Kerberos),
      auth_context_id = (\<lambda>_. RpcAuthProvider_auth_context_id),
      is_context_established = (\<lambda>(p, _). gssapi_is_context_established p)\<rparr>"

interpretation gssapi: stable_provider "gssapi_provider G" for G
  by unfold_locales
    (auto simp: gssapi_provider_def gssapi_init_context_def gssapi_step_def Let_def
      split: prod.splits result.splits option.splits)

section \<open>Accounting of handles\<close>

text \<open>
  The library with a ledger beside its state: for every resource, how often it has been handed out
  minus how often it has been given back.  \<open>gss_init_sec_context\<close> takes the context handle it is given
  and hands out the one it returns, which may be the same.
\<close>

datatype gss_resource = Gss_Name gss_ptr | Gss_Cred gss_ptr | Gss_Ctx gss_ptr | Gss_Buffer gss_ptr

type_synonym ledger = "gss_resource \<Rightarrow> int"

definition one :: "(gss_ptr \<Rightarrow> gss_resource) \<Rightarrow> gss_ptr \<Rightarrow> ledger" where
  "one k p = (\<lambda>r. if p \<noteq> 0 \<and> r = k p then 1 else 0)"

definition credit :: "(gss_ptr \<Rightarrow> gss_resource) \<Rightarrow> gss_ptr \<Rightarrow> ledger \<Rightarrow> ledger" where
  "credit k p bal = (\<lambda>r. bal r + one k p r)"

definition debit :: "(gss_ptr \<Rightarrow> gss_resource) \<Rightarrow> gss_ptr \<Rightarrow> ledger \<Rightarrow> ledger" where
  "debit k p bal = (\<lambda>r. bal r - one k p r)"

definition traced :: "'w gss_crate \<Rightarrow> ('w \<times> ledger) gss_crate" where
  "traced G =
     \<lparr>gss_import_name = (\<lambda>(w, bal) b. let (major, minor, name, w) = gss_import_name G w b
        in (major, minor, name, w, credit Gss_Name name bal)),
      gss_acquire_cred = (\<lambda>(w, bal). let (major, minor, cred, w) = gss_acquire_cred G w
        in (major, minor, cred, w, credit Gss_Cred cred bal)),
      gss_init_sec_context = (\<lambda>(w, bal) cred ctx name oid flags input.
        let (major, minor, ctx', out, w) = gss_init_sec_context G w cred ctx name oid flags input
        in (major, minor, ctx', out, w,
            credit Gss_Buffer (buf_value out) (credit Gss_Ctx ctx' (debit Gss_Ctx ctx bal)))),
      gss_delete_sec_context = (\<lambda>(w, bal) p. (gss_delete_sec_context G w p, debit Gss_Ctx p bal)),
      gss_release_cred = (\<lambda>(w, bal) p. (gss_release_cred G w p, debit Gss_Cred p bal)),
      gss_release_name = (\<lambda>(w, bal) p. (gss_release_name G w p, debit Gss_Name p bal)),
      gss_release_buffer = (\<lambda>(w, bal) b. (gss_release_buffer G w b, debit Gss_Buffer (buf_value b) bal)),
      gss_memory = (\<lambda>(w, _) p n. gss_memory G w p n),
      GSS_S_COMPLETE = GSS_S_COMPLETE G, GSS_S_CONTINUE_NEEDED = GSS_S_CONTINUE_NEEDED G,
      GSS_C_MUTUAL_FLAG = GSS_C_MUTUAL_FLAG G, GSS_C_INTEG_FLAG = GSS_C_INTEG_FLAG G,
      GSS_C_DCE_STYLE = GSS_C_DCE_STYLE G\<rparr>"

text \<open>What a context owns.\<close>

definition owned :: "GssapiClientContext \<Rightarrow> ledger" where
  "owned c = (\<lambda>r. one Gss_Name (gc_name c) r + one Gss_Cred (gc_credential c) r + one Gss_Ctx (gc_context c) r)"

definition owned_opt :: "GssapiClientContext option \<Rightarrow> ledger" where
  "owned_opt c = (case c of Some c \<Rightarrow> owned c | None \<Rightarrow> (\<lambda>_. 0))"

lemma one_null [simp]: "one k 0 = (\<lambda>_. 0)"
  by (simp add: one_def)

lemma one_diff [simp]: "debit k 0 bal = bal" "credit k 0 bal = bal"
  by (simp_all add: debit_def credit_def)

lemma traced_sel [simp]:
  "gss_import_name (traced G) (w, bal) b =
     (case gss_import_name G w b of (major, minor, name, w) \<Rightarrow> (major, minor, name, w, credit Gss_Name name bal))"
  "gss_acquire_cred (traced G) (w, bal) =
     (case gss_acquire_cred G w of (major, minor, cred, w) \<Rightarrow> (major, minor, cred, w, credit Gss_Cred cred bal))"
  "gss_init_sec_context (traced G) (w, bal) cred ctx name oid flags input =
     (case gss_init_sec_context G w cred ctx name oid flags input of (major, minor, ctx', out, w) \<Rightarrow>
        (major, minor, ctx', out, w,
         credit Gss_Buffer (buf_value out) (credit Gss_Ctx ctx' (debit Gss_Ctx ctx bal))))"
  "gss_delete_sec_context (traced G) (w, bal) p = (gss_delete_sec_context G w p, debit Gss_Ctx p bal)"
  "gss_release_cred (traced G) (w, bal) p = (gss_release_cred G w p, debit Gss_Cred p bal)"
  "gss_release_name (traced G) (w, bal) p = (gss_release_name G w p, debit Gss_Name p bal)"
  "gss_release_buffer (traced G) (w, bal) d = (gss_release_buffer G w d, debit Gss_Buffer (buf_value d) bal)"
  "gss_memory (traced G) (w, bal) p n = gss_memory G w p n"
  "GSS_S_COMPLETE (traced G) = GSS_S_COMPLETE G"
  "GSS_S_CONTINUE_NEEDED (traced G) = GSS_S_CONTINUE_NEEDED G"
  by (simp_all add: traced_def Let_def)

lemma release_traced [simp]:
  "release_gssapi_name (traced G) name (w, bal) = (release_gssapi_name G name w, debit Gss_Name name bal)"
  "release_gssapi_buffer (traced G) b (w, bal) = (release_gssapi_buffer G b w, debit Gss_Buffer (buf_value b) bal)"
  by (simp_all add: release_gssapi_name_def release_gssapi_buffer_def)

lemma drop_traced:
  "GssapiClientContext_drop (traced G) c (w, bal) = (GssapiClientContext_drop G c w, \<lambda>r. bal r - owned c r)"
  by (simp add: GssapiClientContext_drop_def Let_def owned_def debit_def fun_eq_iff)

lemma drop_context_traced:
  "drop_context (traced G) c (w, bal) = (drop_context G c w, \<lambda>r. bal r - owned_opt c r)"
  by (simp add: drop_context_def drop_traced owned_opt_def split: option.split)

lemma gss_okD:
  "gss_ok G \<Longrightarrow> gss_import_name G w b = (major, minor, name, w') \<Longrightarrow> major \<noteq> GSS_S_COMPLETE G \<Longrightarrow> name = 0"
  "gss_ok G \<Longrightarrow> gss_acquire_cred G w = (major, minor, cred, w') \<Longrightarrow> major \<noteq> GSS_S_COMPLETE G \<Longrightarrow> cred = 0"
  unfolding gss_ok_def by blast+

lemma import_traced:
  assumes "gss_ok G" "import_gssapi_service_name (traced G) service (w, bal) = (r, w', bal')"
  shows "r \<noteq> Panic \<and> (case r of Ok name \<Rightarrow> bal' = credit Gss_Name name bal | _ \<Rightarrow> bal' = bal)"
  using assms(2)
  by (auto simp: import_gssapi_service_name_def dest: gss_okD(1) [OF assms(1)] split: prod.splits if_splits)

lemma acquire_traced:
  assumes "gss_ok G" "acquire_gssapi_credentials (traced G) (w, bal) = (r, w', bal')"
  shows "r \<noteq> Panic \<and> (case r of Ok cred \<Rightarrow> bal' = credit Gss_Cred cred bal | _ \<Rightarrow> bal' = bal)"
  using assms(2)
  by (auto simp: acquire_gssapi_credentials_def dest: gss_okD(2) [OF assms(1)] split: prod.splits if_splits)

lemma new_traced:
  assumes "gss_ok G" "GssapiClientContext_new (traced G) service (w, bal) = (r, w', bal')"
  shows "r \<noteq> Panic \<and> (case r of Ok c \<Rightarrow> bal' = (\<lambda>x. bal x + owned c x) | _ \<Rightarrow> bal' = bal)"
  using assms(2)
  by (auto simp: GssapiClientContext_new_def and_then_st_def credit_def debit_def owned_def fun_eq_iff
      dest!: import_traced [OF assms(1)] acquire_traced [OF assms(1)] split: prod.splits result.splits)

lemma step_traced:
  assumes "GssapiClientContext_step (traced G) input (c, w, bal) = (r, c', w', bal')"
  shows "r \<noteq> Panic" "bal' = (\<lambda>x. bal x - owned c x + owned c' x)"
  using assms
  by (auto simp: GssapiClientContext_step_def Let_def owned_def debit_def credit_def
      split: prod.splits if_splits)

text \<open>The ledger only observes: forgetting it gives the library's own run.\<close>

definition forget :: "('r \<times> 'p \<times> 'w \<times> ledger) \<Rightarrow> 'r \<times> 'p \<times> 'w" where
  "forget = (\<lambda>(r, p, w, bal). (r, p, w))"

lemma request_flags_traced [simp]: "GssapiClientContext_request_flags (traced G) = GssapiClientContext_request_flags G"
  by (simp add: GssapiClientContext_request_flags_def traced_def)

lemma copy_traced [simp]: "copy_gssapi_buffer (traced G) (w, bal) b = copy_gssapi_buffer G w b"
  by (simp add: copy_gssapi_buffer_def)

lemma forget_client_step:
  "forget (GssapiClientContext_step (traced G) input (c, w, bal)) = GssapiClientContext_step G input (c, w)"
  by (simp add: GssapiClientContext_step_def forget_def Let_def split: prod.split)

lemma forget_new:
  "(case GssapiClientContext_new (traced G) service (w, bal) of (r, w, bal) \<Rightarrow> (r, w)) =
     GssapiClientContext_new G service w"
  by (auto simp: GssapiClientContext_new_def import_gssapi_service_name_def acquire_gssapi_credentials_def
      and_then_st_def Let_def split: prod.split result.split)

lemma client_step_untraced:
  "GssapiClientContext_step (traced G) input (c, w, bal) = (r, c', w', bal') \<Longrightarrow>
     GssapiClientContext_step G input (c, w) = (r, c', w')"
  using forget_client_step [of G input c w bal] by (simp add: forget_def)

lemma new_untraced:
  "GssapiClientContext_new (traced G) service (w, bal) = (r, w', bal') \<Longrightarrow>
     GssapiClientContext_new G service w = (r, w')"
  using forget_new [of G service w bal] by simp

lemma forget_step: "forget (gssapi_step (traced G) (p, w, bal) challenge) = gssapi_step G (p, w) challenge"
proof (cases "gk_context p")
  case (Some c)
  obtain r c' w' bal' where step: "GssapiClientContext_step (traced G) (Some challenge) (c, w, bal) = (r, c', w', bal')"
    by (metis prod_cases4)
  show ?thesis
    by (simp add: gssapi_step_def forget_def Let_def Some step client_step_untraced [OF step])
qed (simp add: gssapi_step_def forget_def)

lemma forget_init: "forget (gssapi_init_context (traced G) (p, w, bal) target) = gssapi_init_context G (p, w) target"
proof -
  obtain r w1 bal1 where new: "gssapi_build_context (traced G) p target (w, bal) = (r, w1, bal1)"
    by (metis prod_cases3)
  then have new': "gssapi_build_context G p target w = (r, w1)"
    unfolding gssapi_build_context_def Let_def by (rule new_untraced)
  show ?thesis
  proof (cases r)
    case (Ok c)
    obtain r' c' w2 bal2 where step: "GssapiClientContext_step (traced G) None (c, w1, bal1) = (r', c', w2, bal2)"
      by (metis prod_cases4)
    show ?thesis
      by (simp add: gssapi_init_context_def new new' Ok step client_step_untraced [OF step] forget_def
          drop_traced drop_context_traced split: result.split option.split)
  qed (simp_all add: gssapi_init_context_def new new' forget_def)
qed

inductive gss_reachable :: "'w gss_crate \<Rightarrow> GssapiKerberosRpcAuthProvider \<times> 'w \<times> ledger \<Rightarrow> bool"
  for G :: "'w gss_crate" where
  start: "gss_reachable G (GssapiKerberosRpcAuthProvider_new, w, \<lambda>_. 0)"
| service_principal: "gss_reachable G (p, s) \<Longrightarrow>
    gss_reachable G (GssapiKerberosRpcAuthProvider_with_service_principal p service, s)"
| auth_level: "gss_reachable G (p, s) \<Longrightarrow>
    gss_reachable G (GssapiKerberosRpcAuthProvider_with_auth_level p level, s)"
| init: "gss_reachable G s \<Longrightarrow> gssapi_init_context (traced G) s target = (r, s') \<Longrightarrow> gss_reachable G s'"
| step: "gss_reachable G s \<Longrightarrow> gssapi_step (traced G) s challenge = (r, s') \<Longrightarrow> gss_reachable G s'"

interpretation gssapi_run: provider_invariant "gssapi_provider (traced G)" "gss_reachable G" for G
  by unfold_locales (simp_all add: gssapi_provider_def gss_reachable.init [OF _ surjective_pairing]
      gss_reachable.step [OF _ surjective_pairing])

definition balanced :: "GssapiKerberosRpcAuthProvider \<times> 'w \<times> ledger \<Rightarrow> bool" where
  "balanced = (\<lambda>(p, w, bal). bal = owned_opt (gk_context p))"

lemma owned_opt_simps [simp]: "owned_opt None = (\<lambda>_. 0)" "owned_opt (Some c) = owned c"
  by (simp_all add: owned_opt_def)

lemma init_balanced:
  assumes "gss_ok G" "balanced s" "gssapi_init_context (traced G) s target = (r, s')"
  shows "balanced s'"
  using assms(2,3)
  by (auto simp: balanced_def gssapi_init_context_def gssapi_build_context_def Let_def drop_traced
      drop_context_traced fun_eq_iff dest!: new_traced [OF assms(1)] step_traced
      split: prod.splits result.splits option.splits)

lemma step_balanced:
  assumes "balanced s" "gssapi_step (traced G) s challenge = (r, s')"
  shows "balanced s'"
  using assms
  by (auto simp: balanced_def gssapi_step_def Let_def fun_eq_iff dest!: step_traced
      split: prod.splits option.splits)

lemma reachable_balanced:
  assumes "gss_ok G" "gss_reachable G s" shows "balanced s"
  using assms(2)
proof (induction rule: gss_reachable.induct)
  case (init s target r s')
  then show ?case using init_balanced [OF assms(1)] by blast
next
  case (step s challenge r s')
  then show ?case using step_balanced by blast
qed (auto simp: balanced_def GssapiKerberosRpcAuthProvider_new_def
      GssapiKerberosRpcAuthProvider_with_service_principal_def
      GssapiKerberosRpcAuthProvider_with_auth_level_def)

lemma owned_nonneg: "0 \<le> owned_opt c r"
  by (cases c) (auto simp: owned_def one_def)

section \<open>Properties\<close>

text \<open>
  C16: the Kerberos provider neither leaks nor doubly releases a resource of the C library.  After any
  sequence of configurations, initialisations and steps, successful or failing, what the library has
  handed out and not got back is exactly the name, the credential and the security context of the
  context the provider holds, and no output buffer; so dropping the provider settles the ledger.
\<close>

theorem gssapi_handles_settled:
  assumes "gss_ok G" "gss_reachable G (p, w, bal)"
  shows "bal = owned_opt (gk_context p) \<and> bal (Gss_Buffer b) = 0 \<and>
     snd (drop_context (traced G) (gk_context p) (w, bal)) = (\<lambda>_. 0)"
proof -
  have "bal = owned_opt (gk_context p)"
    using reachable_balanced [OF assms] by (simp add: balanced_def)
  moreover have "owned_opt (gk_context p) (Gss_Buffer b) = 0"
    by (cases "gk_context p") (simp_all add: owned_def one_def)
  ultimately show ?thesis by (simp add: drop_context_traced)
qed

definition sample_gss :: "nat gss_crate" where
  "sample_gss =
     \<lparr>gss_import_name = (\<lambda>n b. (0, 0, n + 1, n + 1)),
      gss_acquire_cred = (\<lambda>n. (0, 0, n + 1, n + 1)),
      gss_init_sec_context = (\<lambda>n cred ctx name oid flags input.
        (case input of
           None \<Rightarrow> (1, 0, n + 1, \<lparr>buf_length = 2, buf_value = n + 2\<rparr>, n + 2)
         | Some _ \<Rightarrow> (0, 0, ctx, \<lparr>buf_length = 0, buf_value = 0\<rparr>, n))),
      gss_delete_sec_context = (\<lambda>n _. n), gss_release_cred = (\<lambda>n _. n), gss_release_name = (\<lambda>n _. n),
      gss_release_buffer = (\<lambda>n _. n), gss_memory = (\<lambda>_ _ n. replicate n 7),
      GSS_S_COMPLETE = 0, GSS_S_CONTINUE_NEEDED = 1,
      GSS_C_MUTUAL_FLAG = 2, GSS_C_INTEG_FLAG = 32, GSS_C_DCE_STYLE = 4096\<rparr>"

theorem gssapi_handles_settled_witness:
  "\<exists>p w bal. gssapi_init_context (traced sample_gss) (GssapiKerberosRpcAuthProvider_new, 0, \<lambda>_. 0) ''host/dc01'' =
       (Ok [7, 7], p, w, bal) \<and>
     bal (Gss_Name 1) = 1 \<and> bal (Gss_Cred 2) = 1 \<and> bal (Gss_Ctx 3) = 1 \<and> bal (Gss_Buffer 4) = 0"
proof -
  let ?s = "(GssapiKerberosRpcAuthProvider_new, 0, \<lambda>_. 0) :: GssapiKerberosRpcAuthProvider \<times> nat \<times> ledger"
  obtain p w bal where run: "gssapi_init_context (traced sample_gss) ?s ''host/dc01'' = (Ok [7, 7], p, w, bal)"
    and p: "gk_context p = Some \<lparr>gc_credential = 2, gc_name = 1, gc_context = 3, gc_established = False\<rparr>"
    by (simp add: gssapi_init_context_def gssapi_build_context_def GssapiClientContext_new_def
        import_gssapi_service_name_def acquire_gssapi_credentials_def GssapiClientContext_step_def Let_def
        sample_gss_def copy_gssapi_buffer_def GssapiKerberosRpcAuthProvider_new_def
        drop_context_def numeral_2_eq_2)
  have "gss_reachable sample_gss (p, w, bal)"
    by (rule gss_reachable.init [OF gss_reachable.start run])
  moreover have "gss_ok sample_gss" by (simp add: gss_ok_def sample_gss_def)
  ultimately have "bal = owned_opt (gk_context p)" "bal (Gss_Buffer 4) = 0"
    using gssapi_handles_settled [of sample_gss p w bal] by blast+
  with run p show ?thesis by (simp add: owned_def one_def)
qed

text \<open>
  The host-based service name of a target.  A target without \<open>@\<close> whose first slash separates
  service and host becomes \<open>service@host\<close>; every other target is kept, in particular a name that is
  one already, so the translation can be applied again without harm.
\<close>

lemma service_name_cases:
  "(CHR ''@'' \<notin> set service \<longrightarrow> CHR ''/'' \<notin> set service \<longrightarrow> CHR ''@'' \<notin> set host \<longrightarrow>
      service_name_for_target (service @ ''/'' @ host) = service @ ''@'' @ host) \<and>
   (service_name_for_target target \<noteq> target \<longleftrightarrow> CHR ''@'' \<notin> set target \<and> CHR ''/'' \<in> set target) \<and>
   service_name_for_target (service_name_for_target target) = service_name_for_target target"
proof -
  have split: "split_once (CHR ''/'') (service @ ''/'' @ host) = Some (service, host)"
    if "CHR ''/'' \<notin> set service"
    using that by (simp add: split_once_eq_Some)
  have none: "split_once d s = None \<longleftrightarrow> d \<notin> set s" for d :: char and s
    by (induction s) (auto split: option.splits)
  show ?thesis
  proof (intro conjI impI)
    assume "CHR ''@'' \<notin> set service" "CHR ''/'' \<notin> set service" "CHR ''@'' \<notin> set host"
    then show "service_name_for_target (service @ ''/'' @ host) = service @ ''@'' @ host"
      unfolding service_name_for_target_def split [OF \<open>CHR ''/'' \<notin> set service\<close>] by simp
  qed (auto simp: service_name_for_target_def none split_once_eq_Some split: option.splits)
qed

lemma service_name_cases_witness:
  "service_name_for_target ''host/dc01'' = ''host@dc01''"
  using service_name_cases [of "''host''" "''dc01''" "[]"] by simp

end
