(* ===== verification/Debug.thy ===== *)
theory Debug
  imports Prelude
begin

text \<open>
  The text the crate prints of byte strings (\<^verbatim>\<open>src/debug.rs\<close>): a hexadecimal preview, which the named-pipe
  transport uses for dumps of whole PDUs, and a redacted form for secrets.
\<close>

section \<open>Formatting\<close>

definition hex_preview :: "bytes \<Rightarrow> nat \<Rightarrow> string" where
  "hex_preview bs max_len =
     (let shown = min (length bs) max_len;
          out = fold (\<lambda>(index, byte) out.
                   let out = (if index > 0 then out @ '' '' else out) in out @ fmt_hex 2 (unat byte))
                 (List.enumerate 0 (take shown bs)) []
      in
      if length bs > shown then
        let out = (if out \<noteq> [] then out @ '' '' else out)
        in out @ ''... (+'' @ fmt_dec (length bs - shown) @ '' bytes)''
      else out)"

definition redacted_bytes :: "string \<Rightarrow> bytes \<Rightarrow> string" where
  "redacted_bytes label bs = label @ ''=<redacted: '' @ fmt_dec (length bs) @ '' bytes>''"

section \<open>Reading a preview\<close>

text \<open>The reference: words separated by one blank, and the bytes read from such words.\<close>

fun unwords :: "string list \<Rightarrow> string" where
  "unwords [] = []"
| "unwords [w] = w"
| "unwords (w # ws) = w @ '' '' @ unwords ws"

fun read_hex :: "string \<Rightarrow> bytes" where
  "read_hex (a # b # rest) =
     (if a = CHR ''.'' then [] else of_nat (num_val 16 [a, b]) # read_hex (drop 1 rest))"
| "read_hex _ = []"

abbreviation hex_byte :: "u8 \<Rightarrow> string" where
  "hex_byte b \<equiv> fmt_hex 2 (unat b)"

lemma length_hex_byte [simp]: "length (hex_byte b) = 2"
  using unsigned_less [of b, where ?'a = nat] by (intro length_fmt_hex) simp_all

lemma unwords_snoc: "unwords (ws @ [w]) = (if ws = [] then w else unwords ws @ '' '' @ w)"
  by (induction ws rule: unwords.induct) auto

lemma unwords_eq_Nil: "[] \<notin> set ws \<Longrightarrow> unwords ws = [] \<longleftrightarrow> ws = []"
  by (induction ws rule: unwords.induct) auto

lemma preview_loop:
  "fold (\<lambda>(index, byte) out. let out = (if index > 0 then out @ '' '' else out) in out @ hex_byte byte)
     (List.enumerate 0 bs) [] = unwords (map hex_byte bs)"
  by (induction bs rule: rev_induct) (auto simp: enumerate_append_eq unwords_snoc Let_def)

lemma hex_preview_unwords:
  "hex_preview bs n = unwords (map hex_byte (take n bs)
     @ (if length bs > n then [''... (+'' @ fmt_dec (length bs - n) @ '' bytes)''] else []))"
proof -
  have ne: "[] \<notin> set (map hex_byte (take n bs))"
    by (metis (no_types, lifting) imageE length_hex_byte list.set_map list.size(3) zero_neq_numeral)
  show ?thesis
    unfolding hex_preview_def Let_def preview_loop [unfolded Let_def]
    using unwords_eq_Nil [OF ne]
    by (cases "length bs \<le> n") (auto simp: min_def unwords_snoc)
qed

lemma read_hex_byte:
  "hex_byte b @ rest = a # c # rest' \<Longrightarrow> a \<noteq> CHR ''.'' \<and> of_nat (num_val 16 [a, c]) = b \<and> rest' = rest"
proof -
  assume r: "hex_byte b @ rest = a # c # rest'"
  obtain x y where h: "hex_byte b = [x, y]"
    using length_hex_byte [of b] by (auto simp: numeral_2_eq_2 length_Suc_conv)
  then have "num_val 16 [x, y] = unat b" using num_val_fmt(1) [of 2 "unat b"] by simp
  moreover have "x \<noteq> CHR ''.''" using fmt_hex_chars [of 2 "unat b"] h by auto
  ultimately show ?thesis using r h by auto
qed

lemma read_hex_Cons: "read_hex (hex_byte b @ rest) = b # read_hex (drop 1 rest)"
proof -
  obtain x y where h: "hex_byte b = [x, y]"
    using length_hex_byte [of b] by (auto simp: numeral_2_eq_2 length_Suc_conv)
  from read_hex_byte [of b rest x y rest] show ?thesis by (simp add: h)
qed

lemma read_hex_dots: "read_hex (''...'' @ s) = []"
  by simp

lemma read_unwords:
  assumes "ws = [] \<or> (\<exists>s. ws = [''...'' @ s])"
  shows "read_hex (unwords (map hex_byte bs @ ws)) = bs"
proof (induction bs)
  case Nil
  with assms show ?case by auto
next
  case (Cons b bs)
  show ?case
  proof (cases "map hex_byte bs @ ws")
    case Nil
    then show ?thesis using read_hex_Cons [of b "[]"] by simp
  next
    case (Cons v vs)
    then show ?thesis
      using Cons.IH read_hex_Cons [of b "'' '' @ unwords (v # vs)"] by simp
  qed
qed

section \<open>Properties\<close>

text \<open>
  C39: a preview shows a prefix of the bytes faithfully.  It is the two-digit words of the first
  \<open>max_len\<close> bytes and, iff bytes are left out, a last word that counts them, with single blanks
  between; the shown bytes can be read back, so a dump of all bytes determines them.
\<close>

theorem hex_preview_faithful:
  "hex_preview bs max_len = unwords (map (\<lambda>b. fmt_hex 2 (unat b)) (take max_len bs)
     @ (if length bs > max_len then [''... (+'' @ fmt_dec (length bs - max_len) @ '' bytes)''] else [])) \<and>
   read_hex (hex_preview bs max_len) = take max_len bs"
proof
  show *: "hex_preview bs max_len = unwords (map hex_byte (take max_len bs)
     @ (if length bs > max_len then [''... (+'' @ fmt_dec (length bs - max_len) @ '' bytes)''] else []))"
    by (rule hex_preview_unwords)
  show "read_hex (hex_preview bs max_len) = take max_len bs"
    unfolding * by (rule read_unwords) auto
qed

text \<open>A redacted value shows the length of the bytes and nothing else of them.\<close>

lemma redacted_bytes_eq_iff: "redacted_bytes label bs = redacted_bytes label cs \<longleftrightarrow> length bs = length cs"
proof
  assume "redacted_bytes label bs = redacted_bytes label cs"
  then have "fmt_dec (length bs) = fmt_dec (length cs)" by (simp add: redacted_bytes_def)
  then show "length bs = length cs" by (metis num_val_fmt(2))
qed (simp add: redacted_bytes_def)

end
