(* ===== verification/Spec2Isabelle.thy ===== *)
theory Spec2Isabelle
  imports Lifecycle Auth_Ntlm Auth_Gssapi Debug
begin

text \<open>
  A verification development for \<^verbatim>\<open>msrpce-dcerpc\<close>, a client library for connection-oriented DCE/RPC
  with the Microsoft extensions.

  \<^bold>\<open>The program.\<close>  A client (\<^verbatim>\<open>src/client.rs\<close>) is obtained by a bind: it sends the presentation
  contexts it proposes (\<^verbatim>\<open>src/bind.rs\<close>, built of the syntax identifiers of \<^verbatim>\<open>src/syntax.rs\<close>), reads the
  server's bind-ack and keeps the context the server accepted.  With an authentication provider
  (\<^verbatim>\<open>src/auth.rs\<close>) the bind carries the provider's first token, the bind-ack its challenge, and an AUTH3
  PDU the answer.  A call cuts the request into fragments, sends them and reassembles the response.
  All PDUs have the formats of \<^verbatim>\<open>src/pdu.rs\<close> and cross a transport (\<^verbatim>\<open>src/transport.rs\<close>), in practice a
  named pipe (\<^verbatim>\<open>src/ncacn_np.rs\<close>); failures are values of the type of \<^verbatim>\<open>src/error.rs\<close>.

  \<^bold>\<open>Theories.\<close>  Each Rust file has a theory with one definition per function, in the order of the
  code; the conventions for names and machine integers are stated in \<^verbatim>\<open>Prelude\<close>.

  \<^item> \<^verbatim>\<open>Prelude\<close>: the outcome of a Rust function (\<open>Ok\<close>, \<open>Err\<close> or \<open>Panic\<close>), reads and writes that panic out
    of range, byte orders, text formatting, and the locales of the wire codecs (\<open>wire_enum\<close>, \<open>wire_codec\<close>,
    \<open>exact_codec\<close>, \<open>fixed_codec\<close>) and of the decoding loops (\<open>element_loop\<close> and its extensions).
  \<^item> \<^verbatim>\<open>External\<close>: the crates \<^verbatim>\<open>msrpce_ndr\<close> and \<^verbatim>\<open>uuid\<close> as records \<open>N\<close> and \<open>U\<close> of the functions called, with the
    documented laws \<open>ndr_ok\<close> and \<open>uuid_ok\<close> and executable instances.
  \<^item> \<^verbatim>\<open>Rpc_Error\<close>, \<^verbatim>\<open>Debug\<close>: \<^verbatim>\<open>src/error.rs\<close> and \<^verbatim>\<open>src/debug.rs\<close>.  The status of a fault can be read from its
    message and the bytes of a preview from the preview.
  \<^item> \<^verbatim>\<open>Rpc_Auth\<close>: levels, types, mechanisms and the provider trait of \<^verbatim>\<open>src/auth.rs\<close>, as a record of methods.
  \<^item> \<^verbatim>\<open>Pdu\<close>, \<^verbatim>\<open>Syntax\<close>, \<^verbatim>\<open>Bind\<close>: the wire formats.  For each format a declarative description of the
    bytes, the decoder's equivalence with it, round trips, freedom from panics, and the inputs on
    which the encoders truncate or panic.
  \<^item> \<^verbatim>\<open>Transport\<close>, \<^verbatim>\<open>Ncacn_Np\<close>: the transport trait as a record \<open>T\<close> of methods, the contract
    \<open>reliable_transport\<close>, the in-memory transport of the example, and the named pipe, which implements
    the contract over every \<open>stream_pipe\<close>.
  \<^item> \<^verbatim>\<open>Client\<close>: all of \<^verbatim>\<open>src/client.rs\<close>.  \<^verbatim>\<open>Calls\<close>: fragmentation and reassembly refine their specifications,
    calls return, succeed over a reliable transport, and fail as documented.  \<^verbatim>\<open>Binding\<close>: when a bind
    succeeds, how it fails, the three legs with a provider, and the contracts of providers
    (\<open>provider_invariant\<close>, \<open>stable_provider\<close>).  \<^verbatim>\<open>Lifecycle\<close>: the step relation of a client, its
    invariants, bind followed by call, and \<^verbatim>\<open>examples/in_memory_bind_call.rs\<close>.
  \<^item> \<^verbatim>\<open>Auth_Ntlm\<close>, \<^verbatim>\<open>Auth_Gssapi\<close>: the two providers of \<^verbatim>\<open>src/auth.rs\<close> over a parameter for the crate \<^verbatim>\<open>sspi\<close>
    and for the C library behind \<^verbatim>\<open>libgssapi_sys\<close>; the states of the one, and for the other a ledger of
    what the library handed out and got back.
  \<^item> this theory: the resources of the C library during the life of a client.

  \<^bold>\<open>Loops.\<close>  Loops over a count or a list are structural recursions and always return.  The two loops of
  the client that need not end, sending with a fragment size that leaves no room and receiving from a
  transport that never completes a response, are \<open>partial_function (option)\<close>, so that \<open>None\<close> is not
  returning; no fuel is used.  That they return is a theorem where it holds.

  \<^bold>\<open>Not modelled.\<close>  The events of the optional feature \<^verbatim>\<open>tracing\<close> and the dumps to the standard error stream,
  which do not influence results; the conversion \<open>as_ndr_syntax\<close> and the feature constants of
  \<^verbatim>\<open>src/syntax.rs\<close>, which no code of the crate uses; accessors that return a field are the selectors of
  the records; \<^verbatim>\<open>src/lib.rs\<close> consists of declarations, and the fuzz targets only call the decoders.  The
  destructor of a provider is a function to be applied to its context; the point at which a failing
  bind drops the provider it was given is not part of the client's result.
\<close>

section \<open>Kerberos clients\<close>

text \<open>
  C17: no leak across a bind.  When a bind with a fresh Kerberos provider returns a client, then during
  the whole life of that client, whatever calls are made on it, the client still holds the provider,
  what the C library has handed out and not got back is what the provider's context owns, and dropping
  the client's provider returns all of it.
\<close>

theorem kerberos_client_settled:
  assumes "gss_ok G"
    and "bind_with_auth_provider N U T t proposed target
       (gssapi_provider (traced G), GssapiKerberosRpcAuthProvider_new, w, \<lambda>_. 0) = (Ok c0, t0)"
    and "client_steps N U T c0 c"
  shows "\<exists>p w' bal. cl_auth_provider c = Some (gssapi_provider (traced G), p, w', bal) \<and>
     bal = owned_opt (gk_context p) \<and> snd (drop_context (traced G) (gk_context p) (w', bal)) = (\<lambda>_. 0)"
proof -
  from gssapi_run.bound_keeps [OF assms(2) gss_reachable.start] obtain p w' bal where
    p: "cl_auth_provider c0 = Some (gssapi_provider (traced G), p, w', bal)" "gss_reachable G (p, w', bal)"
    by auto
  from reachable_balanced [OF assms(1) p(2)] have "bal = owned_opt (gk_context p)" by (simp add: balanced_def)
  moreover have "cl_auth_provider c = cl_auth_provider c0"
    using client_steps_keep [OF assms(3)] by (simp add: keeps_binding_def)
  ultimately show ?thesis using p by (simp add: drop_context_traced)
qed

lemma sample_gss_init:
  "\<exists>p w bal. gssapi_init_context (traced sample_gss) (GssapiKerberosRpcAuthProvider_new, 0, \<lambda>_. 0) ''host/dc01'' =
     (Ok [7, 7], p, w, bal) \<and> gk_auth_level p = AuthLevel_Connect"
  by (simp add: gssapi_init_context_def gssapi_build_context_def GssapiClientContext_new_def
      import_gssapi_service_name_def acquire_gssapi_credentials_def GssapiClientContext_step_def Let_def
      sample_gss_def copy_gssapi_buffer_def GssapiKerberosRpcAuthProvider_new_def
      drop_context_def numeral_2_eq_2)

theorem kerberos_client_settled_witness:
  "\<exists>c0 t0 p w bal. bind_with_auth_provider std_ndr std_uuid memory_transport
     (MemoryTransport_new [body_wire std_ndr PduType_BindAck 1 3 (bind_ack_body std_uuid sample_ack)])
     [sample_context] ''host/dc01''
     (gssapi_provider (traced sample_gss), GssapiKerberosRpcAuthProvider_new, 0, \<lambda>_. 0) = (Ok c0, t0) \<and>
     cl_auth_provider c0 = Some (gssapi_provider (traced sample_gss), p, w, bal) \<and>
     snd (drop_context (traced sample_gss) (gk_context p) (w, bal)) = (\<lambda>_. 0)"
proof -
  let ?A = "gssapi_provider (traced sample_gss)"
  obtain p w bal where run: "gssapi_init_context (traced sample_gss)
      (GssapiKerberosRpcAuthProvider_new, 0, \<lambda>_. 0) ''host/dc01'' = (Ok [7, 7], p, w, bal)"
    and level: "gk_auth_level p = AuthLevel_Connect"
    using sample_gss_init by blast
  then have i: "init_auth (Some (''host/dc01'', ?A, GssapiKerberosRpcAuthProvider_new, 0, \<lambda>_. 0)) =
      Ok (Some ((?A, p, w, bal), [7, 7]))"
    by (simp add: init_auth_def gssapi_provider_def)
  have "length (bind_body_bytes std_uuid [sample_context]) + length [7, 7 :: u8] \<le> 65508"
    by (simp add: sample_proposal(2))
  then obtain bs where "PduPacket_encode std_ndr (auth_pdu std_ndr PduType_Bind 1
      (bind_body_bytes std_uuid [sample_context]) (?A, p, w, bal) [7, 7]) = Ok bs"
    by (rule auth_pdu_encode)
  then have "bind_bytes std_ndr std_uuid [sample_context] (Some ((?A, p, w, bal), [7, 7])) = Ok bs"
    using level
    by (simp add: bind_bytes_eq sample_proposal(1) bind_packet_def authenticated_packet_cases level_allowed_def)
      (simp add: gssapi_provider_def)
  from sample_bound [OF i this] obtain c0 t0 where
    b: "bind_with_auth_provider std_ndr std_uuid memory_transport
      (MemoryTransport_new [body_wire std_ndr PduType_BindAck 1 3 (bind_ack_body std_uuid sample_ack)])
      [sample_context] ''host/dc01'' (?A, GssapiKerberosRpcAuthProvider_new, 0, \<lambda>_. 0) = (Ok c0, t0)"
    by (auto simp: bind_with_auth_provider_def)
  have "gss_ok sample_gss" by (simp add: gss_ok_def sample_gss_def)
  from kerberos_client_settled [OF this b rtranclp.rtrancl_refl] b show ?thesis by blast
qed

end
